theory Spec2Isabelle
  imports Main
begin

section \<open>Expressions\<close>

text \<open>
  Bit-vector expressions. A constant carries its width and its value; a read names one
  byte of a symbolic array. Values are natural numbers, with the wrap-around at the
  width written out in the evaluation function.
\<close>

datatype expr =
    ConstantExpr nat nat
  | ReadExpr string nat
  | EqExpr expr expr
  | UltExpr expr expr
  | AddExpr expr expr
  | SubExpr expr expr
  | ZExtExpr expr nat
  | SExtExpr expr nat
  | ConcatExpr expr expr
  | MulExpr expr expr

text \<open>A \<open>ref<ConstantExpr>\<close>: width and value.\<close>

datatype constantExpr = CE nat nat

fun toExpr :: "constantExpr \<Rightarrow> expr" where
  "toExpr (CE w v) = ConstantExpr w v"

fun getZExtValue :: "constantExpr \<Rightarrow> nat" where
  "getZExtValue (CE w v) = v"

fun isConstant :: "expr \<Rightarrow> bool" where
  "isConstant (ConstantExpr w v) = True"
| "isConstant e = False"

fun isTrue :: "expr \<Rightarrow> bool" where
  "isTrue (ConstantExpr w v) = (w = 1 \<and> v = 1)"
| "isTrue e = False"

fun getWidth :: "expr \<Rightarrow> nat" where
  "getWidth (ConstantExpr w v) = w"
| "getWidth (ReadExpr a i) = 8"
| "getWidth (EqExpr l r) = 1"
| "getWidth (UltExpr l r) = 1"
| "getWidth (AddExpr l r) = getWidth l"
| "getWidth (SubExpr l r) = getWidth l"
| "getWidth (ZExtExpr e w) = w"
| "getWidth (SExtExpr e w) = w"
| "getWidth (ConcatExpr l r) = getWidth l + getWidth r"
| "getWidth (MulExpr l r) = getWidth l"

text \<open>The value of an expression under an assignment of bytes to the symbolic arrays.\<close>

fun evalE :: "(string \<Rightarrow> nat \<Rightarrow> nat) \<Rightarrow> expr \<Rightarrow> nat" where
  "evalE a (ConstantExpr w v) = v"
| "evalE a (ReadExpr n i) = a n i mod 256"
| "evalE a (EqExpr l r) = (if evalE a l = evalE a r then 1 else 0)"
| "evalE a (UltExpr l r) = (if evalE a l < evalE a r then 1 else 0)"
| "evalE a (AddExpr l r) = (evalE a l + evalE a r) mod 2 ^ getWidth l"
| "evalE a (SubExpr l r) =
     (evalE a l + 2 ^ getWidth l - evalE a r mod 2 ^ getWidth l) mod 2 ^ getWidth l"
| "evalE a (ZExtExpr e w) = evalE a e mod 2 ^ w"
| "evalE a (SExtExpr e w) =
     (if 0 < getWidth e \<and> 2 ^ (getWidth e - 1) \<le> evalE a e
      then (evalE a e + 2 ^ w - 2 ^ getWidth e) mod 2 ^ w
      else evalE a e mod 2 ^ w)"
| "evalE a (ConcatExpr l r) = evalE a l * 2 ^ getWidth r + evalE a r"
| "evalE a (MulExpr l r) = (evalE a l * evalE a r) mod 2 ^ getWidth l"

text \<open>
  Modelled from the spec: the expression constructors \<open>EqExpr::create\<close>,
  \<open>Expr::createIsZero\<close>, \<open>UltExpr::create\<close>, \<open>SubExpr::create\<close>,
  \<open>ZExtExpr::create\<close>, \<open>SExtExpr::create\<close> and \<open>ConcatExpr::createN\<close> are not
  part of the source file. The specification says that constructors fold constants, and
  that is what these definitions do; on any other operands they build the node.
\<close>

fun EqExpr_create :: "expr \<Rightarrow> expr \<Rightarrow> expr" where
  "EqExpr_create (ConstantExpr w v) (ConstantExpr w' v') =
     ConstantExpr 1 (if v = v' then 1 else 0)"
| "EqExpr_create l r = EqExpr l r"

definition createIsZero :: "expr \<Rightarrow> expr" where
  "createIsZero e = EqExpr_create e (ConstantExpr (getWidth e) 0)"

fun UltExpr_create :: "expr \<Rightarrow> expr \<Rightarrow> expr" where
  "UltExpr_create (ConstantExpr w v) (ConstantExpr w' v') =
     ConstantExpr 1 (if v < v' then 1 else 0)"
| "UltExpr_create l r = UltExpr l r"

fun SubExpr_create :: "expr \<Rightarrow> expr \<Rightarrow> expr" where
  "SubExpr_create (ConstantExpr w v) (ConstantExpr w' v') =
     ConstantExpr w ((v + 2 ^ w - v' mod 2 ^ w) mod 2 ^ w)"
| "SubExpr_create l r = SubExpr l r"

fun ZExtExpr_create :: "expr \<Rightarrow> nat \<Rightarrow> expr" where
  "ZExtExpr_create (ConstantExpr w v) to = ConstantExpr to (v mod 2 ^ to)"
| "ZExtExpr_create e to = (if getWidth e = to then e else ZExtExpr e to)"

fun SExtExpr_create :: "expr \<Rightarrow> nat \<Rightarrow> expr" where
  "SExtExpr_create (ConstantExpr w v) to =
     ConstantExpr to (if 0 < w \<and> 2 ^ (w - 1) \<le> v then (v + 2 ^ to - 2 ^ w) mod 2 ^ to
                      else v mod 2 ^ to)"
| "SExtExpr_create e to = (if getWidth e = to then e else SExtExpr e to)"

fun ConcatExpr_create :: "expr \<Rightarrow> expr \<Rightarrow> expr" where
  "ConcatExpr_create (ConstantExpr w v) (ConstantExpr w' v') =
     ConstantExpr (w + w') (v * 2 ^ w' + v')"
| "ConcatExpr_create l r = ConcatExpr l r"

fun ConcatExpr_createN :: "expr list \<Rightarrow> expr" where
  "ConcatExpr_createN [] = ConstantExpr 0 0"
| "ConcatExpr_createN [k] = k"
| "ConcatExpr_createN (k # ks) = ConcatExpr_create k (ConcatExpr_createN ks)"

definition getMinBytesForWidth :: "nat \<Rightarrow> nat" where
  "getMinBytesForWidth w = (w + 7) div 8"


section \<open>Program, memory and execution states\<close>

record InstructionInfo =
  info_file :: string
  info_line :: nat
  info_assemblyLine :: nat

text \<open>
  A \<open>KInstruction\<close> with what the interpreter reads of its LLVM instruction: the
  identity of the instruction, the function it lies in, its operand numbers, and for a
  load, call or invoke whether its type is \<open>void\<close> and the width of the type, the \<open>SExt\<close> return attribute,
  whether the result has users and the normal destination of an invoke.
\<close>

record KInstruction =
  ki_inst :: nat
  ki_info :: InstructionInfo
  ki_dest :: nat
  ki_operands :: "int list"
  ki_function :: nat
  ki_block :: nat
  ki_isPHI :: bool
  ki_isInvoke :: bool
  ki_normalDest :: nat
  ki_typeIsVoid :: bool
  ki_typeWidth :: nat
  ki_retAttrSExt :: bool
  ki_use_empty :: bool

record MemoryObject =
  mo_id :: nat
  mo_address :: nat
  mo_size :: nat
  mo_isLocal :: bool
  mo_isGlobal :: bool
  mo_isHeap :: bool

record ObjectState =
  os_readOnly :: bool
  os_contents :: "expr list"

record AddressSpace =
  objects :: "MemoryObject \<rightharpoonup> ObjectState"
  WriteExploitCapability :: "(expr \<times> expr option) list"

record StackFrame =
  sf_caller :: "nat option"
  sf_kf :: nat
  sf_locals :: "nat \<rightharpoonup> expr"
  sf_allocas :: "MemoryObject list"

record ExecutionState =
  pc :: nat
  prevPC :: nat
  stack :: "StackFrame list"
  incomingBBIndex :: nat
  addressSpace :: AddressSpace
  constraints :: "expr list"
  depth :: nat
  forkDisabled :: bool
  coveredNew :: bool
  coveredLines :: "(string \<times> nat) list"
  pathOS :: string
  symPathOS :: string

type_synonym SeedInfo = "(string \<times> nat list) list"

datatype Validity = SolverTrue | SolverFalse | SolverUnknown

datatype TerminateReason =
    Abort | Assert | BadVectorAccess | Exec | External | Free | Model | Overflow | Ptr
  | ReadOnly | ReportError | User | Unhandled

fun TerminateReasonNames :: "TerminateReason \<Rightarrow> string" where
  "TerminateReasonNames Abort = ''abort''"
| "TerminateReasonNames Assert = ''assert''"
| "TerminateReasonNames BadVectorAccess = ''bad_vector_access''"
| "TerminateReasonNames Exec = ''exec''"
| "TerminateReasonNames External = ''external''"
| "TerminateReasonNames Free = ''free''"
| "TerminateReasonNames Model = ''model''"
| "TerminateReasonNames Overflow = ''overflow''"
| "TerminateReasonNames Ptr = ''ptr''"
| "TerminateReasonNames ReadOnly = ''readonly''"
| "TerminateReasonNames ReportError = ''reporterror''"
| "TerminateReasonNames User = ''user''"
| "TerminateReasonNames Unhandled = ''xxx''"

text \<open>
  What stops the whole engine rather than one state: a failed \<open>assert\<close>,
  \<open>llvm::report_fatal_error\<close>, and the undefined behaviour of reading a state that
  has been deleted or an iterator that is null.
\<close>

datatype error =
    AssertionFailure string
  | FatalError string
  | UseAfterFree
  | NullDereference
  | EmptyStack

text \<open>One call of \<open>interpreterHandler->processTestCase(state, message, suffix)\<close>.\<close>

record TestCase =
  tc_state :: nat
  tc_message :: "string option"
  tc_suffix :: "string option"

text \<open>
  The command-line options and the loaded module, which do not change while the
  interpreter runs. \<open>MaxForks\<close> is an \<open>unsigned\<close>, \<open>~0u\<close> meaning no limit.
\<close>

record Options =
  MaxForks :: nat
  MaxDepth :: nat
  MaxMemoryInhibit :: bool
  OnlyReplaySeeds :: bool
  EmitAllErrors :: bool
  OnlyOutputStatesCoveringNew :: bool
  AlwaysOutputSeeds :: bool
  SimplifySymIndices :: bool
  MaxSymArraySize :: nat
  MakeConcreteSymbolic :: bool
  ExitOnErrorType :: "TerminateReason list"
  replayPath :: "bool list option"
  replayKTest :: bool
  pathWriter :: bool
  symPathWriter :: bool
  coreSolverTimeout :: nat
  pointerWidth :: nat
  n_heap_l :: nat
  n_heap_h :: nat
  internalFunctions :: "nat set"
  legalFunctions :: "nat set"
  kinstAt :: "nat \<Rightarrow> KInstruction"
  constantTable :: "nat \<rightharpoonup> expr"
  basicBlockEntry :: "nat \<Rightarrow> nat \<Rightarrow> nat"
  getBasicBlockIndex :: "nat \<Rightarrow> nat \<Rightarrow> nat"
  instructionsOf :: "nat \<Rightarrow> nat list"
  isDbgInfoIntrinsic :: "nat \<Rightarrow> bool"
  isInlineAsm :: "nat \<Rightarrow> bool"
  getTargetFunction :: "nat \<Rightarrow> nat option"
  bitcastParams :: "nat \<Rightarrow> nat \<Rightarrow> nat list option option"
  paramHasSExt :: "nat \<Rightarrow> nat \<Rightarrow> bool"
  operandName :: "nat \<Rightarrow> string option"
  defaultIsHeap :: bool
  globalAddresses :: "(string \<times> bool \<times> constantExpr) list"

text \<open>
  The engine. States are held by address: \<open>heap\<close> maps the address of every
  \<open>ExecutionState\<close> that has been allocated and not deleted to its contents.
  \<open>states\<close> is the engine's \<open>std::set\<close> in its iteration order. \<open>OnlySeed\<close> is
  the only option the interpreter itself writes. \<open>solverTimeout\<close> is the timeout last
  set on the solver, \<open>0\<close> for none.
\<close>

record Executor =
  heap :: "nat \<rightharpoonup> ExecutionState"
  nextState :: nat
  states :: "nat list"
  addedStates :: "nat list"
  removedStates :: "nat list"
  seedMap :: "nat \<rightharpoonup> SeedInfo list"
  forks :: nat
  theRNG :: nat
  replayPosition :: nat
  atMemoryLimit :: bool
  inhibitForking :: bool
  haltExecution :: bool
  OnlySeed :: bool
  solverTimeout :: nat
  emittedErrors :: "(nat \<times> string) set"
  testCases :: "TestCase list"
  pathsExplored :: nat

text \<open>
  The collaborators whose code is not in the source file are parameters: the solver
  (every query may fail, \<open>None\<close>), the expression optimizer and the constraint
  simplifier, the address-space resolution, the object-state reads and writes, the
  memory manager and the native heap helper, the random number generator, the seed
  operations, the statistics test of \<open>fork\<close>, the printers, and the two
  exploit-generation steps that read the program's binary and the tables of function
  pointers: the constraints added for the recorded write capabilities at an indirect
  call (\<open>exploitConstraints\<close>) and the treatment of one global at a store through a
  symbolic address (\<open>symbolizeGlobal\<close>).
\<close>

record Env =
  solver_evaluate :: "nat \<Rightarrow> expr list \<Rightarrow> expr \<Rightarrow> Validity option"
  solver_getValue :: "nat \<Rightarrow> expr list \<Rightarrow> expr \<Rightarrow> constantExpr option"
  solver_mustBeTrue :: "nat \<Rightarrow> expr list \<Rightarrow> expr \<Rightarrow> bool option"
  solver_mustBeFalse :: "nat \<Rightarrow> expr list \<Rightarrow> expr \<Rightarrow> bool option"
  solver_mayBeTrue :: "nat \<Rightarrow> expr list \<Rightarrow> expr \<Rightarrow> bool option"
  solver_getRange :: "nat \<Rightarrow> expr list \<Rightarrow> expr \<Rightarrow> expr \<times> expr"
  optimizeExpr :: "expr \<Rightarrow> bool \<Rightarrow> expr"
  simplifyExpr :: "expr list \<Rightarrow> expr \<Rightarrow> expr"
  resolveOne :: "nat \<Rightarrow> ExecutionState \<Rightarrow> expr \<Rightarrow> (MemoryObject \<times> ObjectState) option option"
  resolveOneConstant :: "AddressSpace \<Rightarrow> constantExpr \<Rightarrow> (MemoryObject \<times> ObjectState) option"
  resolve :: "nat \<Rightarrow> ExecutionState \<Rightarrow> expr \<Rightarrow> (MemoryObject \<times> ObjectState) list \<times> bool"
  os_read :: "ObjectState \<Rightarrow> expr \<Rightarrow> nat \<Rightarrow> expr"
  os_write :: "ObjectState \<Rightarrow> expr \<Rightarrow> expr \<Rightarrow> ObjectState"
  replaceReadWithSymbolic :: "ExecutionState \<Rightarrow> expr \<Rightarrow> expr"
  allocate :: "nat \<Rightarrow> bool \<Rightarrow> bool \<Rightarrow> nat \<Rightarrow> nat \<Rightarrow> MemoryObject option"
  getInt32 :: "nat \<Rightarrow> nat \<times> nat"
  getBool :: "nat \<Rightarrow> bool \<times> nat"
  seed_evaluate :: "SeedInfo \<Rightarrow> expr \<Rightarrow> expr"
  patchSeed :: "SeedInfo \<Rightarrow> expr list \<Rightarrow> expr \<Rightarrow> SeedInfo"
  staticForkLimit :: "Executor \<Rightarrow> nat \<Rightarrow> bool"
  dumpStack :: "ExecutionState \<Rightarrow> string"
  printExpr :: "expr \<Rightarrow> string"
  printNat :: "nat \<Rightarrow> string"
  describeNeighbours :: "AddressSpace \<Rightarrow> nat \<Rightarrow> string"
  exploitConstraints :: "Executor \<Rightarrow> nat \<Rightarrow> string \<Rightarrow> expr \<Rightarrow> error + Executor"
  symbolizeGlobal :: "Executor \<Rightarrow> nat \<Rightarrow> string \<Rightarrow> constantExpr \<Rightarrow> error + Executor"
  getAllocationAlignment :: "nat \<Rightarrow> error + nat"
  nme_req :: "ExecutionState \<Rightarrow> MemoryObject \<Rightarrow> nat"
  initialObjectState :: "MemoryObject \<Rightarrow> bool \<Rightarrow> ObjectState"

section \<open>Terminating a state\<close>

definition newline :: string where
  "newline = [CHR 0x0A]"

definition tab :: string where
  "tab = [CHR 0x09]"

definition processTestCase :: "Executor \<Rightarrow> nat \<Rightarrow> string option \<Rightarrow> string option \<Rightarrow> Executor" where
  "processTestCase ex sid message suffix =
     ex\<lparr>testCases := testCases ex @
          [\<lparr>tc_state = sid, tc_message = message, tc_suffix = suffix\<rparr>]\<rparr>"

text \<open>
  \<open>Executor::terminateState\<close>. A state that the searcher has seen goes to
  \<open>removedStates\<close>; one that was added in this step is deleted at once.
\<close>

definition terminateState :: "Executor \<Rightarrow> nat \<Rightarrow> error + Executor" where
  "terminateState ex sid =
     (let ex1 = ex\<lparr>pathsExplored := Suc (pathsExplored ex)\<rparr> in
      if sid \<notin> set (addedStates ex1) then
        (case heap ex1 sid of
           None \<Rightarrow> Inl UseAfterFree
         | Some st \<Rightarrow>
             Inr (ex1\<lparr>heap := (heap ex1)(sid \<mapsto> st\<lparr>pc := prevPC st\<rparr>),
                      removedStates := removedStates ex1 @ [sid]\<rparr>))
      else
        Inr (ex1\<lparr>seedMap := (seedMap ex1)(sid := None),
                 addedStates := remove1 sid (addedStates ex1),
                 heap := (heap ex1)(sid := None)\<rparr>))"

definition outputsTestCase :: "Options \<Rightarrow> Executor \<Rightarrow> nat \<Rightarrow> ExecutionState \<Rightarrow> bool" where
  "outputsTestCase opts ex sid st =
     (\<not> OnlyOutputStatesCoveringNew opts \<or> coveredNew st \<or>
      (AlwaysOutputSeeds opts \<and> seedMap ex sid \<noteq> None))"

definition terminateStateEarly :: "Options \<Rightarrow> Executor \<Rightarrow> nat \<Rightarrow> string \<Rightarrow> error + Executor" where
  "terminateStateEarly opts ex sid message =
     (case heap ex sid of
        None \<Rightarrow> Inl UseAfterFree
      | Some st \<Rightarrow>
          terminateState
            (if outputsTestCase opts ex sid st
             then processTestCase ex sid (Some (message @ newline)) (Some ''early'')
             else ex) sid)"

definition terminateStateOnExit :: "Options \<Rightarrow> Executor \<Rightarrow> nat \<Rightarrow> error + Executor" where
  "terminateStateOnExit opts ex sid =
     (case heap ex sid of
        None \<Rightarrow> Inl UseAfterFree
      | Some st \<Rightarrow>
          terminateState
            (if outputsTestCase opts ex sid st then processTestCase ex sid None None else ex)
            sid)"

text \<open>
  The loop of \<open>getLastNonKleeInternalInstruction\<close> over the frames from the top of the
  stack down to, but not including, the outermost one.
\<close>

fun windUpStack ::
  "Options \<Rightarrow> StackFrame list \<Rightarrow> (InstructionInfo \<times> nat) option
     \<Rightarrow> error + (InstructionInfo \<times> nat) option" where
  "windUpStack opts [] ii = Inr ii"
| "windUpStack opts (f # fs) ii =
     (case sf_caller f of
        None \<Rightarrow> Inl NullDereference
      | Some c \<Rightarrow>
          if ki_function (kinstAt opts c) \<in> internalFunctions opts
          then windUpStack opts fs None
          else windUpStack opts fs
                 (case ii of
                    None \<Rightarrow> Some (ki_info (kinstAt opts c), ki_inst (kinstAt opts c))
                  | Some x \<Rightarrow> Some x))"

definition getLastNonKleeInternalInstruction ::
  "Options \<Rightarrow> ExecutionState \<Rightarrow> error + (InstructionInfo \<times> nat)" where
  "getLastNonKleeInternalInstruction opts st =
     (case rev (stack st) of
        [] \<Rightarrow> Inl EmptyStack
      | fr # below \<Rightarrow>
          (case windUpStack opts (butlast (fr # below))
                  (if sf_kf fr \<notin> internalFunctions opts
                   then Some (ki_info (kinstAt opts (prevPC st)), ki_inst (kinstAt opts (prevPC st)))
                   else None) of
             Inl e \<Rightarrow> Inl e
           | Inr None \<Rightarrow>
               Inr (ki_info (kinstAt opts (prevPC st)), ki_inst (kinstAt opts (prevPC st)))
           | Inr (Some ii) \<Rightarrow> Inr ii))"

definition shouldExitOn :: "Options \<Rightarrow> TerminateReason \<Rightarrow> bool" where
  "shouldExitOn opts termReason = (termReason \<in> set (ExitOnErrorType opts))"

definition errorMessage ::
  "Env \<Rightarrow> ExecutionState \<Rightarrow> InstructionInfo \<Rightarrow> string \<Rightarrow> string \<Rightarrow> string" where
  "errorMessage env st ii message info =
     ''Error: '' @ message @ newline @
     (if info_file ii \<noteq> []
      then ''File: '' @ info_file ii @ newline @
           ''Line: '' @ printNat env (info_line ii) @ newline @
           ''assembly.ll line: '' @ printNat env (info_assemblyLine ii) @ newline
      else []) @
     ''Stack: '' @ newline @ dumpStack env st @
     (if info \<noteq> [] then ''Info: '' @ newline @ info else [])"

definition terminateStateOnError ::
  "Env \<Rightarrow> Options \<Rightarrow> Executor \<Rightarrow> nat \<Rightarrow> string \<Rightarrow> TerminateReason \<Rightarrow> string option \<Rightarrow> string
     \<Rightarrow> error + Executor" where
  "terminateStateOnError env opts ex sid message termReason suffix info =
     (case heap ex sid of
        None \<Rightarrow> Inl UseAfterFree
      | Some st \<Rightarrow>
          (case getLastNonKleeInternalInstruction opts st of
             Inl e \<Rightarrow> Inl e
           | Inr (ii, lastInst) \<Rightarrow>
               (let emit = (EmitAllErrors opts \<or> (lastInst, message) \<notin> emittedErrors ex);
                    ex1 = (if EmitAllErrors opts then ex
                           else ex\<lparr>emittedErrors := insert (lastInst, message) (emittedErrors ex)\<rparr>);
                    ex2 = (if emit
                           then processTestCase ex1 sid
                                  (Some (errorMessage env st ii message info))
                                  (Some (case suffix of
                                           None \<Rightarrow> TerminateReasonNames termReason @ ''.err''
                                         | Some s \<Rightarrow> s))
                           else ex1)
                in case terminateState ex2 sid of
                     Inl e \<Rightarrow> Inl e
                   | Inr ex3 \<Rightarrow>
                       Inr (if shouldExitOn opts termReason
                            then ex3\<lparr>haltExecution := True\<rparr> else ex3))))"

text \<open>
  Modelled from the spec: \<open>terminateStateOnExecError\<close> is declared in the header, which
  is not part of the source file. Every error path goes through
  \<open>terminateStateOnError\<close>; this one passes the execution-error reason and no suffix.
\<close>

definition terminateStateOnExecError ::
  "Env \<Rightarrow> Options \<Rightarrow> Executor \<Rightarrow> nat \<Rightarrow> string \<Rightarrow> error + Executor" where
  "terminateStateOnExecError env opts ex sid message =
     terminateStateOnError env opts ex sid message Exec None []"

section \<open>Constraints and concretization\<close>

text \<open>
  Modelled from the spec: \<open>ExecutionState::addConstraint\<close> is not part of the source
  file. The constraint store is a conjunction of Boolean expressions assumed true along
  the path; adding a constraint appends it.
\<close>

definition ExecutionState_addConstraint :: "ExecutionState \<Rightarrow> expr \<Rightarrow> ExecutionState" where
  "ExecutionState_addConstraint st e = st\<lparr>constraints := constraints st @ [e]\<rparr>"

definition unhandledSolverFailure :: error where
  "unhandledSolverFailure = AssertionFailure ''FIXME: Unhandled solver failure''"

text \<open>The loop of \<open>addConstraint\<close> over the seeds of the state.\<close>

fun patchSeeds ::
  "Env \<Rightarrow> nat \<Rightarrow> expr list \<Rightarrow> expr \<Rightarrow> SeedInfo list \<Rightarrow> error + SeedInfo list" where
  "patchSeeds env t cs condition [] = Inr []"
| "patchSeeds env t cs condition (s # ss) =
     (case solver_mustBeFalse env t cs (seed_evaluate env s condition) of
        None \<Rightarrow> Inl unhandledSolverFailure
      | Some res \<Rightarrow>
          (case patchSeeds env t cs condition ss of
             Inl e \<Rightarrow> Inl e
           | Inr ss' \<Rightarrow> Inr ((if res then patchSeed env s cs condition else s) # ss')))"

text \<open>
  \<open>Executor::addConstraint\<close>. The member \<open>ivcEnabled\<close> is set to \<open>false\<close> by the
  constructor and written nowhere else, so the implied-value step never runs.
\<close>

definition addConstraint :: "Env \<Rightarrow> Executor \<Rightarrow> nat \<Rightarrow> expr \<Rightarrow> error + Executor" where
  "addConstraint env ex sid condition =
     (if isConstant condition then
        (if \<not> isTrue condition then Inl (FatalError ''attempt to add invalid constraint'')
         else Inr ex)
      else
        (case heap ex sid of
           None \<Rightarrow> Inl UseAfterFree
         | Some st \<Rightarrow>
             (case (case seedMap ex sid of
                      None \<Rightarrow> Inr ex
                    | Some seeds \<Rightarrow>
                        (case patchSeeds env (solverTimeout ex) (constraints st) condition seeds of
                           Inl e \<Rightarrow> Inl e
                         | Inr seeds' \<Rightarrow> Inr (ex\<lparr>seedMap := (seedMap ex)(sid \<mapsto> seeds')\<rparr>))) of
                Inl e \<Rightarrow> Inl e
              | Inr ex1 \<Rightarrow>
                  Inr (ex1\<lparr>heap := (heap ex1)(sid \<mapsto> ExecutionState_addConstraint st condition)\<rparr>))))"

text \<open>\<open>Executor::bindLocal\<close>: the destination cell in the top frame of the stack.\<close>

definition bindLocal :: "Executor \<Rightarrow> KInstruction \<Rightarrow> nat \<Rightarrow> expr \<Rightarrow> error + Executor" where
  "bindLocal ex target sid v =
     (case heap ex sid of
        None \<Rightarrow> Inl UseAfterFree
      | Some st \<Rightarrow>
          (if stack st = [] then Inl EmptyStack
           else Inr (ex\<lparr>heap := (heap ex)(sid \<mapsto>
                  st\<lparr>stack := butlast (stack st) @
                       [(last (stack st))\<lparr>sf_locals :=
                          (sf_locals (last (stack st)))(ki_dest target \<mapsto> v)\<rparr>]\<rparr>)\<rparr>)))"

text \<open>
  \<open>Executor::toUnique\<close>. A failed query is not an error here: the expression is
  returned as it came.
\<close>

definition toUnique :: "Env \<Rightarrow> Options \<Rightarrow> Executor \<Rightarrow> ExecutionState \<Rightarrow> expr \<Rightarrow> expr \<times> Executor" where
  "toUnique env opts ex st e =
     (if \<not> isConstant e then
        (let e' = optimizeExpr env e True in
         ((case solver_getValue env (coreSolverTimeout opts) (constraints st) e' of
             None \<Rightarrow> e
           | Some v \<Rightarrow>
               (case solver_mustBeTrue env (coreSolverTimeout opts) (constraints st)
                       (optimizeExpr env (EqExpr_create e' (toExpr v)) False) of
                  Some True \<Rightarrow> toExpr v
                | _ \<Rightarrow> e)),
          ex\<lparr>solverTimeout := 0\<rparr>))
      else (e, ex))"

text \<open>\<open>Executor::toConstant\<close>.\<close>

definition toConstant :: "Env \<Rightarrow> Executor \<Rightarrow> nat \<Rightarrow> expr \<Rightarrow> error + (constantExpr \<times> Executor)" where
  "toConstant env ex sid e =
     (case heap ex sid of
        None \<Rightarrow> Inl UseAfterFree
      | Some st \<Rightarrow>
          (case simplifyExpr env (constraints st) e of
             ConstantExpr w v \<Rightarrow> Inr (CE w v, ex)
           | e' \<Rightarrow>
               (case solver_getValue env (solverTimeout ex) (constraints st) e' of
                  None \<Rightarrow> Inl unhandledSolverFailure
                | Some v \<Rightarrow>
                    (case addConstraint env ex sid (EqExpr_create e' (toExpr v)) of
                       Inl err \<Rightarrow> Inl err
                     | Inr ex' \<Rightarrow> Inr (v, ex')))))"

text \<open>\<open>Executor::getAddressInfo\<close>.\<close>

definition getAddressInfo :: "Env \<Rightarrow> Executor \<Rightarrow> ExecutionState \<Rightarrow> expr \<Rightarrow> error + string" where
  "getAddressInfo env ex st address =
     (case (case address of
              ConstantExpr w v \<Rightarrow> Inr (v, [])
            | _ \<Rightarrow>
                (case solver_getValue env (solverTimeout ex) (constraints st) address of
                   None \<Rightarrow> Inl unhandledSolverFailure
                 | Some v \<Rightarrow>
                     Inr (getZExtValue v,
                          tab @ ''example: '' @ printNat env (getZExtValue v) @ newline @
                          tab @ ''range: ['' @
                          printExpr env (fst (solver_getRange env (solverTimeout ex) (constraints st) address)) @
                          '', '' @
                          printExpr env (snd (solver_getRange env (solverTimeout ex) (constraints st) address)) @
                          '']'' @ newline))) of
        Inl e \<Rightarrow> Inl e
      | Inr (example, txt) \<Rightarrow>
          Inr (tab @ ''address: '' @ printExpr env address @ newline @ txt @
               describeNeighbours env (addressSpace st) (example mod 2 ^ 32)))"

section \<open>Forking\<close>

text \<open>
  Modelled from the spec: \<open>ExecutionState::branch\<close> is not part of the source file.
  A fork clones the current state; both states are one level deeper, and the clone starts
  with no coverage of its own.
\<close>

definition ExecutionState_branch :: "ExecutionState \<Rightarrow> ExecutionState \<times> ExecutionState" where
  "ExecutionState_branch st =
     (st\<lparr>depth := Suc (depth st)\<rparr>,
      st\<lparr>depth := Suc (depth st), coveredNew := False, coveredLines := []\<rparr>)"

text \<open>\<open>MaxForks != ~0u && stats::forks >= MaxForks\<close>.\<close>

definition maxForksReached :: "Options \<Rightarrow> Executor \<Rightarrow> bool" where
  "maxForksReached opts ex = (MaxForks opts \<noteq> 4294967295 \<and> MaxForks opts \<le> forks ex)"

text \<open>
  The first block of \<open>fork\<close>: when the state is not seeding, the condition is not a
  constant and the static fork and solver limits are exceeded, the condition is replaced
  by one of its values.
\<close>

definition fork_static ::
  "Env \<Rightarrow> Executor \<Rightarrow> nat \<Rightarrow> expr \<Rightarrow> error + (expr \<times> Executor)" where
  "fork_static env ex current condition =
     (if seedMap ex current = None \<and> \<not> isConstant condition \<and> staticForkLimit env ex current then
        (case heap ex current of
           None \<Rightarrow> Inl UseAfterFree
         | Some st \<Rightarrow>
             (case solver_getValue env (solverTimeout ex) (constraints st) condition of
                None \<Rightarrow> Inl unhandledSolverFailure
              | Some v \<Rightarrow>
                  (case addConstraint env ex current (EqExpr_create (toExpr v) condition) of
                     Inl e \<Rightarrow> Inl e
                   | Inr ex' \<Rightarrow> Inr (toExpr v, ex'))))
      else Inr (condition, ex))"

text \<open>
  The second block: a state that is not seeding follows the recorded path in replay
  mode, and otherwise, when the validity is unknown and forking is inhibited, takes the
  side the random number generator picks.
\<close>

definition fork_constrain ::
  "Env \<Rightarrow> Executor \<Rightarrow> nat \<Rightarrow> expr \<Rightarrow> bool \<Rightarrow> error + (Validity \<times> Executor)" where
  "fork_constrain env ex current condition side =
     (case addConstraint env ex current (if side then condition else createIsZero condition) of
        Inl e \<Rightarrow> Inl e
      | Inr ex' \<Rightarrow> Inr (if side then SolverTrue else SolverFalse, ex'))"

definition forkInhibited :: "Options \<Rightarrow> Executor \<Rightarrow> ExecutionState \<Rightarrow> bool" where
  "forkInhibited opts ex st =
     ((MaxMemoryInhibit opts \<and> atMemoryLimit ex) \<or> forkDisabled st \<or> inhibitForking ex \<or>
      maxForksReached opts ex)"

definition fork_decide ::
  "Env \<Rightarrow> Options \<Rightarrow> Executor \<Rightarrow> nat \<Rightarrow> expr \<Rightarrow> bool \<Rightarrow> Validity \<Rightarrow> error + (Validity \<times> Executor)" where
  "fork_decide env opts ex current condition isInternal res =
     (if seedMap ex current = None then
        (if replayPath opts \<noteq> None \<and> \<not> isInternal then
           (case replayPath opts of
              None \<Rightarrow> Inr (res, ex)
            | Some path \<Rightarrow>
                if \<not> replayPosition ex < length path
                then Inl (AssertionFailure ''ran out of branches in replay path mode'')
                else
                  (let branch = path ! replayPosition ex;
                       ex1 = ex\<lparr>replayPosition := Suc (replayPosition ex)\<rparr>
                   in case res of
                        SolverTrue \<Rightarrow>
                          if branch then Inr (res, ex1)
                          else Inl (AssertionFailure ''hit invalid branch in replay path mode'')
                      | SolverFalse \<Rightarrow>
                          if \<not> branch then Inr (res, ex1)
                          else Inl (AssertionFailure ''hit invalid branch in replay path mode'')
                      | SolverUnknown \<Rightarrow> fork_constrain env ex1 current condition branch))
         else if res = SolverUnknown then
           (if replayKTest opts
            then Inl (AssertionFailure ''in replay mode, only one branch can be true.'')
            else
              (case heap ex current of
                 None \<Rightarrow> Inl UseAfterFree
               | Some st \<Rightarrow>
                   if forkInhibited opts ex st then
                     fork_constrain env (ex\<lparr>theRNG := snd (getBool env (theRNG ex))\<rparr>) current
                       condition (fst (getBool env (theRNG ex)))
                   else Inr (res, ex)))
         else Inr (res, ex))
      else Inr (res, ex))"

text \<open>
  The loop that looks for a seed on the true side and a seed on the false side, leaving
  as soon as both are found.
\<close>

fun seedSides ::
  "Env \<Rightarrow> nat \<Rightarrow> expr list \<Rightarrow> expr \<Rightarrow> SeedInfo list \<Rightarrow> bool \<Rightarrow> bool \<Rightarrow> error + (bool \<times> bool)" where
  "seedSides env t cs condition [] trueSeed falseSeed = Inr (trueSeed, falseSeed)"
| "seedSides env t cs condition (s # ss) trueSeed falseSeed =
     (case solver_getValue env t cs (seed_evaluate env s condition) of
        None \<Rightarrow> Inl unhandledSolverFailure
      | Some res \<Rightarrow>
          (let trueSeed' = (trueSeed \<or> isTrue (toExpr res));
               falseSeed' = (falseSeed \<or> \<not> isTrue (toExpr res))
           in if trueSeed' \<and> falseSeed' then Inr (trueSeed', falseSeed')
              else seedSides env t cs condition ss trueSeed' falseSeed'))"

text \<open>
  The third block: a seeding state that may not fork takes the side of its seeds when
  they all lie on one side.
\<close>

definition fork_seedFix ::
  "Env \<Rightarrow> Options \<Rightarrow> Executor \<Rightarrow> nat \<Rightarrow> expr \<Rightarrow> Validity \<Rightarrow> error + (Validity \<times> Executor)" where
  "fork_seedFix env opts ex current condition res =
     (case seedMap ex current of
        None \<Rightarrow> Inr (res, ex)
      | Some seeds \<Rightarrow>
          (case heap ex current of
             None \<Rightarrow> Inl UseAfterFree
           | Some st \<Rightarrow>
               if (forkDisabled st \<or> OnlyReplaySeeds opts) \<and> res = SolverUnknown then
                 (case seedSides env (solverTimeout ex) (constraints st) condition seeds False False of
                    Inl e \<Rightarrow> Inl e
                  | Inr (trueSeed, falseSeed) \<Rightarrow>
                      if \<not> (trueSeed \<and> falseSeed) then
                        (if \<not> (trueSeed \<or> falseSeed)
                         then Inl (AssertionFailure ''trueSeed || falseSeed'')
                         else fork_constrain env ex current condition trueSeed)
                      else Inr (res, ex))
               else Inr (res, ex)))"

text \<open>The loop that hands each seed to the side it satisfies.\<close>

fun splitSeeds ::
  "Env \<Rightarrow> nat \<Rightarrow> expr list \<Rightarrow> expr \<Rightarrow> SeedInfo list \<Rightarrow> error + (SeedInfo list \<times> SeedInfo list)" where
  "splitSeeds env t cs condition [] = Inr ([], [])"
| "splitSeeds env t cs condition (s # ss) =
     (case solver_getValue env t cs (seed_evaluate env s condition) of
        None \<Rightarrow> Inl unhandledSolverFailure
      | Some res \<Rightarrow>
          (case splitSeeds env t cs condition ss of
             Inl e \<Rightarrow> Inl e
           | Inr (trueSeeds, falseSeeds) \<Rightarrow>
               if isTrue (toExpr res) then Inr (s # trueSeeds, falseSeeds)
               else Inr (trueSeeds, s # falseSeeds)))"

text \<open>
  The seed bookkeeping of a real fork. The current state is the true state, so an empty
  list of true seeds swaps the coverage information of the two states.
\<close>

definition fork_seeds ::
  "Env \<Rightarrow> Executor \<Rightarrow> nat \<Rightarrow> nat \<Rightarrow> expr \<Rightarrow> ExecutionState \<Rightarrow> ExecutionState
     \<Rightarrow> error + (ExecutionState \<times> ExecutionState \<times> Executor)" where
  "fork_seeds env ex trueState falseState condition tst fst' =
     (case seedMap ex trueState of
        None \<Rightarrow> Inr (tst, fst', ex)
      | Some seeds \<Rightarrow>
          (case splitSeeds env (solverTimeout ex) (constraints tst) condition seeds of
             Inl e \<Rightarrow> Inl e
           | Inr (trueSeeds, falseSeeds) \<Rightarrow>
               Inr (if trueSeeds = []
                    then tst\<lparr>coveredNew := coveredNew fst', coveredLines := coveredLines fst'\<rparr>
                    else tst,
                    if trueSeeds = []
                    then fst'\<lparr>coveredNew := coveredNew tst, coveredLines := coveredLines tst\<rparr>
                    else fst',
                    ex\<lparr>seedMap := (seedMap ex)
                         (trueState := (if trueSeeds = [] then None else Some trueSeeds),
                          falseState := (if falseSeeds = [] then None else Some falseSeeds))\<rparr>)))"

text \<open>
  The path writers of a real fork: the false state gets streams of its own that continue
  those of the current state, and a fork that is not internal records its side in both.
\<close>

definition fork_paths ::
  "Options \<Rightarrow> bool \<Rightarrow> ExecutionState \<Rightarrow> ExecutionState \<Rightarrow> ExecutionState \<times> ExecutionState" where
  "fork_paths opts isInternal tst fst' =
     (let tst1 = (if pathWriter opts \<and> \<not> isInternal
                  then tst\<lparr>pathOS := pathOS tst @ [CHR 0x31]\<rparr> else tst);
          fst1 = (if pathWriter opts \<and> \<not> isInternal
                  then fst'\<lparr>pathOS := pathOS tst @ [CHR 0x30]\<rparr>
                  else if pathWriter opts then fst'\<lparr>pathOS := pathOS tst\<rparr>
                  else fst')
      in (if symPathWriter opts \<and> \<not> isInternal
          then tst1\<lparr>symPathOS := symPathOS tst1 @ [CHR 0x31]\<rparr> else tst1,
          if symPathWriter opts \<and> \<not> isInternal
          then fst1\<lparr>symPathOS := symPathOS tst1 @ [CHR 0x30]\<rparr>
          else if symPathWriter opts then fst1\<lparr>symPathOS := symPathOS tst1\<rparr>
          else fst1))"

text \<open>
  The end of a real fork: the condition is added to the true state, its negation to the
  false state, and both states are terminated when the depth limit is reached.
\<close>

definition fork_both ::
  "Env \<Rightarrow> Options \<Rightarrow> Executor \<Rightarrow> nat \<Rightarrow> nat \<Rightarrow> expr
     \<Rightarrow> error + ((nat option \<times> nat option) \<times> Executor)" where
  "fork_both env opts ex trueState falseState condition =
     (case addConstraint env ex trueState condition of
        Inl e \<Rightarrow> Inl e
      | Inr ex4 \<Rightarrow>
          (case addConstraint env ex4 falseState (createIsZero condition) of
             Inl e \<Rightarrow> Inl e
           | Inr ex5 \<Rightarrow>
               (case heap ex5 trueState of
                  None \<Rightarrow> Inl UseAfterFree
                | Some tst \<Rightarrow>
                    if MaxDepth opts \<noteq> 0 \<and> MaxDepth opts \<le> depth tst then
                      (case terminateStateEarly opts ex5 trueState ''max-depth exceeded.'' of
                         Inl e \<Rightarrow> Inl e
                       | Inr ex6 \<Rightarrow>
                           (case terminateStateEarly opts ex6 falseState ''max-depth exceeded.'' of
                              Inl e \<Rightarrow> Inl e
                            | Inr ex7 \<Rightarrow> Inr ((None, None), ex7)))
                    else Inr ((Some trueState, Some falseState), ex5))))"

text \<open>
  The last block: one state on a decided condition, two states on an undecided one. The
  new state is allocated at the next free address.
\<close>

definition fork_split ::
  "Env \<Rightarrow> Options \<Rightarrow> Executor \<Rightarrow> nat \<Rightarrow> expr \<Rightarrow> bool \<Rightarrow> Validity
     \<Rightarrow> error + ((nat option \<times> nat option) \<times> Executor)" where
  "fork_split env opts ex current condition isInternal res =
     (case heap ex current of
        None \<Rightarrow> Inl UseAfterFree
      | Some st \<Rightarrow>
          (case res of
             SolverTrue \<Rightarrow>
               Inr ((Some current, None),
                    if \<not> isInternal \<and> pathWriter opts
                    then ex\<lparr>heap := (heap ex)(current \<mapsto> st\<lparr>pathOS := pathOS st @ [CHR 0x31]\<rparr>)\<rparr>
                    else ex)
           | SolverFalse \<Rightarrow>
               Inr ((None, Some current),
                    if \<not> isInternal \<and> pathWriter opts
                    then ex\<lparr>heap := (heap ex)(current \<mapsto> st\<lparr>pathOS := pathOS st @ [CHR 0x30]\<rparr>)\<rparr>
                    else ex)
           | SolverUnknown \<Rightarrow>
               (case fork_seeds env
                       (ex\<lparr>forks := Suc (forks ex), nextState := Suc (nextState ex),
                           addedStates := addedStates ex @ [nextState ex]\<rparr>)
                       current (nextState ex) condition
                       (fst (ExecutionState_branch st)) (snd (ExecutionState_branch st)) of
                  Inl e \<Rightarrow> Inl e
                | Inr (tst, fst', ex2) \<Rightarrow>
                    fork_both env opts
                      (ex2\<lparr>heap := (heap ex2)
                            (current \<mapsto> fst (fork_paths opts isInternal tst fst'),
                             nextState ex \<mapsto> snd (fork_paths opts isInternal tst fst'))\<rparr>)
                      current (nextState ex) condition)))"

text \<open>\<open>Executor::fork\<close>.\<close>

definition fork ::
  "Env \<Rightarrow> Options \<Rightarrow> Executor \<Rightarrow> nat \<Rightarrow> expr \<Rightarrow> bool
     \<Rightarrow> error + ((nat option \<times> nat option) \<times> Executor)" where
  "fork env opts ex current condition isInternal =
     (case fork_static env ex current condition of
        Inl e \<Rightarrow> Inl e
      | Inr (condition', ex1) \<Rightarrow>
          (case heap ex1 current of
             None \<Rightarrow> Inl UseAfterFree
           | Some st \<Rightarrow>
               (case solver_evaluate env
                       (case seedMap ex1 current of
                          None \<Rightarrow> coreSolverTimeout opts
                        | Some seeds \<Rightarrow> coreSolverTimeout opts * length seeds)
                       (constraints st) condition' of
                  None \<Rightarrow>
                    (case terminateStateEarly opts
                            (ex1\<lparr>solverTimeout := 0,
                                 heap := (heap ex1)(current \<mapsto> st\<lparr>pc := prevPC st\<rparr>)\<rparr>)
                            current ''Query timed out (fork).'' of
                       Inl e \<Rightarrow> Inl e
                     | Inr ex2 \<Rightarrow> Inr ((None, None), ex2))
                | Some res \<Rightarrow>
                    (case fork_decide env opts (ex1\<lparr>solverTimeout := 0\<rparr>) current condition'
                            isInternal res of
                       Inl e \<Rightarrow> Inl e
                     | Inr (res1, ex2) \<Rightarrow>
                         (case fork_seedFix env opts ex2 current condition' res1 of
                            Inl e \<Rightarrow> Inl e
                          | Inr (res2, ex3) \<Rightarrow>
                              fork_split env opts ex3 current condition' isInternal res2)))))"

text \<open>
  \<open>Executor::branch\<close>, the fork over several conditions. First the loop that clones a
  randomly chosen earlier result for each further condition.
\<close>

fun branch_fork :: "Env \<Rightarrow> nat \<Rightarrow> Executor \<Rightarrow> nat list \<Rightarrow> error + (nat list \<times> Executor)" where
  "branch_fork env 0 ex result = Inr (result, ex)"
| "branch_fork env (Suc k) ex result =
     (case result of
        [] \<Rightarrow> Inl NullDereference
      | r # rs \<Rightarrow>
          (case heap ex (result ! (fst (getInt32 env (theRNG ex)) mod length result)) of
             None \<Rightarrow> Inl UseAfterFree
           | Some st \<Rightarrow>
               branch_fork env k
                 (ex\<lparr>theRNG := snd (getInt32 env (theRNG ex)),
                     nextState := Suc (nextState ex),
                     addedStates := addedStates ex @ [nextState ex],
                     heap := (heap ex)
                       (result ! (fst (getInt32 env (theRNG ex)) mod length result)
                          \<mapsto> fst (ExecutionState_branch st),
                        nextState ex \<mapsto> snd (ExecutionState_branch st))\<rparr>)
                 (result @ [nextState ex])))"

text \<open>The index of the first condition a seed satisfies, or the number of conditions.\<close>

fun seedIndex :: "Env \<Rightarrow> nat \<Rightarrow> expr list \<Rightarrow> SeedInfo \<Rightarrow> expr list \<Rightarrow> nat \<Rightarrow> error + nat" where
  "seedIndex env t cs s [] i = Inr i"
| "seedIndex env t cs s (c # conds) i =
     (case solver_getValue env t cs (seed_evaluate env s c) of
        None \<Rightarrow> Inl unhandledSolverFailure
      | Some res \<Rightarrow>
          if isTrue (toExpr res) then Inr i else seedIndex env t cs s conds (Suc i))"

fun branch_seeds ::
  "Env \<Rightarrow> Executor \<Rightarrow> expr list \<Rightarrow> expr list \<Rightarrow> nat option list \<Rightarrow> SeedInfo list
     \<Rightarrow> error + Executor" where
  "branch_seeds env ex cs conditions result [] = Inr ex"
| "branch_seeds env ex cs conditions result (s # ss) =
     (case seedIndex env (solverTimeout ex) cs s conditions 0 of
        Inl e \<Rightarrow> Inl e
      | Inr i \<Rightarrow>
          (let i' = (if i = length conditions
                     then fst (getInt32 env (theRNG ex)) mod length conditions else i);
               ex1 = (if i = length conditions
                      then ex\<lparr>theRNG := snd (getInt32 env (theRNG ex))\<rparr> else ex)
           in branch_seeds env
                (case result ! i' of
                   None \<Rightarrow> ex1
                 | Some r \<Rightarrow>
                     ex1\<lparr>seedMap := (seedMap ex1)
                       (r \<mapsto> (case seedMap ex1 r of None \<Rightarrow> [] | Some l \<Rightarrow> l) @ [s])\<rparr>)
                cs conditions result ss))"

fun branch_kill :: "Executor \<Rightarrow> nat option list \<Rightarrow> error + (nat option list \<times> Executor)" where
  "branch_kill ex [] = Inr ([], ex)"
| "branch_kill ex (None # rs) =
     (case branch_kill ex rs of
        Inl e \<Rightarrow> Inl e
      | Inr (rs', ex') \<Rightarrow> Inr (None # rs', ex'))"
| "branch_kill ex (Some r # rs) =
     (if seedMap ex r = None then
        (case terminateState ex r of
           Inl e \<Rightarrow> Inl e
         | Inr ex1 \<Rightarrow>
             (case branch_kill ex1 rs of
                Inl e \<Rightarrow> Inl e
              | Inr (rs', ex') \<Rightarrow> Inr (None # rs', ex')))
      else
        (case branch_kill ex rs of
           Inl e \<Rightarrow> Inl e
         | Inr (rs', ex') \<Rightarrow> Inr (Some r # rs', ex')))"

fun branch_constrain :: "Env \<Rightarrow> Executor \<Rightarrow> nat option list \<Rightarrow> expr list \<Rightarrow> error + Executor" where
  "branch_constrain env ex (None # rs) (c # conds) = branch_constrain env ex rs conds"
| "branch_constrain env ex (Some r # rs) (c # conds) =
     (case addConstraint env ex r c of
        Inl e \<Rightarrow> Inl e
      | Inr ex1 \<Rightarrow> branch_constrain env ex1 rs conds)"
| "branch_constrain env ex rs conds = Inr ex"

definition branch ::
  "Env \<Rightarrow> Options \<Rightarrow> Executor \<Rightarrow> nat \<Rightarrow> expr list \<Rightarrow> error + (nat option list \<times> Executor)" where
  "branch env opts ex state conditions =
     (if conditions = [] then Inl (AssertionFailure ''N'')
      else
        (case (if maxForksReached opts ex then
                 Inr (map (\<lambda>i. if i = fst (getInt32 env (theRNG ex)) mod length conditions
                                then Some state else None) [0..<length conditions],
                      ex\<lparr>theRNG := snd (getInt32 env (theRNG ex))\<rparr>)
               else
                 (case branch_fork env (length conditions - 1)
                         (ex\<lparr>forks := forks ex + (length conditions - 1)\<rparr>) [state] of
                    Inl e \<Rightarrow> Inl e
                  | Inr (res, ex1) \<Rightarrow> Inr (map Some res, ex1))) of
           Inl e \<Rightarrow> Inl e
         | Inr (result, ex1) \<Rightarrow>
             (case (case seedMap ex1 state of
                      None \<Rightarrow> Inr (result, ex1)
                    | Some seeds \<Rightarrow>
                        (case heap ex1 state of
                           None \<Rightarrow> Inl UseAfterFree
                         | Some st \<Rightarrow>
                             (case branch_seeds env (ex1\<lparr>seedMap := (seedMap ex1)(state := None)\<rparr>)
                                     (constraints st) conditions result seeds of
                                Inl e \<Rightarrow> Inl e
                              | Inr ex2 \<Rightarrow>
                                  if OnlyReplaySeeds opts then branch_kill ex2 result
                                  else Inr (result, ex2)))) of
                Inl e \<Rightarrow> Inl e
              | Inr (result', ex3) \<Rightarrow>
                  (case branch_constrain env ex3 result' conditions of
                     Inl e \<Rightarrow> Inl e
                   | Inr ex4 \<Rightarrow> Inr (result', ex4)))))"

section \<open>Memory operations\<close>

text \<open>
  Modelled from the spec: the methods of \<open>MemoryObject\<close> are declared in a header
  that is not part of the source file. The offset of a pointer into an object is the
  pointer minus the base, and an access of \<open>bytes\<close> bytes at an offset is in bounds when
  \<open>offset + bytes \<le> size\<close>.
\<close>

definition getBaseExpr :: "Options \<Rightarrow> MemoryObject \<Rightarrow> expr" where
  "getBaseExpr opts mo = ConstantExpr (pointerWidth opts) (mo_address mo)"

definition getOffsetExpr :: "Options \<Rightarrow> MemoryObject \<Rightarrow> expr \<Rightarrow> expr" where
  "getOffsetExpr opts mo pointer = SubExpr_create pointer (getBaseExpr opts mo)"

definition getBoundsCheckOffset :: "Options \<Rightarrow> MemoryObject \<Rightarrow> expr \<Rightarrow> nat \<Rightarrow> expr" where
  "getBoundsCheckOffset opts mo offset bytes =
     (if bytes \<le> mo_size mo
      then UltExpr_create offset (ConstantExpr (pointerWidth opts) (mo_size mo - bytes + 1))
      else ConstantExpr 1 0)"

definition getBoundsCheckPointer :: "Options \<Rightarrow> MemoryObject \<Rightarrow> expr \<Rightarrow> nat \<Rightarrow> expr" where
  "getBoundsCheckPointer opts mo pointer bytes =
     getBoundsCheckOffset opts mo (getOffsetExpr opts mo pointer) bytes"

text \<open>
  A write through the copy-on-write handle: the object state that results from the
  write is bound to the object in the address space of that state alone.
\<close>

definition writeObject ::
  "Env \<Rightarrow> Executor \<Rightarrow> nat \<Rightarrow> MemoryObject \<Rightarrow> ObjectState \<Rightarrow> expr \<Rightarrow> expr \<Rightarrow> error + Executor" where
  "writeObject env ex sid mo os offset v =
     (case heap ex sid of
        None \<Rightarrow> Inl UseAfterFree
      | Some st \<Rightarrow>
          Inr (ex\<lparr>heap := (heap ex)(sid \<mapsto>
                 st\<lparr>addressSpace := (addressSpace st)
                      \<lparr>objects := (objects (addressSpace st))(mo \<mapsto> os_write env os offset v)\<rparr>\<rparr>)\<rparr>))"

text \<open>
  The slow path of \<open>executeMemoryOperation\<close>: for every candidate object, fork on the
  access being within it; the bound state does the access, the other state goes on to the
  next candidate. The result is the state left unbound, if any.
\<close>

fun resolveLoop ::
  "Env \<Rightarrow> Options \<Rightarrow> bool \<Rightarrow> expr \<Rightarrow> expr \<Rightarrow> KInstruction \<Rightarrow> nat \<Rightarrow> nat \<Rightarrow> Executor \<Rightarrow> nat
     \<Rightarrow> (MemoryObject \<times> ObjectState) list \<Rightarrow> error + (nat option \<times> Executor)" where
  "resolveLoop env opts isWrite address v target type bytes ex unbound [] =
     Inr (Some unbound, ex)"
| "resolveLoop env opts isWrite address v target type bytes ex unbound ((mo, os) # rl) =
     (case fork env opts ex unbound (getBoundsCheckPointer opts mo address bytes) True of
        Inl e \<Rightarrow> Inl e
      | Inr ((bound, unbound'), ex1) \<Rightarrow>
          (case (case bound of
                   None \<Rightarrow> Inr ex1
                 | Some b \<Rightarrow>
                     if isWrite then
                       (if os_readOnly os
                        then terminateStateOnError env opts ex1 b
                               ''memory error: object read only'' ReadOnly None []
                        else writeObject env ex1 b mo os (getOffsetExpr opts mo address) v)
                     else bindLocal ex1 target b
                            (os_read env os (getOffsetExpr opts mo address) type)) of
             Inl e \<Rightarrow> Inl e
           | Inr ex2 \<Rightarrow>
               (case unbound' of
                  None \<Rightarrow> Inr (None, ex2)
                | Some u \<Rightarrow> resolveLoop env opts isWrite address v target type bytes ex2 u rl)))"

text \<open>
  The loop that leaves seed mode at the first out-of-bounds access. It runs over the
  states of the engine, but looks up the state of the memory operation in the seed map
  each time round.
\<close>

fun leaveSeedMode :: "Executor \<Rightarrow> nat \<Rightarrow> nat list \<Rightarrow> error + Executor" where
  "leaveSeedMode ex state [] = Inr ex"
| "leaveSeedMode ex state (es # rest) =
     (if seedMap ex state \<noteq> None
      then leaveSeedMode (ex\<lparr>seedMap := (seedMap ex)(state := None)\<rparr>) state rest
      else
        (case terminateState ex es of
           Inl e \<Rightarrow> Inl e
         | Inr ex1 \<Rightarrow> leaveSeedMode ex1 state rest))"

text \<open>
  What \<open>executeMemoryOperation\<close> does with the state that no object bounds, when the
  resolution was complete. Outside the native heap range the state is terminated with an
  out-of-bounds pointer error, and the code then goes on as it does inside the range: a
  write returns, a read binds \<open>bytes\<close> bytes of \<open>0x88\<close> to the destination. The
  statements of the source after these returns cannot be reached.
\<close>

definition unboundAccess ::
  "Env \<Rightarrow> Options \<Rightarrow> Executor \<Rightarrow> nat \<Rightarrow> nat \<Rightarrow> bool \<Rightarrow> expr \<Rightarrow> KInstruction \<Rightarrow> nat
     \<Rightarrow> error + Executor" where
  "unboundAccess env opts ex state unbound isWrite address target bytes =
     (case (if OnlySeed ex then
              (case leaveSeedMode ex state (states ex) of
                 Inl e \<Rightarrow> Inl e
               | Inr ex1 \<Rightarrow> Inr (ex1\<lparr>OnlySeed := False\<rparr>))
            else Inr ex) of
        Inl e \<Rightarrow> Inl e
      | Inr ex1 \<Rightarrow>
          (case address of
             ConstantExpr w addr \<Rightarrow>
               (case (if addr \<le> n_heap_l opts \<or> n_heap_h opts < addr then
                        (case heap ex1 unbound of
                           None \<Rightarrow> Inl UseAfterFree
                         | Some ust \<Rightarrow>
                             (case getAddressInfo env ex1 ust address of
                                Inl e \<Rightarrow> Inl e
                              | Inr info \<Rightarrow>
                                  terminateStateOnError env opts ex1 unbound
                                    ''++++++++++++++++++memory error: out of bound pointer''
                                    Ptr None info))
                      else Inr ex1) of
                  Inl e \<Rightarrow> Inl e
                | Inr ex2 \<Rightarrow>
                    if isWrite then Inr ex2
                    else bindLocal ex2 target unbound
                           (ConcatExpr_createN (replicate bytes (ConstantExpr 8 136))))
           | _ \<Rightarrow> Inl NullDereference))"

text \<open>The fast path, once the address has resolved to one object.\<close>

definition resolvedAccess ::
  "Env \<Rightarrow> Options \<Rightarrow> Executor \<Rightarrow> nat \<Rightarrow> bool \<Rightarrow> expr \<Rightarrow> expr \<Rightarrow> KInstruction \<Rightarrow> nat \<Rightarrow> nat
     \<Rightarrow> MemoryObject \<Rightarrow> ObjectState \<Rightarrow> error + (Executor + expr \<times> Executor)" where
  "resolvedAccess env opts ex state isWrite address v target type bytes mo os =
     (case (if MaxSymArraySize opts \<noteq> 0 \<and> MaxSymArraySize opts \<le> mo_size mo then
              (case toConstant env ex state address of
                 Inl e \<Rightarrow> Inl e
               | Inr (c, ex1) \<Rightarrow> Inr (toExpr c, ex1))
            else Inr (address, ex)) of
        Inl e \<Rightarrow> Inl e
      | Inr (address1, ex1) \<Rightarrow>
          (case heap ex1 state of
             None \<Rightarrow> Inl UseAfterFree
           | Some st \<Rightarrow>
               (case solver_mustBeTrue env (coreSolverTimeout opts) (constraints st)
                       (optimizeExpr env
                          (getBoundsCheckOffset opts mo (getOffsetExpr opts mo address1) bytes)
                          True) of
                  None \<Rightarrow>
                    (case terminateStateEarly opts
                            (ex1\<lparr>solverTimeout := 0,
                                 heap := (heap ex1)(state \<mapsto> st\<lparr>pc := prevPC st\<rparr>)\<rparr>)
                            state ''Query timed out (bounds check).'' of
                       Inl e \<Rightarrow> Inl e
                     | Inr ex2 \<Rightarrow> Inr (Inl ex2))
                | Some inBounds \<Rightarrow>
                    if inBounds then
                      (case (if isWrite then
                               (if os_readOnly os
                                then terminateStateOnError env opts (ex1\<lparr>solverTimeout := 0\<rparr>) state
                                       ''memory error: object read only'' ReadOnly None []
                                else writeObject env (ex1\<lparr>solverTimeout := 0\<rparr>) state mo os
                                       (getOffsetExpr opts mo address1) v)
                             else
                               bindLocal (ex1\<lparr>solverTimeout := 0\<rparr>) target state
                                 (if MakeConcreteSymbolic opts
                                  then replaceReadWithSymbolic env st
                                         (os_read env os (getOffsetExpr opts mo address1) type)
                                  else os_read env os (getOffsetExpr opts mo address1) type)) of
                         Inl e \<Rightarrow> Inl e
                       | Inr ex2 \<Rightarrow> Inr (Inl ex2))
                    else Inr (Inr (address1, ex1\<lparr>solverTimeout := 0\<rparr>)))))"

text \<open>
  The first resolution of the address: \<open>resolveOne\<close> under the solver timeout, and on
  its failure the concretized address.
\<close>

definition resolveFirst ::
  "Env \<Rightarrow> Options \<Rightarrow> Executor \<Rightarrow> nat \<Rightarrow> expr
     \<Rightarrow> error + (expr \<times> (MemoryObject \<times> ObjectState) option \<times> Executor)" where
  "resolveFirst env opts ex state address =
     (case heap ex state of
        None \<Rightarrow> Inl UseAfterFree
      | Some st \<Rightarrow>
          (case resolveOne env (coreSolverTimeout opts) st address of
             Some op \<Rightarrow> Inr (address, op, ex\<lparr>solverTimeout := 0\<rparr>)
           | None \<Rightarrow>
               (case toConstant env (ex\<lparr>solverTimeout := coreSolverTimeout opts\<rparr>) state address of
                  Inl e \<Rightarrow> Inl e
                | Inr (c, ex1) \<Rightarrow>
                    (case heap ex1 state of
                       None \<Rightarrow> Inl UseAfterFree
                     | Some st1 \<Rightarrow>
                         Inr (toExpr c, resolveOneConstant env (addressSpace st1) c,
                              ex1\<lparr>solverTimeout := 0\<rparr>)))))"

text \<open>The error path: no resolution, several resolutions, or one that is out of bounds.\<close>

definition errorPath ::
  "Env \<Rightarrow> Options \<Rightarrow> Executor \<Rightarrow> nat \<Rightarrow> bool \<Rightarrow> expr \<Rightarrow> expr \<Rightarrow> KInstruction \<Rightarrow> nat \<Rightarrow> nat
     \<Rightarrow> error + Executor" where
  "errorPath env opts ex state isWrite address v target type bytes =
     (case heap ex state of
        None \<Rightarrow> Inl UseAfterFree
      | Some st \<Rightarrow>
          (case resolveLoop env opts isWrite (optimizeExpr env address True) v target type bytes
                  (ex\<lparr>solverTimeout := 0\<rparr>) state
                  (fst (resolve env (coreSolverTimeout opts) st (optimizeExpr env address True))) of
             Inl e \<Rightarrow> Inl e
           | Inr (None, ex1) \<Rightarrow> Inr ex1
           | Inr (Some unbound, ex1) \<Rightarrow>
               if snd (resolve env (coreSolverTimeout opts) st (optimizeExpr env address True))
               then terminateStateEarly opts ex1 unbound ''Query timed out (resolve).''
               else unboundAccess env opts ex1 state unbound isWrite
                      (optimizeExpr env address True) target bytes))"

text \<open>
  \<open>Executor::executeMemoryOperation\<close>. For a write \<open>target\<close> is not used, for a read
  \<open>v\<close> is not used.
\<close>

definition executeMemoryOperation ::
  "Env \<Rightarrow> Options \<Rightarrow> Executor \<Rightarrow> nat \<Rightarrow> bool \<Rightarrow> expr \<Rightarrow> expr \<Rightarrow> KInstruction \<Rightarrow> error + Executor" where
  "executeMemoryOperation env opts ex state isWrite address v target =
     (let type = (if isWrite then getWidth v else ki_typeWidth target);
          bytes = getMinBytesForWidth type
      in case heap ex state of
           None \<Rightarrow> Inl UseAfterFree
         | Some st \<Rightarrow>
             if \<not> isConstant address then
               (case getAddressInfo env ex st address of
                  Inl e \<Rightarrow> Inl e
                | Inr info \<Rightarrow>
                    terminateStateOnError env opts ex state
                      ''exploit succeed: memory operation with symbolic addr'' Ptr None info)
             else
               (let v1 = (if SimplifySymIndices opts \<and> isWrite \<and> \<not> isConstant v
                          then simplifyExpr env (constraints st) v else v)
                in case resolveFirst env opts ex state (optimizeExpr env address True) of
                     Inl e \<Rightarrow> Inl e
                   | Inr (address1, None, ex1) \<Rightarrow>
                       errorPath env opts ex1 state isWrite address1 v1 target type bytes
                   | Inr (address1, Some (mo, os), ex1) \<Rightarrow>
                       (case resolvedAccess env opts ex1 state isWrite address1 v1 target type
                               bytes mo os of
                          Inl e \<Rightarrow> Inl e
                        | Inr (Inl ex2) \<Rightarrow> Inr ex2
                        | Inr (Inr (address2, ex2)) \<Rightarrow>
                            errorPath env opts ex2 state isWrite address2 v1 target type bytes)))"

section \<open>The interpreter: return\<close>

text \<open>
  \<open>Executor::eval\<close>: an operand of an instruction is an entry of the constant table
  or a register of the top frame. The result is \<open>None\<close> for a cell that holds no value.
\<close>

definition eval :: "Options \<Rightarrow> KInstruction \<Rightarrow> nat \<Rightarrow> ExecutionState \<Rightarrow> error + expr option" where
  "eval opts ki index st =
     (if \<not> index < length (ki_operands ki) then Inl (AssertionFailure ''index < getNumOperands'')
      else if ki_operands ki ! index = - 1
      then Inl (AssertionFailure ''Invalid operand to eval(), not a value or constant!'')
      else if ki_operands ki ! index < 0
      then Inr (constantTable opts (nat (- (ki_operands ki ! index) - 2)))
      else if stack st = [] then Inl EmptyStack
      else Inr (sf_locals (last (stack st)) (nat (ki_operands ki ! index))))"

text \<open>
  Modelled from the spec: \<open>ExecutionState::popFrame\<close> is not part of the source file.
  The allocations of a frame are released when it returns: popping a frame unbinds its
  allocas from the address space and removes the frame.
\<close>

definition popFrame :: "ExecutionState \<Rightarrow> ExecutionState" where
  "popFrame st =
     st\<lparr>addressSpace := (addressSpace st)
           \<lparr>objects := (\<lambda>mo. if mo \<in> set (sf_allocas (last (stack st))) then None
                              else objects (addressSpace st) mo)\<rparr>,
        stack := butlast (stack st)\<rparr>"

text \<open>\<open>Executor::transferToBasicBlock\<close>, for a state with a frame.\<close>

definition transferToBasicBlock :: "Options \<Rightarrow> nat \<Rightarrow> nat \<Rightarrow> ExecutionState \<Rightarrow> ExecutionState" where
  "transferToBasicBlock opts dst src st =
     (let entry = basicBlockEntry opts (sf_kf (last (stack st))) dst
      in if ki_isPHI (kinstAt opts entry)
         then st\<lparr>pc := entry,
                 incomingBBIndex := getBasicBlockIndex opts (ki_inst (kinstAt opts entry)) src\<rparr>
         else st\<lparr>pc := entry\<rparr>)"

text \<open>
  The value a return hands to its caller: widened to the width of the call's type when
  the widths differ, by sign extension if the call site has the \<open>SExt\<close> return
  attribute and by zero extension if not.
\<close>

definition coerceResult :: "KInstruction \<Rightarrow> expr \<Rightarrow> expr" where
  "coerceResult caller result =
     (if getWidth result \<noteq> ki_typeWidth caller then
        (if ki_retAttrSExt caller then SExtExpr_create result (ki_typeWidth caller)
         else ZExtExpr_create result (ki_typeWidth caller))
      else result)"

text \<open>
  The \<open>Ret\<close> case of \<open>Executor::executeInstruction\<close>. A return has no operand when
  it returns \<open>void\<close>.
\<close>

definition executeRet :: "Env \<Rightarrow> Options \<Rightarrow> Executor \<Rightarrow> nat \<Rightarrow> KInstruction \<Rightarrow> error + Executor" where
  "executeRet env opts ex state ki =
     (case heap ex state of
        None \<Rightarrow> Inl UseAfterFree
      | Some st \<Rightarrow>
          if stack st = [] then Inl EmptyStack
          else
            (case (if ki_operands ki = [] then Inr (Some (ConstantExpr 1 0))
                   else eval opts ki 0 st) of
               Inl e \<Rightarrow> Inl e
             | Inr result \<Rightarrow>
                 if length (stack st) \<le> 1 then
                   (if sf_caller (last (stack st)) \<noteq> None
                    then Inl (AssertionFailure ''caller set on initial stack frame'')
                    else terminateStateOnExit opts ex state)
                 else
                   (case sf_caller (last (stack st)) of
                      None \<Rightarrow> Inl NullDereference
                    | Some kcaller \<Rightarrow>
                        (let caller = kinstAt opts kcaller;
                             st1 = (if ki_isInvoke caller
                                    then transferToBasicBlock opts (ki_normalDest caller)
                                           (ki_block caller) (popFrame st)
                                    else (popFrame st)\<lparr>pc := Suc kcaller\<rparr>);
                             ex1 = ex\<lparr>heap := (heap ex)(state \<mapsto> st1)\<rparr>
                         in if ki_operands ki \<noteq> [] then
                              (if \<not> ki_typeIsVoid caller then
                                 (case result of
                                    None \<Rightarrow> Inl NullDereference
                                  | Some r \<Rightarrow> bindLocal ex1 caller state (coerceResult caller r))
                               else Inr ex1)
                            else
                              (if \<not> ki_use_empty caller
                               then terminateStateOnExecError env opts ex1 state
                                      ''return void when caller expected a result''
                               else Inr ex1)))))"

section \<open>Calls\<close>

text \<open>
  \<open>Executor::executeCall\<close> dispatches on LLVM's description of the callee (intrinsics,
  external functions, the formal parameters of a defined function). The handler of the
  call instruction is studied for every such function: it is the first argument of the
  definitions below, called with the engine, the state, the call instruction, the callee
  and the arguments.
\<close>

type_synonym CallHandler =
  "Executor \<Rightarrow> nat \<Rightarrow> KInstruction \<Rightarrow> nat \<Rightarrow> expr option list \<Rightarrow> error + Executor"

text \<open>The arguments of the call: operand \<open>j + 1\<close> for every argument \<open>j\<close>.\<close>

fun evalArguments ::
  "Options \<Rightarrow> KInstruction \<Rightarrow> ExecutionState \<Rightarrow> nat list \<Rightarrow> error + expr option list" where
  "evalArguments opts ki st [] = Inr []"
| "evalArguments opts ki st (j # js) =
     (case eval opts ki (Suc j) st of
        Inl e \<Rightarrow> Inl e
      | Inr a \<Rightarrow>
          (case evalArguments opts ki st js of
             Inl e \<Rightarrow> Inl e
           | Inr as \<Rightarrow> Inr (a # as)))"

text \<open>
  The call through a bitcast: every argument whose width is not that of the parameter of
  the function at its position is extended, by sign when the call site has the attribute.
  \<open>bitcastParams\<close> is \<open>None\<close> when the type of the function is the type of the called
  value, and \<open>Some None\<close> when one of the two is not a function type.
\<close>

fun coerceArgument :: "Options \<Rightarrow> KInstruction \<Rightarrow> nat list \<Rightarrow> nat \<times> expr option \<Rightarrow> error + expr option" where
  "coerceArgument opts ki widths (i, None) = Inl NullDereference"
| "coerceArgument opts ki widths (i, Some a) =
     Inr (Some (if i < length widths \<and> getWidth a \<noteq> widths ! i
                then (if paramHasSExt opts (ki_inst ki) i
                      then SExtExpr_create a (widths ! i)
                      else ZExtExpr_create a (widths ! i))
                else a))"

fun sequence :: "(error + 'a) list \<Rightarrow> error + 'a list" where
  "sequence [] = Inr []"
| "sequence (x # xs) =
     (case x of
        Inl e \<Rightarrow> Inl e
      | Inr a \<Rightarrow> (case sequence xs of Inl e \<Rightarrow> Inl e | Inr as \<Rightarrow> Inr (a # as)))"

definition coerceArguments ::
  "Options \<Rightarrow> KInstruction \<Rightarrow> nat \<Rightarrow> expr option list \<Rightarrow> error + expr option list" where
  "coerceArguments opts ki f arguments =
     (case bitcastParams opts (ki_inst ki) f of
        None \<Rightarrow> Inr arguments
      | Some None \<Rightarrow> Inl (AssertionFailure ''unable to get function type'')
      | Some (Some widths) \<Rightarrow>
          sequence (map (coerceArgument opts ki widths) (zip [0..<length arguments] arguments)))"

text \<open>
  The search for the instruction that defines the callee operand: every instruction of the
  current function whose destination register is the operand is evaluated; one that does
  not have exactly one operand ends the state with an error, and the search goes on. The
  name of the operand of the last such instruction that has one is kept.
\<close>

fun operandScan ::
  "Env \<Rightarrow> Options \<Rightarrow> nat \<Rightarrow> nat list \<Rightarrow> Executor \<times> string \<Rightarrow> error + (Executor \<times> string)" where
  "operandScan env opts state [] (ex, name) = Inr (ex, name)"
| "operandScan env opts state (i # rest) (ex, name) =
     (case heap ex state of
        None \<Rightarrow> Inl UseAfterFree
      | Some st \<Rightarrow>
          (case eval opts (kinstAt opts i) 0 st of
             Inl e \<Rightarrow> Inl e
           | Inr None \<Rightarrow> Inl NullDereference
           | Inr (Some base) \<Rightarrow>
               (case (if length (ki_operands (kinstAt opts i)) \<noteq> 1
                      then terminateStateOnExecError env opts ex state
                             (''Error in handle indirect function call!'' @ newline)
                      else Inr ex) of
                  Inl e \<Rightarrow> Inl e
                | Inr ex1 \<Rightarrow>
                    operandScan env opts state rest
                      (ex1, case operandName opts (ki_inst (kinstAt opts i)) of
                              None \<Rightarrow> name
                            | Some n \<Rightarrow> n))))"

text \<open>
  The body of the loop of the indirect call when the fork has returned a true branch
  \<open>t\<close>. The recorded write capabilities and the termination are those of \<open>state\<close>, the
  state that executes the instruction, not of the state the loop is at. The result is the
  engine, \<open>hasInvalid\<close>, and whether the loop was left by \<open>break\<close>.
\<close>

definition indirectCallBody ::
  "CallHandler \<Rightarrow> Env \<Rightarrow> Options \<Rightarrow> Executor \<Rightarrow> nat \<Rightarrow> KInstruction \<Rightarrow> string \<Rightarrow> expr
     \<Rightarrow> constantExpr \<Rightarrow> expr option list \<Rightarrow> nat \<Rightarrow> bool \<Rightarrow> error + (Executor \<times> bool \<times> bool)" where
  "indirectCallBody call env opts ex state ki name v val arguments t hasInvalid =
     (case heap ex state of
        None \<Rightarrow> Inl UseAfterFree
      | Some st \<Rightarrow>
          (case (if WriteExploitCapability (addressSpace st) = [] then Inr ex
                 else exploitConstraints env ex state name v) of
             Inl e \<Rightarrow> Inl e
           | Inr ex1 \<Rightarrow>
               if \<not> isConstant v then
                 (case terminateStateOnExecError env opts ex1 state ''AEG: Find a possible exploit'' of
                    Inl e \<Rightarrow> Inl e
                  | Inr ex2 \<Rightarrow> Inr (ex2, hasInvalid, True))
               else if getZExtValue val \<in> legalFunctions opts then
                 (case call ex1 t ki (getZExtValue val) arguments of
                    Inl e \<Rightarrow> Inl e
                  | Inr ex2 \<Rightarrow> Inr (ex2, hasInvalid, False))
               else if \<not> hasInvalid then
                 (case terminateStateOnExecError env opts ex1 state ''invalid function pointer'' of
                    Inl e \<Rightarrow> Inl e
                  | Inr ex2 \<Rightarrow> Inr (ex2, True, False))
               else Inr (ex1, hasInvalid, False)))"

text \<open>
  The \<open>do ... while (free)\<close> loop of the indirect call. Nothing bounds the number of its
  iterations (a solver may keep returning a value that the fork then finds infeasible), so
  the loop takes fuel: \<open>None\<close> is a loop that has not ended when the fuel has.
\<close>

fun indirectCallLoop ::
  "CallHandler \<Rightarrow> nat \<Rightarrow> Env \<Rightarrow> Options \<Rightarrow> Executor \<Rightarrow> nat \<Rightarrow> KInstruction \<Rightarrow> string \<Rightarrow> expr
     \<Rightarrow> expr option list \<Rightarrow> nat \<Rightarrow> bool \<Rightarrow> (error + Executor) option" where
  "indirectCallLoop call 0 env opts ex state ki name v arguments free hasInvalid = None"
| "indirectCallLoop call (Suc n) env opts ex state ki name v arguments free hasInvalid =
     (case heap ex free of
        None \<Rightarrow> Some (Inl UseAfterFree)
      | Some fs \<Rightarrow>
          (case solver_getValue env (solverTimeout ex) (constraints fs) (optimizeExpr env v True) of
             None \<Rightarrow> Some (Inl unhandledSolverFailure)
           | Some val \<Rightarrow>
               (case fork env opts ex free
                       (EqExpr_create (optimizeExpr env v True) (toExpr val)) True of
                  Inl e \<Rightarrow> Some (Inl e)
                | Inr ((first, second), ex1) \<Rightarrow>
                    (case (case first of
                             None \<Rightarrow> Inr (ex1, hasInvalid, False)
                           | Some t \<Rightarrow>
                               indirectCallBody call env opts ex1 state ki name
                                 (optimizeExpr env v True) val arguments t hasInvalid) of
                       Inl e \<Rightarrow> Some (Inl e)
                     | Inr (ex2, invalid, left) \<Rightarrow>
                         if left then Some (Inr ex2)
                         else (case second of
                                 None \<Rightarrow> Some (Inr ex2)
                               | Some s \<Rightarrow>
                                   indirectCallLoop call n env opts ex2 state ki name
                                     (optimizeExpr env v True) arguments s invalid)))))"

text \<open>
  The handler of the call and invoke instructions. A call whose target LLVM knows goes to
  the call handler; any other evaluates the callee operand and enters the loop. The
  comparison of the destination register, an \<open>unsigned\<close>, with the operand, an \<open>int\<close>,
  converts the operand.
\<close>

definition definingInstructions :: "Options \<Rightarrow> KInstruction \<Rightarrow> ExecutionState \<Rightarrow> nat list" where
  "definingInstructions opts ki st =
     filter (\<lambda>i. int (ki_dest (kinstAt opts i)) = hd (ki_operands ki) mod 4294967296)
       (instructionsOf opts (sf_kf (last (stack st))))"

definition executeCallInstruction ::
  "CallHandler \<Rightarrow> nat \<Rightarrow> Env \<Rightarrow> Options \<Rightarrow> Executor \<Rightarrow> nat \<Rightarrow> KInstruction
     \<Rightarrow> (error + Executor) option" where
  "executeCallInstruction call fuel env opts ex state ki =
     (if isDbgInfoIntrinsic opts (ki_inst ki) then Some (Inr ex)
      else if isInlineAsm opts (ki_inst ki)
      then Some (terminateStateOnExecError env opts ex state ''inline assembly is unsupported'')
      else
        (case heap ex state of
           None \<Rightarrow> Some (Inl UseAfterFree)
         | Some st \<Rightarrow>
             (case evalArguments opts ki st [0..<length (ki_operands ki) - 1] of
                Inl e \<Rightarrow> Some (Inl e)
              | Inr arguments \<Rightarrow>
                  (case getTargetFunction opts (ki_inst ki) of
                     Some f \<Rightarrow>
                       (case coerceArguments opts ki f arguments of
                          Inl e \<Rightarrow> Some (Inl e)
                        | Inr coerced \<Rightarrow> Some (call ex state ki f coerced))
                   | None \<Rightarrow>
                       (case eval opts ki 0 st of
                          Inl e \<Rightarrow> Some (Inl e)
                        | Inr None \<Rightarrow> Some (Inl NullDereference)
                        | Inr (Some v) \<Rightarrow>
                            if stack st = [] then Some (Inl EmptyStack)
                            else
                              (case operandScan env opts state
                                      (definingInstructions opts ki st) (ex, []) of
                                 Inl e \<Rightarrow> Some (Inl e)
                               | Inr (ex0, name) \<Rightarrow>
                                   indirectCallLoop call fuel env opts ex0 state ki name v
                                     arguments state False))))))"

section \<open>Allocation\<close>

text \<open>
  \<open>Executor::bindObjectInState\<close>, without an array. The object state is the one that
  \<open>executeAlloc\<close> has after its call of \<open>initializeToZero\<close> or \<open>initializeToRandom\<close>.
\<close>

definition bindObjectInState ::
  "ExecutionState \<Rightarrow> MemoryObject \<Rightarrow> bool \<Rightarrow> ObjectState \<Rightarrow> error + ExecutionState" where
  "bindObjectInState st mo isLocal os =
     (let st1 = st\<lparr>addressSpace :=
                  (addressSpace st)\<lparr>objects := (objects (addressSpace st))(mo \<mapsto> os)\<rparr>\<rparr>
      in if isLocal then
           (if stack st1 = [] then Inl EmptyStack
            else Inr (st1\<lparr>stack := butlast (stack st1) @
                        [(last (stack st1))\<lparr>sf_allocas := sf_allocas (last (stack st1)) @ [mo]\<rparr>]\<rparr>))
         else Inr st1)"

text \<open>The copy of the first \<open>count\<close> bytes of the reallocated object.\<close>

definition reallocCopy :: "Env \<Rightarrow> MemoryObject \<Rightarrow> ObjectState \<Rightarrow> MemoryObject \<Rightarrow> ObjectState \<Rightarrow> ObjectState" where
  "reallocCopy env fromMo fromOs mo os =
     fold (\<lambda>i o'. os_write env o' (ConstantExpr 32 i) (os_read env fromOs (ConstantExpr 32 i) 8))
       [0..<min (mo_size fromMo) (mo_size mo)] os"

text \<open>
  The branch of \<open>executeAlloc\<close> for a size that is a constant. The list of native heap
  allocations of the state, which only the native helper reads, is left out: the helper
  is the parameter \<open>nme_req\<close>, which returns the native address.
\<close>

definition executeAllocConcrete ::
  "Env \<Rightarrow> Options \<Rightarrow> Executor \<Rightarrow> nat \<Rightarrow> nat \<Rightarrow> bool \<Rightarrow> KInstruction \<Rightarrow> bool
     \<Rightarrow> (MemoryObject \<times> ObjectState) option \<Rightarrow> nat \<Rightarrow> bool \<Rightarrow> error + Executor" where
  "executeAllocConcrete env opts ex state bytes isLocal target zeroMemory reallocFrom
       allocationAlignment isheap =
     (case heap ex state of
        None \<Rightarrow> Inl UseAfterFree
      | Some st \<Rightarrow>
          (case (if allocationAlignment = 0
                 then getAllocationAlignment env (ki_inst (kinstAt opts (prevPC st)))
                 else Inr allocationAlignment) of
             Inl e \<Rightarrow> Inl e
           | Inr alignment \<Rightarrow>
               (case allocate env bytes isLocal False (ki_inst (kinstAt opts (prevPC st)))
                       alignment of
                  None \<Rightarrow> bindLocal ex target state (ConstantExpr (pointerWidth opts) 0)
                | Some mo0 \<Rightarrow>
                    (let mo = (if isheap
                               then mo0\<lparr>mo_address := nme_req env st mo0, mo_isHeap := True\<rparr>
                               else mo0);
                         os = initialObjectState env mo zeroMemory
                     in case bindObjectInState st mo isLocal os of
                          Inl e \<Rightarrow> Inl e
                        | Inr st1 \<Rightarrow>
                            (case bindLocal (ex\<lparr>heap := (heap ex)(state \<mapsto> st1)\<rparr>) target state
                                    (getBaseExpr opts mo) of
                               Inl e \<Rightarrow> Inl e
                             | Inr ex1 \<Rightarrow>
                                 (case reallocFrom of
                                    None \<Rightarrow> Inr ex1
                                  | Some (fromMo, fromOs) \<Rightarrow>
                                      (case heap ex1 state of
                                         None \<Rightarrow> Inl UseAfterFree
                                       | Some st2 \<Rightarrow>
                                           Inr (ex1\<lparr>heap := (heap ex1)(state \<mapsto>
                                                  st2\<lparr>addressSpace := (addressSpace st2)
                                                    \<lparr>objects := ((objects (addressSpace st2))
                                                       (mo \<mapsto> reallocCopy env fromMo fromOs mo os))
                                                       (fromMo := None)\<rparr>\<rparr>)\<rparr>))))))))"

text \<open>
  The loop that looks for a small example of a symbolic size: the example is halved while
  it is above 128 and the half is still a possible size.
\<close>

function shrinkExample :: "Env \<Rightarrow> nat \<Rightarrow> expr list \<Rightarrow> expr \<Rightarrow> nat \<Rightarrow> nat \<Rightarrow> error + nat" where
  "shrinkExample env t cs sizeExpr W example =
     (if 128 mod 2 ^ W < example then
        (case solver_mayBeTrue env t cs (EqExpr_create (ConstantExpr W (example div 2)) sizeExpr) of
           None \<Rightarrow> Inl unhandledSolverFailure
         | Some res \<Rightarrow>
             if \<not> res then Inr example
             else shrinkExample env t cs sizeExpr W (example div 2))
      else Inr example)"
  by pat_completeness auto

termination shrinkExample
  by (relation "measure (\<lambda>(env, t, cs, sizeExpr, W, example). example)") auto

text \<open>The text that goes with the error of a symbolic size that was made concrete.\<close>

definition sizeInfo :: "Env \<Rightarrow> expr \<Rightarrow> expr \<Rightarrow> expr \<Rightarrow> string" where
  "sizeInfo env sizeExpr example tmp =
     ''  size expr: '' @ printExpr env sizeExpr @ newline @
     ''  concretization : '' @ printExpr env example @ newline @
     ''  unbound example: '' @ printExpr env tmp @ newline"

text \<open>
  What \<open>executeAlloc\<close> does with the false branch of its first fork: the state in which
  the size is not the example.
\<close>

definition executeAllocOther ::
  "Env \<Rightarrow> Options \<Rightarrow> Executor \<Rightarrow> nat \<Rightarrow> expr \<Rightarrow> nat \<Rightarrow> nat \<Rightarrow> bool \<Rightarrow> KInstruction \<Rightarrow> bool
     \<Rightarrow> (MemoryObject \<times> ObjectState) option \<Rightarrow> bool \<Rightarrow> error + Executor" where
  "executeAllocOther env opts ex other sizeExpr W example isLocal target zeroMemory reallocFrom
       isheap =
     (case heap ex other of
        None \<Rightarrow> Inl UseAfterFree
      | Some ost \<Rightarrow>
          (case solver_getValue env (solverTimeout ex) (constraints ost) sizeExpr of
             None \<Rightarrow> Inl unhandledSolverFailure
           | Some tmp \<Rightarrow>
               (case solver_mustBeTrue env (solverTimeout ex) (constraints ost)
                       (EqExpr_create (toExpr tmp) sizeExpr) of
                  None \<Rightarrow> Inl unhandledSolverFailure
                | Some True \<Rightarrow>
                    executeAllocConcrete env opts ex other (getZExtValue tmp) isLocal target
                      zeroMemory reallocFrom (if isheap then 1 else 0) (defaultIsHeap opts)
                | Some False \<Rightarrow>
                    (case fork env opts ex other
                            (UltExpr_create (ConstantExpr W (2147483648 mod 2 ^ W)) sizeExpr) True of
                       Inl e \<Rightarrow> Inl e
                     | Inr ((hugeFirst, hugeSecond), ex1) \<Rightarrow>
                         (case (case hugeFirst of
                                  None \<Rightarrow> Inr ex1
                                | Some h \<Rightarrow>
                                    bindLocal ex1 target h (ConstantExpr (pointerWidth opts) 0)) of
                            Inl e \<Rightarrow> Inl e
                          | Inr ex2 \<Rightarrow>
                              (case hugeSecond of
                                 None \<Rightarrow> Inr ex2
                               | Some u \<Rightarrow>
                                   terminateStateOnError env opts ex2 u
                                     ''concretized symbolic size'' Model None
                                     (sizeInfo env sizeExpr (ConstantExpr W example) (toExpr tmp))))))))"

text \<open>
  \<open>Executor::executeAlloc\<close>. Its recursive calls pass a constant size, which
  \<open>toUnique\<close> returns as it is, so that they run the branch of the constant size; they
  pass seven arguments, so that \<open>isheap\<close> arrives as the alignment and the last parameter
  takes its default, which the header declares.
\<close>

definition executeAlloc ::
  "Env \<Rightarrow> Options \<Rightarrow> Executor \<Rightarrow> nat \<Rightarrow> expr \<Rightarrow> bool \<Rightarrow> KInstruction \<Rightarrow> bool
     \<Rightarrow> (MemoryObject \<times> ObjectState) option \<Rightarrow> nat \<Rightarrow> bool \<Rightarrow> error + Executor" where
  "executeAlloc env opts ex state sizeExpr isLocal target zeroMemory reallocFrom
       allocationAlignment isheap =
     (case heap ex state of
        None \<Rightarrow> Inl UseAfterFree
      | Some st \<Rightarrow>
          (case toUnique env opts ex st sizeExpr of
             (ConstantExpr w n, ex0) \<Rightarrow>
               executeAllocConcrete env opts ex0 state n isLocal target zeroMemory reallocFrom
                 allocationAlignment isheap
           | (unique, ex0) \<Rightarrow>
               (let size1 = optimizeExpr env unique True in
                case solver_getValue env (solverTimeout ex0) (constraints st) size1 of
                  None \<Rightarrow> Inl unhandledSolverFailure
                | Some (CE W first) \<Rightarrow>
                    (case shrinkExample env (solverTimeout ex0) (constraints st) size1 W first of
                       Inl e \<Rightarrow> Inl e
                     | Inr example \<Rightarrow>
                         (case fork env opts ex0 state
                                 (EqExpr_create (ConstantExpr W example) size1) True of
                            Inl e \<Rightarrow> Inl e
                          | Inr ((fixedFirst, fixedSecond), ex1) \<Rightarrow>
                              (case (case fixedSecond of
                                       None \<Rightarrow> Inr ex1
                                     | Some other \<Rightarrow>
                                         executeAllocOther env opts ex1 other size1 W example
                                           isLocal target zeroMemory reallocFrom isheap) of
                                 Inl e \<Rightarrow> Inl e
                               | Inr ex2 \<Rightarrow>
                                   (case fixedFirst of
                                      None \<Rightarrow> Inr ex2
                                    | Some fixed \<Rightarrow>
                                        executeAllocConcrete env opts ex2 fixed example isLocal
                                          target zeroMemory reallocFrom (if isheap then 1 else 0)
                                          (defaultIsHeap opts))))))))"

section \<open>The interpreter: load and store\<close>

text \<open>
  The \<open>Load\<close> case of \<open>Executor::executeInstruction\<close>: the address is operand 0, and
  the instruction itself is the target of the read. The value argument of
  \<open>executeMemoryOperation\<close> is a null reference, which a read does not look at; the
  model passes a constant of width 0 in its place.
\<close>

definition executeLoad :: "Env \<Rightarrow> Options \<Rightarrow> Executor \<Rightarrow> nat \<Rightarrow> KInstruction \<Rightarrow> error + Executor" where
  "executeLoad env opts ex state ki =
     (case heap ex state of
        None \<Rightarrow> Inl UseAfterFree
      | Some st \<Rightarrow>
          (case eval opts ki 0 st of
             Inl e \<Rightarrow> Inl e
           | Inr None \<Rightarrow> Inl NullDereference
           | Inr (Some base) \<Rightarrow>
               executeMemoryOperation env opts ex state False base (ConstantExpr 0 0) ki))"

text \<open>\<open>std::string::find\<close> of a pattern, compared with \<open>npos\<close>.\<close>

fun startsWith :: "string \<Rightarrow> string \<Rightarrow> bool" where
  "startsWith s [] = True"
| "startsWith [] (p # ps) = False"
| "startsWith (c # cs) (p # ps) = (c = p \<and> startsWith cs ps)"

fun found :: "string \<Rightarrow> string \<Rightarrow> bool" where
  "found [] p = (p = [])"
| "found (c # cs) p = (startsWith (c # cs) p \<or> found cs p)"

text \<open>
  The globals that the \<open>Store\<close> case goes through when the address of the store is not
  a constant: those whose value type is a pointer and whose name has none of the listed
  substrings. An entry of \<open>globalAddresses\<close> is the name of the global, whether its
  value type is a pointer, and its address.
\<close>

definition trackedGlobal :: "string \<times> bool \<times> constantExpr \<Rightarrow> bool" where
  "trackedGlobal g =
     (case g of (name, isPointerTy, address) \<Rightarrow>
        isPointerTy \<and> \<not> found name ''_'' \<and> \<not> found name ''environ'' \<and>
        \<not> found name ''stderr'' \<and> \<not> found name ''stdin'' \<and> \<not> found name ''stdout'')"

text \<open>
  The body of that loop resolves the address of the global, makes the object symbolic
  through \<open>executeMakeSymbolic\<close> and enters it in the tables of function pointers, which
  are not part of this model: it is the parameter \<open>symbolizeGlobal\<close>.
\<close>

fun symbolizeGlobals ::
  "Env \<Rightarrow> nat \<Rightarrow> (string \<times> bool \<times> constantExpr) list \<Rightarrow> Executor \<Rightarrow> error + Executor" where
  "symbolizeGlobals env state [] ex = Inr ex"
| "symbolizeGlobals env state ((name, isPointerTy, address) # rest) ex =
     (case symbolizeGlobal env ex state name address of
        Inl e \<Rightarrow> Inl e
      | Inr ex1 \<Rightarrow> symbolizeGlobals env state rest ex1)"

text \<open>
  \<open>WriteExploitCapability.insert\<close>: the map keeps the value it has for a key that is
  already there. The value of the store may be a null reference.
\<close>

definition recordWriteCapability ::
  "(expr \<times> expr option) list \<Rightarrow> expr \<Rightarrow> expr option \<Rightarrow> (expr \<times> expr option) list" where
  "recordWriteCapability capabilities base v =
     (if base \<in> fst ` set capabilities then capabilities else capabilities @ [(base, v)])"

text \<open>
  The \<open>Store\<close> case of \<open>Executor::executeInstruction\<close>: the address is operand 1 and
  the value operand 0. A store whose address is not a constant is recorded as a write
  capability of the state, the tracked globals are gone through, and the handler leaves:
  \<open>executeMemoryOperation\<close> is not called. What the handler does with a constant
  address is its call of \<open>executeMemoryOperation\<close> inside the bookkeeping of function
  pointers, which goes by tables that the loop over the globals fills and by a search
  back through the LLVM instructions of the function; it is the first argument of the
  definition, called with the engine, the state, the instruction, the address and the
  value.
\<close>

type_synonym StoreHandler =
  "Executor \<Rightarrow> nat \<Rightarrow> KInstruction \<Rightarrow> expr \<Rightarrow> expr option \<Rightarrow> error + Executor"

definition executeStore ::
  "StoreHandler \<Rightarrow> Env \<Rightarrow> Options \<Rightarrow> Executor \<Rightarrow> nat \<Rightarrow> KInstruction \<Rightarrow> error + Executor" where
  "executeStore constantStore env opts ex state ki =
     (case heap ex state of
        None \<Rightarrow> Inl UseAfterFree
      | Some st \<Rightarrow>
          (case eval opts ki 1 st of
             Inl e \<Rightarrow> Inl e
           | Inr None \<Rightarrow>
               (case eval opts ki 0 st of
                  Inl e \<Rightarrow> Inl e
                | Inr v \<Rightarrow> Inl NullDereference)
           | Inr (Some base) \<Rightarrow>
               (case eval opts ki 0 st of
                  Inl e \<Rightarrow> Inl e
                | Inr v \<Rightarrow>
                    if \<not> isConstant base then
                      symbolizeGlobals env state (filter trackedGlobal (globalAddresses opts))
                        (ex\<lparr>heap := (heap ex)(state \<mapsto>
                           st\<lparr>addressSpace := (addressSpace st)
                             \<lparr>WriteExploitCapability :=
                                recordWriteCapability
                                  (WriteExploitCapability (addressSpace st)) base v\<rparr>\<rparr>)\<rparr>)
                    else constantStore ex state ki base v)))"

section \<open>Entailment, and a concrete configuration\<close>

text \<open>
  An assignment satisfies a constraint store when every constraint evaluates to true; the
  store entails an expression when every assignment that satisfies it makes the
  expression true.
\<close>

definition satisfies :: "(string \<Rightarrow> nat \<Rightarrow> nat) \<Rightarrow> expr list \<Rightarrow> bool" where
  "satisfies a cs = (\<forall>c \<in> set cs. evalE a c = 1)"

definition entails :: "expr list \<Rightarrow> expr \<Rightarrow> bool" where
  "entails cs e = (\<forall>a. satisfies a cs \<longrightarrow> evalE a e = 1)"

text \<open>The store entails that the expression is false.\<close>

definition refutes :: "expr list \<Rightarrow> expr \<Rightarrow> bool" where
  "refutes cs e = (\<forall>a. satisfies a cs \<longrightarrow> evalE a e = 0)"

text \<open>The store entails that the expression has the value of the constant.\<close>

definition entailsValue :: "expr list \<Rightarrow> expr \<Rightarrow> constantExpr \<Rightarrow> bool" where
  "entailsValue cs e v = (\<forall>a. satisfies a cs \<longrightarrow> evalE a e = getZExtValue v)"

text \<open>
  A small configuration on which the definitions can be run: a solver that answers
  every validity query with "unknown" and every value query with zero, no optimizer, no
  objects, one state with one frame.
\<close>

definition sampleInfo :: InstructionInfo where
  "sampleInfo = \<lparr>info_file = ''test.c'', info_line = 7, info_assemblyLine = 21\<rparr>"

definition sampleKInstruction :: KInstruction where
  "sampleKInstruction =
     \<lparr>ki_inst = 0, ki_info = sampleInfo, ki_dest = 3, ki_operands = [2], ki_function = 0,
      ki_block = 0, ki_isPHI = False, ki_isInvoke = False, ki_normalDest = 0,
      ki_typeIsVoid = False, ki_typeWidth = 32, ki_retAttrSExt = False, ki_use_empty = False\<rparr>"

definition sampleEnv :: Env where
  "sampleEnv =
     \<lparr>solver_evaluate = (\<lambda>t cs e. Some SolverUnknown),
      solver_getValue = (\<lambda>t cs e. Some (CE (getWidth e) 0)),
      solver_mustBeTrue = (\<lambda>t cs e. Some False),
      solver_mustBeFalse = (\<lambda>t cs e. Some False),
      solver_mayBeTrue = (\<lambda>t cs e. Some True),
      solver_getRange = (\<lambda>t cs e. (ConstantExpr (getWidth e) 0, ConstantExpr (getWidth e) 0)),
      optimizeExpr = (\<lambda>e b. e),
      simplifyExpr = (\<lambda>cs e. e),
      resolveOne = (\<lambda>t st e. Some None),
      resolveOneConstant = (\<lambda>as c. None),
      resolve = (\<lambda>t st e. ([], False)),
      os_read = (\<lambda>os off w. ConstantExpr w 0),
      os_write = (\<lambda>os off v. os),
      replaceReadWithSymbolic = (\<lambda>st e. e),
      allocate = (\<lambda>size isLocal isGlobal allocSite alignment. None),
      getInt32 = (\<lambda>r. (r, Suc r)),
      getBool = (\<lambda>r. (even r, Suc r)),
      seed_evaluate = (\<lambda>s e. e),
      patchSeed = (\<lambda>s cs e. s),
      staticForkLimit = (\<lambda>ex sid. False),
      dumpStack = (\<lambda>st. []),
      printExpr = (\<lambda>e. []),
      printNat = (\<lambda>n. []),
      describeNeighbours = (\<lambda>as n. []),
      exploitConstraints = (\<lambda>ex sid name e. Inr ex),
      symbolizeGlobal = (\<lambda>ex sid name e. Inr ex),
      getAllocationAlignment = (\<lambda>allocSite. Inr 8),
      nme_req = (\<lambda>st mo. 4112),
      initialObjectState = (\<lambda>mo zero. \<lparr>os_readOnly = False,
         os_contents = replicate (mo_size mo) (ConstantExpr 8 0)\<rparr>)\<rparr>"

definition sampleOptions :: Options where
  "sampleOptions =
     \<lparr>MaxForks = 4294967295, MaxDepth = 0, MaxMemoryInhibit = True, OnlyReplaySeeds = False,
      EmitAllErrors = False, OnlyOutputStatesCoveringNew = False, AlwaysOutputSeeds = True,
      SimplifySymIndices = False, MaxSymArraySize = 0, MakeConcreteSymbolic = False,
      ExitOnErrorType = [], replayPath = None, replayKTest = False, pathWriter = False,
      symPathWriter = False, coreSolverTimeout = 0, pointerWidth = 64,
      n_heap_l = 4096, n_heap_h = 8192, internalFunctions = {}, legalFunctions = {100, 200},
      kinstAt = (\<lambda>p. sampleKInstruction), constantTable = Map.empty, basicBlockEntry = (\<lambda>f b. 0),
      getBasicBlockIndex = (\<lambda>i b. 0), instructionsOf = (\<lambda>f. []),
      isDbgInfoIntrinsic = (\<lambda>i. False), isInlineAsm = (\<lambda>i. False),
      getTargetFunction = (\<lambda>i. None), bitcastParams = (\<lambda>i f. None),
      paramHasSExt = (\<lambda>i n. False), operandName = (\<lambda>i. None),
      defaultIsHeap = False, globalAddresses = []\<rparr>"

definition sampleFrame :: StackFrame where
  "sampleFrame = \<lparr>sf_caller = None, sf_kf = 0, sf_locals = Map.empty, sf_allocas = []\<rparr>"

definition sampleState :: ExecutionState where
  "sampleState =
     \<lparr>pc = 1, prevPC = 0, stack = [sampleFrame], incomingBBIndex = 0,
      addressSpace = \<lparr>objects = Map.empty, WriteExploitCapability = []\<rparr>,
      constraints = [], depth = 0, forkDisabled = False, coveredNew = False,
      coveredLines = [], pathOS = [], symPathOS = []\<rparr>"

definition sampleExecutor :: Executor where
  "sampleExecutor =
     \<lparr>heap = [0 \<mapsto> sampleState], nextState = 1, states = [0], addedStates = [],
      removedStates = [], seedMap = Map.empty, forks = 0, theRNG = 0, replayPosition = 0,
      atMemoryLimit = False, inhibitForking = False, haltExecution = False, OnlySeed = False,
      solverTimeout = 0, emittedErrors = {}, testCases = [], pathsExplored = 0\<rparr>"

text \<open>One symbolic byte, and the condition that it is 42.\<close>

definition sampleByte :: expr where
  "sampleByte = ReadExpr ''x'' 0"

definition sampleCondition :: expr where
  "sampleCondition = EqExpr sampleByte (ConstantExpr 8 42)"

text \<open>The sample configuration with the fork budget used up, and with one seed.\<close>

definition budgetOptions :: Options where
  "budgetOptions = sampleOptions\<lparr>MaxForks := 0\<rparr>"

definition seedingExecutor :: Executor where
  "seedingExecutor = sampleExecutor\<lparr>seedMap := [0 \<mapsto> [[]]]\<rparr>"

text \<open>
  A stack is well formed when it has a frame and every frame but the outermost one
  records its call site.
\<close>

definition wellFormedStack :: "ExecutionState \<Rightarrow> bool" where
  "wellFormedStack st = (stack st \<noteq> [] \<and> (\<forall>f \<in> set (tl (stack st)). sf_caller f \<noteq> None))"

text \<open>The \<open>i\<close>-th byte of a value, the least significant one first.\<close>

definition byteOf :: "nat \<Rightarrow> nat \<Rightarrow> nat" where
  "byteOf v i = (v div 256 ^ i) mod 256"

text \<open>
  An address inside the native heap range of the sample options, one outside it, and an
  address that depends on the symbolic byte.
\<close>

definition heapAddress :: expr where
  "heapAddress = ConstantExpr 64 5000"

definition farAddress :: expr where
  "farAddress = ConstantExpr 64 10008"

definition symbolicAddress :: expr where
  "symbolicAddress = AddExpr (ConstantExpr 64 10000) (ZExtExpr sampleByte 64)"

definition ptrMessage :: string where
  "ptrMessage = ''exploit succeed: memory operation with symbolic addr''"

text \<open>The value of \<open>n\<close> bytes that are all \<open>b\<close>.\<close>

fun repeatedByte :: "nat \<Rightarrow> nat \<Rightarrow> nat" where
  "repeatedByte b 0 = 0"
| "repeatedByte b (Suc n) = b * 256 ^ n + repeatedByte b n"

definition boundsMessage :: string where
  "boundsMessage = ''++++++++++++++++++memory error: out of bound pointer''"

text \<open>The filler that a read outside every object binds: \<open>bytes\<close> bytes of \<open>0x88\<close>.\<close>

definition filler :: "nat \<Rightarrow> expr" where
  "filler bytes = ConcatExpr_createN (replicate bytes (ConstantExpr 8 136))"

text \<open>
  An engine in only-seed mode, and an object of eight bytes at address 10000 with its
  object state.
\<close>

definition onlySeedExecutor :: Executor where
  "onlySeedExecutor = sampleExecutor\<lparr>OnlySeed := True\<rparr>"

definition sampleObject :: MemoryObject where
  "sampleObject =
     \<lparr>mo_id = 1, mo_address = 10000, mo_size = 8, mo_isLocal = False, mo_isGlobal = False,
      mo_isHeap = True\<rparr>"

definition sampleObjectState :: ObjectState where
  "sampleObjectState = \<lparr>os_readOnly = False, os_contents = replicate 8 (ConstantExpr 8 0)\<rparr>"

text \<open>
  A state inside a call: the frame of the callee, entered from the call at address 5,
  holds the value 200 of width 8 in register 2, which the return instruction returns.
\<close>

definition calleeFrame :: StackFrame where
  "calleeFrame =
     \<lparr>sf_caller = Some 5, sf_kf = 1, sf_locals = [2 \<mapsto> ConstantExpr 8 200], sf_allocas = []\<rparr>"

definition callState :: ExecutionState where
  "callState = sampleState\<lparr>stack := [sampleFrame, calleeFrame]\<rparr>"

definition callExecutor :: Executor where
  "callExecutor = sampleExecutor\<lparr>heap := [0 \<mapsto> callState]\<rparr>"

definition voidReturn :: KInstruction where
  "voidReturn = sampleKInstruction\<lparr>ki_operands := []\<rparr>"

text \<open>
  A table of two functions, at the addresses 100 and 101, in an object of sixteen bytes at
  10000, indexed by the symbolic byte, which the path constrains to be 0 or 1. Register 2
  holds the address of the entry, \<open>10000 + 8 * index\<close>; the load instruction reads
  eight bytes through register 2 into register 3, and the call instruction calls through
  register 3. The solver answers the value query with 10000.
\<close>

definition tableAddress :: expr where
  "tableAddress =
     AddExpr (ConstantExpr 64 10000) (MulExpr (ConstantExpr 64 8) (ZExtExpr sampleByte 64))"

definition tableObject :: MemoryObject where
  "tableObject =
     \<lparr>mo_id = 2, mo_address = 10000, mo_size = 16, mo_isLocal = False, mo_isGlobal = True,
      mo_isHeap = False\<rparr>"

definition tableObjectState :: ObjectState where
  "tableObjectState =
     \<lparr>os_readOnly = False,
      os_contents = map (ConstantExpr 8) [100, 0, 0, 0, 0, 0, 0, 0, 101, 0, 0, 0, 0, 0, 0, 0]\<rparr>"

definition loadInstruction :: KInstruction where
  "loadInstruction = sampleKInstruction\<lparr>ki_typeWidth := 64\<rparr>"

definition callInstruction :: KInstruction where
  "callInstruction = sampleKInstruction\<lparr>ki_dest := 4, ki_operands := [3]\<rparr>"

definition tableEnv :: Env where
  "tableEnv = sampleEnv\<lparr>solver_getValue := (\<lambda>t cs e. Some (CE 64 10000))\<rparr>"

definition tableOptions :: Options where
  "tableOptions = sampleOptions\<lparr>legalFunctions := {100, 101}\<rparr>"

definition tableState :: ExecutionState where
  "tableState =
     sampleState\<lparr>addressSpace :=
                    \<lparr>objects = [tableObject \<mapsto> tableObjectState], WriteExploitCapability = []\<rparr>,
                  constraints := [UltExpr sampleByte (ConstantExpr 8 2)],
                  stack := [sampleFrame\<lparr>sf_locals := [2 \<mapsto> tableAddress]\<rparr>]\<rparr>"

definition tableExecutor :: Executor where
  "tableExecutor = sampleExecutor\<lparr>heap := [0 \<mapsto> tableState]\<rparr>"

text \<open>
  A function pointer that was made symbolic: the object of eight bytes at 10000 holds the
  bytes of the symbolic array \<open>fp\<close>, and the path constrains the pointer to be 100 or
  101. Register 2 holds the address 10000. A read of the object returns its bytes, the
  most significant one first; the solver proves what is the constant true and nothing
  else, and answers the value query with 100. \<open>pointerLoaded\<close> is the engine after the
  load: register 3 holds the symbolic pointer.
\<close>

definition pointerBytes :: "expr list" where
  "pointerBytes =
     [ReadExpr ''fp'' 0, ReadExpr ''fp'' 1, ReadExpr ''fp'' 2, ReadExpr ''fp'' 3,
      ReadExpr ''fp'' 4, ReadExpr ''fp'' 5, ReadExpr ''fp'' 6, ReadExpr ''fp'' 7]"

definition pointerValue :: expr where
  "pointerValue = ConcatExpr_createN (rev pointerBytes)"

definition pointerObjectState :: ObjectState where
  "pointerObjectState = \<lparr>os_readOnly = False, os_contents = pointerBytes\<rparr>"

fun contentsRead :: "ObjectState \<Rightarrow> expr \<Rightarrow> nat \<Rightarrow> expr" where
  "contentsRead os (ConstantExpr ow off) w =
     ConcatExpr_createN (rev (take (getMinBytesForWidth w) (drop off (os_contents os))))"
| "contentsRead os e w = ConstantExpr w 0"

definition pointerEnv :: Env where
  "pointerEnv =
     sampleEnv\<lparr>solver_getValue := (\<lambda>t cs e. Some (CE 64 100)),
               solver_mustBeTrue := (\<lambda>t cs e. Some (isTrue e)),
               resolveOne := (\<lambda>t st e. Some (Some (sampleObject, pointerObjectState))),
               os_read := contentsRead\<rparr>"

definition pointerState :: ExecutionState where
  "pointerState =
     sampleState\<lparr>addressSpace :=
                    \<lparr>objects = [sampleObject \<mapsto> pointerObjectState],
                     WriteExploitCapability = []\<rparr>,
                  constraints :=
                    [UltExpr (SubExpr pointerValue (ConstantExpr 64 100)) (ConstantExpr 64 2)],
                  stack := [sampleFrame\<lparr>sf_locals := [2 \<mapsto> ConstantExpr 64 10000]\<rparr>]\<rparr>"

definition pointerExecutor :: Executor where
  "pointerExecutor = sampleExecutor\<lparr>heap := [0 \<mapsto> pointerState]\<rparr>"

definition pointerLoaded :: Executor where
  "pointerLoaded =
     pointerExecutor\<lparr>heap := [0 \<mapsto> pointerState\<lparr>stack :=
        [sampleFrame\<lparr>sf_locals := [2 \<mapsto> ConstantExpr 64 10000, 3 \<mapsto> pointerValue]\<rparr>]\<rparr>]\<rparr>"

text \<open>
  Two call handlers: one that fails, so that a run that returns has called no function,
  and one that returns the engine as it is.
\<close>

definition failingCall :: CallHandler where
  "failingCall ex state ki f arguments = Inl (AssertionFailure ''callee executed'')"

definition returningCall :: CallHandler where
  "returningCall ex state ki f arguments = Inr ex"

text \<open>
  A store of the byte 1, entry 0 of the constant table, through register 2, which holds
  the address 10000 plus the symbolic byte: a store at a symbolic offset into the object
  of eight bytes at 10000, on a path where the offset is below 16. The handler for a
  constant address of this scenario fails, so that a run that returns has not called it.
\<close>

definition storeOptions :: Options where
  "storeOptions = sampleOptions\<lparr>constantTable := [0 \<mapsto> ConstantExpr 8 1]\<rparr>"

definition storeInstruction :: KInstruction where
  "storeInstruction = sampleKInstruction\<lparr>ki_operands := [- 2, 2]\<rparr>"

definition storeState :: ExecutionState where
  "storeState =
     sampleState\<lparr>addressSpace :=
                    \<lparr>objects = [sampleObject \<mapsto> sampleObjectState], WriteExploitCapability = []\<rparr>,
                  constraints := [UltExpr sampleByte (ConstantExpr 8 16)],
                  stack := [sampleFrame\<lparr>sf_locals := [2 \<mapsto> symbolicAddress]\<rparr>]\<rparr>"

definition storeExecutor :: Executor where
  "storeExecutor = sampleExecutor\<lparr>heap := [0 \<mapsto> storeState]\<rparr>"

definition failingStore :: StoreHandler where
  "failingStore ex state ki base v = Inl (AssertionFailure ''store at a constant address'')"

text \<open>The sample options with the output restricted to states that covered new code.\<close>

definition coveringOptions :: Options where
  "coveringOptions = sampleOptions\<lparr>OnlyOutputStatesCoveringNew := True\<rparr>"

section \<open>Basic facts\<close>

lemma EqExpr_create_nonconstant [simp]:
  "\<not> isConstant l \<Longrightarrow> EqExpr_create l r = EqExpr l r"
  by (cases l) simp_all

lemma EqExpr_create_nonconstant_right [simp]:
  "\<not> isConstant r \<Longrightarrow> EqExpr_create l r = EqExpr l r"
  by (cases l; cases r) simp_all

lemma createIsZero_nonconstant [simp]:
  "\<not> isConstant e \<Longrightarrow> createIsZero e = EqExpr e (ConstantExpr (getWidth e) 0)"
  by (simp add: createIsZero_def)

lemma isConstant_toExpr [simp]: "isConstant (toExpr v)"
  by (cases v) simp

lemma evalE_toExpr [simp]: "evalE a (toExpr v) = getZExtValue v"
  by (cases v) simp

lemma satisfies_append [simp]:
  "satisfies a (cs @ [c]) = (satisfies a cs \<and> evalE a c = 1)"
  by (auto simp: satisfies_def)

lemma patchSeeds_total:
  "(\<forall>s \<in> set seeds. solver_mustBeFalse env t cs (seed_evaluate env s c) \<noteq> None)
     \<Longrightarrow> \<exists>seeds'. patchSeeds env t cs c seeds = Inr seeds'"
  by (induction seeds) (auto split: option.splits sum.splits)

text \<open>
  Adding a constraint that is not a constant appends it to the store of the state, and
  changes the store of no other state.
\<close>

lemma addConstraint_nonconstant:
  assumes "addConstraint env ex sid c = Inr ex'" and "\<not> isConstant c"
  shows "\<exists>st. heap ex sid = Some st \<and>
               heap ex' = (heap ex)(sid \<mapsto> st\<lparr>constraints := constraints st @ [c]\<rparr>)"
  using assms
  by (auto simp: addConstraint_def ExecutionState_addConstraint_def
           split: option.splits sum.splits if_splits)

lemma addConstraint_constant:
  assumes "addConstraint env ex sid c = Inr ex'" and "isConstant c"
  shows "ex' = ex \<and> isTrue c"
  using assms by (auto simp: addConstraint_def split: if_splits)

lemma addConstraint_returns:
  assumes "heap ex sid = Some st" and "\<not> isConstant c"
      and "\<forall>seeds. seedMap ex sid = Some seeds \<longrightarrow>
             (\<forall>s \<in> set seeds.
                solver_mustBeFalse env (solverTimeout ex) (constraints st) (seed_evaluate env s c) \<noteq> None)"
  shows "\<exists>ex'. addConstraint env ex sid c = Inr ex'"
proof (cases "seedMap ex sid")
  case None
  then show ?thesis using assms by (simp add: addConstraint_def)
next
  case (Some seeds)
  with assms(3) obtain seeds' where
    "patchSeeds env (solverTimeout ex) (constraints st) c seeds = Inr seeds'"
    using patchSeeds_total by blast
  then show ?thesis using assms(1,2) Some by (simp add: addConstraint_def)
qed

section \<open>Forking\<close>

lemma addConstraint_frame:
  assumes "addConstraint env ex sid c = Inr ex'"
  shows "nextState ex' = nextState ex \<and> addedStates ex' = addedStates ex \<and>
         forks ex' = forks ex \<and> theRNG ex' = theRNG ex \<and>
         (\<forall>x. x \<noteq> sid \<longrightarrow> heap ex' x = heap ex x) \<and>
         (heap ex' sid = None \<longleftrightarrow> heap ex sid = None)"
  using assms
  by (auto simp: addConstraint_def split: option.splits sum.splits if_splits)

lemma fork_constrain_frame:
  assumes "fork_constrain env ex sid c side = Inr (res, ex')"
  shows "nextState ex' = nextState ex \<and> addedStates ex' = addedStates ex \<and>
         (\<forall>x. x \<noteq> sid \<longrightarrow> heap ex' x = heap ex x) \<and>
         (heap ex' sid = None \<longleftrightarrow> heap ex sid = None) \<and> res \<noteq> SolverUnknown"
  using assms addConstraint_frame [of env ex sid "if side then c else createIsZero c"]
  by (auto simp: fork_constrain_def split: sum.splits if_splits)

lemma fork_static_result:
  assumes "fork_static env ex current c = Inr (c', ex')"
  shows "(c' = c \<or> isConstant c') \<and> nextState ex' = nextState ex \<and>
         (\<forall>x. x \<noteq> current \<longrightarrow> heap ex' x = heap ex x) \<and>
         (heap ex' current = None \<longleftrightarrow> heap ex current = None)"
proof (cases "seedMap ex current = None \<and> \<not> isConstant c \<and> staticForkLimit env ex current")
  case False
  then show ?thesis using assms by (auto simp: fork_static_def)
next
  case True
  then obtain st v ex1 where
    "heap ex current = Some st"
    "solver_getValue env (solverTimeout ex) (constraints st) c = Some v"
    "addConstraint env ex current (EqExpr_create (toExpr v) c) = Inr ex1"
    "c' = toExpr v" "ex' = ex1"
    using assms by (auto simp: fork_static_def split: option.splits sum.splits)
  then show ?thesis
    using addConstraint_frame [of env ex current "EqExpr_create (toExpr v) c" ex1] by simp
qed

lemma fork_decide_frame:
  assumes "fork_decide env opts ex current c isInternal res = Inr (res', ex')"
  shows "nextState ex' = nextState ex \<and>
         (\<forall>x. x \<noteq> current \<longrightarrow> heap ex' x = heap ex x) \<and>
         (heap ex' current = None \<longleftrightarrow> heap ex current = None)"
  using assms
  by (auto simp: fork_decide_def Let_def
           split: if_splits option.splits Validity.splits
           dest!: fork_constrain_frame)

lemma fork_seedFix_frame:
  assumes "fork_seedFix env opts ex current c res = Inr (res', ex')"
  shows "nextState ex' = nextState ex \<and>
         (\<forall>x. x \<noteq> current \<longrightarrow> heap ex' x = heap ex x) \<and>
         (heap ex' current = None \<longleftrightarrow> heap ex current = None)"
  using assms
  by (auto simp: fork_seedFix_def split: if_splits option.splits sum.splits
           dest!: fork_constrain_frame)

lemma fork_seeds_constraints:
  assumes "fork_seeds env ex t f c tst fst' = Inr (tst', fst'', ex')"
  shows "constraints tst' = constraints tst \<and> constraints fst'' = constraints fst' \<and>
         heap ex' = heap ex \<and> solverTimeout ex' = solverTimeout ex"
  using assms
  by (auto simp: fork_seeds_def split: option.splits sum.splits if_splits)

lemma fork_paths_constraints:
  "constraints (fst (fork_paths opts isInternal tst fst')) = constraints tst \<and>
   constraints (snd (fork_paths opts isInternal tst fst')) = constraints fst'"
  by (simp add: fork_paths_def Let_def)

text \<open>
  When the end of a real fork returns two states, the condition is not a constant, and
  the stores of the two states have grown by the condition and by its negation.
\<close>

lemma fork_both_two:
  assumes r: "fork_both env opts ex t0 f0 c = Inr ((Some t, Some f), ex')"
      and ne: "t0 \<noteq> f0"
  shows "\<not> isConstant c \<and> t = t0 \<and> f = f0 \<and>
         (\<exists>tst fst'. heap ex t0 = Some tst \<and> heap ex f0 = Some fst' \<and>
            heap ex' t0 = Some (tst\<lparr>constraints := constraints tst @ [c]\<rparr>) \<and>
            heap ex' f0 = Some (fst'\<lparr>constraints := constraints fst' @ [createIsZero c]\<rparr>))"
proof -
  from r obtain ex4 where a1: "addConstraint env ex t0 c = Inr ex4"
    by (auto simp: fork_both_def split: sum.splits)
  from r a1 obtain ex5 where a2: "addConstraint env ex4 f0 (createIsZero c) = Inr ex5"
    by (auto simp: fork_both_def split: sum.splits)
  from r a1 a2 have res: "t = t0 \<and> f = f0 \<and> ex' = ex5"
    by (auto simp: fork_both_def split: option.splits if_splits sum.splits)
  have nc: "\<not> isConstant c"
  proof
    assume c: "isConstant c"
    then obtain w v where cv: "c = ConstantExpr w v" by (cases c) simp_all
    from addConstraint_constant [OF a1 c] have "w = 1" "v = 1" using cv by simp_all
    then have z: "createIsZero c = ConstantExpr 1 0" using cv by (simp add: createIsZero_def)
    from addConstraint_constant [OF a2] z show False by simp
  qed
  then have nz: "\<not> isConstant (createIsZero c)" by simp
  from addConstraint_nonconstant [OF a1 nc] obtain tst where
    t: "heap ex t0 = Some tst"
       "heap ex4 = (heap ex)(t0 \<mapsto> tst\<lparr>constraints := constraints tst @ [c]\<rparr>)"
    by blast
  from addConstraint_nonconstant [OF a2 nz] obtain fst' where
    f: "heap ex4 f0 = Some fst'"
       "heap ex5 = (heap ex4)(f0 \<mapsto> fst'\<lparr>constraints := constraints fst' @ [createIsZero c]\<rparr>)"
    by blast
  show ?thesis using nc res t f ne by auto
qed

text \<open>
  When the last block of \<open>fork\<close> returns two states, the condition was not a constant,
  the true state is the current one, the false state is new, and their stores are the
  store of the current state with the condition, respectively its negation, appended.
\<close>

lemma fork_split_two:
  assumes r: "fork_split env opts ex current c isInternal res = Inr ((Some t, Some f), ex')"
      and live: "heap ex current = Some st"
      and fresh: "heap ex (nextState ex) = None"
  shows "\<not> isConstant c \<and> t = current \<and> f = nextState ex \<and>
         (\<exists>tst fst'. heap ex' t = Some tst \<and> heap ex' f = Some fst' \<and>
            constraints tst = constraints st @ [c] \<and>
            constraints fst' = constraints st @ [createIsZero c])"
proof -
  have ne: "current \<noteq> nextState ex" using live fresh by auto
  from r live have u: "res = SolverUnknown"
    by (cases res) (auto simp: fork_split_def split: if_splits)
  let ?ex1 = "ex\<lparr>forks := Suc (forks ex), nextState := Suc (nextState ex),
                  addedStates := addedStates ex @ [nextState ex]\<rparr>"
  from r live u obtain tst0 fst0 ex2 where
    s: "fork_seeds env ?ex1 current (nextState ex) c
          (fst (ExecutionState_branch st)) (snd (ExecutionState_branch st)) = Inr (tst0, fst0, ex2)"
    by (auto simp: fork_split_def split: sum.splits)
  have cs: "constraints tst0 = constraints st" "constraints fst0 = constraints st"
    using fork_seeds_constraints [OF s] by (simp_all add: ExecutionState_branch_def)
  let ?ex3 = "ex2\<lparr>heap := (heap ex2)
                 (current \<mapsto> fst (fork_paths opts isInternal tst0 fst0),
                  nextState ex \<mapsto> snd (fork_paths opts isInternal tst0 fst0))\<rparr>"
  from r live u s have b: "fork_both env opts ?ex3 current (nextState ex) c
                             = Inr ((Some t, Some f), ex')"
    by (simp add: fork_split_def)
  from fork_both_two [OF b ne] ne cs fork_paths_constraints [of opts isInternal tst0 fst0]
  show ?thesis by auto
qed

text \<open>
  C4. Whenever \<open>fork\<close> returns two states, the store of the true state contains the
  condition and entails it, and the store of the false state contains the negation of the
  condition and entails that the condition is false. The true state is the state that
  was forked, and its store is the store it had before with the condition appended. The
  only assumption is that the address the new state is allocated at is not in use.
\<close>

theorem fork_constrains_both_branches:
  assumes r: "fork env opts ex current c isInternal = Inr ((Some t, Some f), ex')"
      and fresh: "heap ex (nextState ex) = None"
  shows "\<exists>st tst fst'. heap ex current = Some st \<and> t = current \<and> f = nextState ex \<and>
           heap ex' t = Some tst \<and> heap ex' f = Some fst' \<and>
           constraints tst = constraints st @ [c] \<and>
           constraints fst' = constraints st @ [createIsZero c] \<and>
           entails (constraints tst) c \<and> refutes (constraints fst') c"
proof -
  from r obtain c1 ex1 where s: "fork_static env ex current c = Inr (c1, ex1)"
    by (auto simp: fork_def split: sum.splits)
  from r s obtain st1 where l1: "heap ex1 current = Some st1"
    by (auto simp: fork_def split: option.splits)
  let ?t = "case seedMap ex1 current of None \<Rightarrow> coreSolverTimeout opts
            | Some seeds \<Rightarrow> coreSolverTimeout opts * length seeds"
  from r s l1 obtain res where e: "solver_evaluate env ?t (constraints st1) c1 = Some res"
    by (auto simp: fork_def split: option.splits sum.splits)
  from r s l1 e obtain res1 ex2 res2 ex3 where
    d: "fork_decide env opts (ex1\<lparr>solverTimeout := 0\<rparr>) current c1 isInternal res = Inr (res1, ex2)" and
    x: "fork_seedFix env opts ex2 current c1 res1 = Inr (res2, ex3)" and
    p: "fork_split env opts ex3 current c1 isInternal res2 = Inr ((Some t, Some f), ex')"
    by (auto simp: fork_def split: sum.splits)
  from p obtain st3 where l3: "heap ex3 current = Some st3"
    by (auto simp: fork_split_def split: option.splits)
  have n: "nextState ex3 = nextState ex"
    using fork_static_result [OF s] fork_decide_frame [OF d] fork_seedFix_frame [OF x] by simp
  have live: "heap ex current \<noteq> None"
    using fork_static_result [OF s] l1 by auto
  then have ne: "nextState ex \<noteq> current" using fresh by auto
  have f3: "heap ex3 (nextState ex3) = None"
    using fork_static_result [OF s] fork_decide_frame [OF d] fork_seedFix_frame [OF x]
      fresh ne n by simp
  from fork_split_two [OF p l3 f3] n obtain tst fst' where
    nc: "\<not> isConstant c1" and tf: "t = current" "f = nextState ex" and
    h: "heap ex' t = Some tst" "heap ex' f = Some fst'" and
    cs: "constraints tst = constraints st3 @ [c1]"
        "constraints fst' = constraints st3 @ [createIsZero c1]"
    by auto
  have c1: "c1 = c" using fork_static_result [OF s] nc by auto
  then have same: "ex1 = ex"
    using s nc by (auto simp: fork_static_def split: if_splits option.splits sum.splits)
  have unk: "res2 = SolverUnknown"
    using p l3 by (cases res2) (auto simp: fork_split_def split: if_splits)
  have unk1: "res1 = SolverUnknown \<and> heap ex3 = heap ex2"
    using x unk
    by (auto simp: fork_seedFix_def split: if_splits option.splits sum.splits
             dest!: fork_constrain_frame)
  have "heap ex2 = heap ex"
    using d unk1 same
    by (auto simp: fork_decide_def Let_def split: if_splits option.splits Validity.splits
             dest!: fork_constrain_frame)
  then have st3: "heap ex current = Some st3" using unk1 l3 by simp
  have "entails (constraints st3 @ [c]) c"
    by (simp add: entails_def)
  moreover have "refutes (constraints st3 @ [createIsZero c]) c"
    using nc c1 by (auto simp: refutes_def split: if_splits)
  ultimately show ?thesis using st3 tf h cs c1 by simp
qed

lemma sample_fork_forks:
  "\<exists>ex'. fork sampleEnv sampleOptions sampleExecutor 0 sampleCondition False
           = Inr ((Some 0, Some 1), ex')"
  by (simp add: fork_def fork_static_def fork_decide_def fork_seedFix_def fork_split_def fork_both_def fork_paths_def
        fork_seeds_def forkInhibited_def maxForksReached_def addConstraint_def
        ExecutionState_branch_def ExecutionState_addConstraint_def createIsZero_def
        sampleEnv_def sampleExecutor_def sampleOptions_def sampleState_def
        sampleCondition_def sampleByte_def Let_def)

theorem fork_constrains_both_branches_witness:
  "\<exists>ex' tst fst'. fork sampleEnv sampleOptions sampleExecutor 0 sampleCondition False
       = Inr ((Some 0, Some 1), ex') \<and>
     heap ex' 0 = Some tst \<and> heap ex' 1 = Some fst' \<and>
     entails (constraints tst) sampleCondition \<and> refutes (constraints fst') sampleCondition"
proof -
  obtain ex' where r: "fork sampleEnv sampleOptions sampleExecutor 0 sampleCondition False
       = Inr ((Some 0, Some 1), ex')"
    using sample_fork_forks by blast
  have fresh: "heap sampleExecutor (nextState sampleExecutor) = None"
    by (simp add: sampleExecutor_def)
  show ?thesis
    using fork_constrains_both_branches [OF r fresh] r by auto
qed

section \<open>The fork budget\<close>

lemma branch_constrain_nones:
  "branch_constrain env ex (replicate m None) ds = Inr ex"
proof (induction m arbitrary: ds)
  case 0
  then show ?case by simp
next
  case (Suc m)
  then show ?case by (cases ds) simp_all
qed

lemma branch_constrain_replicate:
  "k < length conds \<Longrightarrow>
   branch_constrain env ex (replicate k None @ Some s # replicate m None) conds
     = addConstraint env ex s (conds ! k)"
proof (induction k arbitrary: conds)
  case 0
  then show ?case
    by (cases conds) (simp_all add: branch_constrain_nones split: sum.splits)
next
  case (Suc k)
  then show ?case by (cases conds) simp_all
qed

lemma one_entry:
  "k < N \<Longrightarrow>
   map (\<lambda>i. if i = k then Some s else None) [0..<N]
     = replicate k None @ Some s # replicate (N - Suc k) None"
  by (auto intro!: nth_equalityI simp: nth_append nth_Cons')

lemma branch_constrain_single:
  assumes "k < length conds"
  shows "branch_constrain env ex
           (map (\<lambda>i. if i = k then Some s else None) [0..<length conds]) conds
         = addConstraint env ex s (conds ! k)"
  using assms by (simp add: one_entry branch_constrain_replicate)

text \<open>
  C5, as amended. \<open>fork\<close> on a live state that is not seeding, with a condition that
  is not a constant, when the static fork limit does not apply to the state, the solver
  finds the validity of the condition unknown, the replay path does not apply (there is
  none, or the fork is internal), no test is being replayed, and forking is inhibited
  (fork budget exhausted, memory cap reached under max-memory-inhibit, forking disabled
  on the state or for the whole engine): no state is created, and exactly one branch
  is returned, the true side when the random number generator's \<open>getBool\<close> says so,
  else the false side, with the condition of that side appended to the store of the
  current state. \<open>branch\<close> on a live state that is not seeding, with the fork budget
  exhausted, over a list of \<open>N > 0\<close> conditions of which the one at index
  \<open>getInt32 mod N\<close> is not a constant: exactly one entry is not null, the current
  state at that index, with the condition of that index added to it.
\<close>

theorem fork_budget_exhausted:
  assumes live: "heap ex current = Some st"
      and notSeeding: "seedMap ex current = None"
  shows "(\<not> isConstant c \<and> \<not> staticForkLimit env ex current \<and>
          solver_evaluate env (coreSolverTimeout opts) (constraints st) c = Some SolverUnknown \<and>
          (replayPath opts = None \<or> isInternal) \<and> \<not> replayKTest opts \<and>
          forkInhibited opts ex st
          \<longrightarrow> (\<exists>ex' st'.
                 fork env opts ex current c isInternal =
                   Inr (if fst (getBool env (theRNG ex)) then (Some current, None)
                        else (None, Some current), ex') \<and>
                 heap ex' current = Some st' \<and>
                 constraints st' = constraints st @
                   [if fst (getBool env (theRNG ex)) then c else createIsZero c] \<and>
                 theRNG ex' = snd (getBool env (theRNG ex)) \<and>
                 nextState ex' = nextState ex \<and> addedStates ex' = addedStates ex \<and>
                 forks ex' = forks ex)) \<and>
         (maxForksReached opts ex \<and> conditions \<noteq> [] \<and>
          \<not> isConstant (conditions ! (fst (getInt32 env (theRNG ex)) mod length conditions))
          \<longrightarrow> (\<exists>ex' st'.
                 branch env opts ex current conditions =
                   Inr (map (\<lambda>i. if i = fst (getInt32 env (theRNG ex)) mod length conditions
                                  then Some current else None) [0..<length conditions], ex') \<and>
                 heap ex' current = Some st' \<and>
                 constraints st' = constraints st @
                   [conditions ! (fst (getInt32 env (theRNG ex)) mod length conditions)] \<and>
                 theRNG ex' = snd (getInt32 env (theRNG ex)) \<and>
                 nextState ex' = nextState ex \<and> addedStates ex' = addedStates ex \<and>
                 forks ex' = forks ex))"
proof (intro conjI impI)
  assume h: "\<not> isConstant c \<and> \<not> staticForkLimit env ex current \<and>
          solver_evaluate env (coreSolverTimeout opts) (constraints st) c = Some SolverUnknown \<and>
          (replayPath opts = None \<or> isInternal) \<and> \<not> replayKTest opts \<and>
          forkInhibited opts ex st"
  let ?b = "fst (getBool env (theRNG ex))"
  let ?c = "if ?b then c else createIsZero c"
  let ?ex1 = "ex\<lparr>solverTimeout := 0, theRNG := snd (getBool env (theRNG ex))\<rparr>"
  let ?st' = "st\<lparr>constraints := constraints st @ [?c]\<rparr>"
  let ?ex2 = "?ex1\<lparr>heap := (heap ex)(current \<mapsto> ?st')\<rparr>"
  have s: "fork_static env ex current c = Inr (c, ex)"
    using h by (simp add: fork_static_def)
  have nc: "\<not> isConstant ?c" using h by simp
  have a: "addConstraint env ?ex1 current ?c = Inr ?ex2"
    using live notSeeding nc
    by (simp add: addConstraint_def ExecutionState_addConstraint_def del: createIsZero_nonconstant)
  have d: "fork_decide env opts (ex\<lparr>solverTimeout := 0\<rparr>) current c isInternal SolverUnknown
             = Inr (if ?b then SolverTrue else SolverFalse, ?ex2)"
    using h live notSeeding a
    by (auto simp: fork_decide_def fork_constrain_def forkInhibited_def maxForksReached_def)
  have x: "fork_seedFix env opts ?ex2 current c (if ?b then SolverTrue else SolverFalse)
             = Inr (if ?b then SolverTrue else SolverFalse, ?ex2)"
    using notSeeding by (simp add: fork_seedFix_def)
  obtain ex' where
    p: "fork_split env opts ?ex2 current c isInternal (if ?b then SolverTrue else SolverFalse)
          = Inr (if ?b then (Some current, None) else (None, Some current), ex')" and
    e: "\<exists>st'. heap ex' current = Some st' \<and> constraints st' = constraints ?st'"
       "theRNG ex' = theRNG ?ex2" "nextState ex' = nextState ex"
       "addedStates ex' = addedStates ex" "forks ex' = forks ex"
    by (cases ?b; cases "\<not> isInternal \<and> pathWriter opts") (auto simp: fork_split_def)
  have "fork env opts ex current c isInternal
          = Inr (if ?b then (Some current, None) else (None, Some current), ex')"
    using s live notSeeding h d x p by (simp add: fork_def)
  then show "\<exists>ex' st'.
               fork env opts ex current c isInternal =
                 Inr (if ?b then (Some current, None) else (None, Some current), ex') \<and>
               heap ex' current = Some st' \<and> constraints st' = constraints st @ [?c] \<and>
               theRNG ex' = snd (getBool env (theRNG ex)) \<and>
               nextState ex' = nextState ex \<and> addedStates ex' = addedStates ex \<and>
               forks ex' = forks ex"
    using e by auto
next
  let ?N = "length conditions"
  let ?next = "fst (getInt32 env (theRNG ex)) mod ?N"
  assume h: "maxForksReached opts ex \<and> conditions \<noteq> [] \<and> \<not> isConstant (conditions ! ?next)"
  let ?ex1 = "ex\<lparr>theRNG := snd (getInt32 env (theRNG ex))\<rparr>"
  let ?st' = "st\<lparr>constraints := constraints st @ [conditions ! ?next]\<rparr>"
  let ?ex2 = "?ex1\<lparr>heap := (heap ex)(current \<mapsto> ?st')\<rparr>"
  let ?result = "map (\<lambda>i. if i = ?next then Some current else None) [0..<?N]"
  have lt: "?next < ?N" using h by simp
  have a: "addConstraint env ?ex1 current (conditions ! ?next) = Inr ?ex2"
    using live notSeeding h
    by (simp add: addConstraint_def ExecutionState_addConstraint_def)
  have "branch_constrain env ?ex1 ?result conditions = Inr ?ex2"
    using branch_constrain_single [of ?next conditions env ?ex1 current] lt a
    by simp
  then have "branch env opts ex current conditions = Inr (?result, ?ex2)"
    using h notSeeding by (simp add: branch_def)
  then show "\<exists>ex' st'.
               branch env opts ex current conditions = Inr (?result, ex') \<and>
               heap ex' current = Some st' \<and>
               constraints st' = constraints st @ [conditions ! ?next] \<and>
               theRNG ex' = snd (getInt32 env (theRNG ex)) \<and>
               nextState ex' = nextState ex \<and> addedStates ex' = addedStates ex \<and>
               forks ex' = forks ex"
    by simp
qed

theorem fork_budget_exhausted_witness:
  "(\<exists>ex' st'. fork sampleEnv budgetOptions sampleExecutor 0 sampleCondition False
       = Inr ((Some 0, None), ex') \<and>
      heap ex' 0 = Some st' \<and> constraints st' = [sampleCondition] \<and>
      nextState ex' = 1 \<and> addedStates ex' = []) \<and>
   (\<exists>ex' st'. branch sampleEnv budgetOptions sampleExecutor 0
                 [sampleCondition, createIsZero sampleCondition]
       = Inr ([Some 0, None], ex') \<and>
      heap ex' 0 = Some st' \<and> constraints st' = [sampleCondition] \<and>
      nextState ex' = 1 \<and> addedStates ex' = [])"
proof -
  have live: "heap sampleExecutor 0 = Some sampleState"
    by (simp add: sampleExecutor_def)
  have notSeeding: "seedMap sampleExecutor 0 = None"
    by (simp add: sampleExecutor_def)
  have budget: "maxForksReached budgetOptions sampleExecutor"
    by (simp add: maxForksReached_def budgetOptions_def sampleOptions_def sampleExecutor_def)
  have nc: "\<not> isConstant sampleCondition"
    by (simp add: sampleCondition_def)
  have rng: "getBool sampleEnv (theRNG sampleExecutor) = (True, 1)"
            "getInt32 sampleEnv (theRNG sampleExecutor) = (0, 1)"
    by (simp_all add: sampleEnv_def sampleExecutor_def)
  have h1: "\<not> isConstant sampleCondition \<and> \<not> staticForkLimit sampleEnv sampleExecutor 0 \<and>
      solver_evaluate sampleEnv (coreSolverTimeout budgetOptions) (constraints sampleState)
        sampleCondition = Some SolverUnknown \<and>
      (replayPath budgetOptions = None \<or> False) \<and> \<not> replayKTest budgetOptions \<and>
      forkInhibited budgetOptions sampleExecutor sampleState"
    using nc budget
    by (simp add: sampleEnv_def budgetOptions_def sampleOptions_def forkInhibited_def)
  have h2: "maxForksReached budgetOptions sampleExecutor \<and>
      [sampleCondition, createIsZero sampleCondition] \<noteq> [] \<and>
      \<not> isConstant ([sampleCondition, createIsZero sampleCondition] !
          (fst (getInt32 sampleEnv (theRNG sampleExecutor)) mod
           length [sampleCondition, createIsZero sampleCondition]))"
    using nc budget rng by simp
  have facts: "constraints sampleState = []" "nextState sampleExecutor = 1"
      "addedStates sampleExecutor = []"
    by (simp_all add: sampleState_def sampleExecutor_def)
  have l: "[0..<length [sampleCondition, createIsZero sampleCondition]] = [0, 1]"
    by (simp add: upt_rec)
  show ?thesis
    using fork_budget_exhausted [OF live notSeeding, of sampleCondition sampleEnv budgetOptions
        False "[sampleCondition, createIsZero sampleCondition]"] h1 h2
    unfolding l by (simp add: rng facts) blast
qed

text \<open>
  C5 as stated fails for a seeding state. With the fork budget used up and the validity
  unknown, \<open>fork\<close> on a state that has a seed still forks and returns two branches: the
  test of the budget is made only for a state that is not seeding. With
  only-replay-seeds, \<open>branch\<close> on such a state returns no branch at all when the seed
  does not fall on the entry that was kept. And while a test is replayed, \<open>fork\<close> on a
  state that is not seeding stops at an assertion before it looks at the budget.
\<close>

theorem fork_budget_counterexample:
  "maxForksReached budgetOptions seedingExecutor \<and>
   solver_evaluate sampleEnv (coreSolverTimeout budgetOptions) [] sampleCondition
     = Some SolverUnknown \<and>
   map_sum id fst (fork sampleEnv budgetOptions seedingExecutor 0 sampleCondition False)
     = Inr (Some 0, Some 1) \<and>
   map_sum id fst (branch sampleEnv (budgetOptions\<lparr>OnlyReplaySeeds := True\<rparr>) seedingExecutor 0
                     [sampleCondition, createIsZero sampleCondition])
     = Inr [None, None] \<and>
   fork sampleEnv (budgetOptions\<lparr>replayKTest := True\<rparr>) sampleExecutor 0 sampleCondition False
     = Inl (AssertionFailure ''in replay mode, only one branch can be true.'')"
  by (simp add: fork_def fork_static_def fork_decide_def fork_seedFix_def fork_split_def
        fork_both_def fork_paths_def fork_seeds_def forkInhibited_def maxForksReached_def
        addConstraint_def ExecutionState_branch_def ExecutionState_addConstraint_def
        createIsZero_def branch_def terminateState_def
        sampleEnv_def sampleExecutor_def sampleOptions_def sampleState_def
        sampleCondition_def sampleByte_def budgetOptions_def seedingExecutor_def Let_def
        upt_rec)

section \<open>Terminating a state: what changes\<close>

lemma windUpStack_returns:
  "\<forall>f \<in> set fs. sf_caller f \<noteq> None \<Longrightarrow> \<exists>r. windUpStack opts fs ii = Inr r"
  by (induction fs arbitrary: ii) (auto split: option.splits)

lemma getLastNonKleeInternalInstruction_returns:
  assumes "wellFormedStack st"
  shows "\<exists>ii lastInst. getLastNonKleeInternalInstruction opts st = Inr (ii, lastInst)"
proof -
  from assms obtain fr below where s: "rev (stack st) = fr # below"
    by (cases "rev (stack st)") (auto simp: wellFormedStack_def)
  have "butlast (rev (stack st)) = rev (tl (stack st))"
    by (simp add: butlast_rev)
  then have "\<forall>f \<in> set (butlast (fr # below)). sf_caller f \<noteq> None"
    using assms s by (simp add: wellFormedStack_def)
  then obtain r where "windUpStack opts (butlast (fr # below))
      (if sf_kf fr \<notin> internalFunctions opts
       then Some (ki_info (kinstAt opts (prevPC st)), ki_inst (kinstAt opts (prevPC st)))
       else None) = Inr r"
    using windUpStack_returns by blast
  then show ?thesis
    using s by (cases r) (auto simp: getLastNonKleeInternalInstruction_def)
qed

lemma terminateState_effect:
  assumes "terminateState ex sid = Inr ex'"
  shows "(if sid \<in> set (addedStates ex)
          then heap ex' = (heap ex)(sid := None) \<and> removedStates ex' = removedStates ex
          else (\<exists>st. heap ex sid = Some st \<and> heap ex' = (heap ex)(sid \<mapsto> st\<lparr>pc := prevPC st\<rparr>)) \<and>
               removedStates ex' = removedStates ex @ [sid]) \<and>
         nextState ex' = nextState ex \<and> testCases ex' = testCases ex \<and>
         OnlySeed ex' = OnlySeed ex \<and> states ex' = states ex"
  using assms by (auto simp: terminateState_def Let_def split: if_splits option.splits)

lemma terminateState_returns:
  "heap ex sid = Some st \<Longrightarrow> \<exists>ex'. terminateState ex sid = Inr ex'"
  by (simp add: terminateState_def Let_def)

lemma terminateStateOnError_returns:
  assumes "heap ex sid = Some st" and "wellFormedStack st"
  shows "\<exists>ex'. terminateStateOnError env opts ex sid message reason suffix info = Inr ex'"
proof -
  obtain ii lastInst where g: "getLastNonKleeInternalInstruction opts st = Inr (ii, lastInst)"
    using getLastNonKleeInternalInstruction_returns [OF assms(2)] by blast
  show ?thesis
    using assms(1) g
    by (auto simp: terminateStateOnError_def terminateState_def processTestCase_def Let_def)
qed

text \<open>
  Terminating a state on an error removes that state and touches no other: the state
  loses its place in the engine (deleted, if it was added in this step, else queued in
  \<open>removedStates\<close> with its program counter reset), every other state is as it was, and
  no state is created.
\<close>

lemma terminateStateOnError_effect:
  assumes "terminateStateOnError env opts ex sid message reason suffix info = Inr ex'"
  shows "(if sid \<in> set (addedStates ex)
          then heap ex' = (heap ex)(sid := None) \<and> removedStates ex' = removedStates ex
          else (\<exists>st. heap ex sid = Some st \<and> heap ex' = (heap ex)(sid \<mapsto> st\<lparr>pc := prevPC st\<rparr>)) \<and>
               removedStates ex' = removedStates ex @ [sid]) \<and>
         nextState ex' = nextState ex \<and> OnlySeed ex' = OnlySeed ex \<and> states ex' = states ex"
proof -
  from assms obtain ex2 ex3 where
    t: "terminateState ex2 sid = Inr ex3" and
    e: "heap ex2 = heap ex" "addedStates ex2 = addedStates ex"
       "removedStates ex2 = removedStates ex" "nextState ex2 = nextState ex"
       "OnlySeed ex2 = OnlySeed ex" "states ex2 = states ex" and
    r: "heap ex' = heap ex3" "removedStates ex' = removedStates ex3"
       "nextState ex' = nextState ex3" "OnlySeed ex' = OnlySeed ex3" "states ex' = states ex3"
    by (auto simp: terminateStateOnError_def processTestCase_def Let_def
             split: option.splits sum.splits if_splits)
  show ?thesis using terminateState_effect [OF t] e r by (auto split: if_splits)
qed

lemma terminateStateOnError_testCase:
  assumes "terminateStateOnError env opts ex sid message reason None info = Inr ex'"
      and "EmitAllErrors opts"
  shows "\<exists>m. testCases ex' = testCases ex @
           [\<lparr>tc_state = sid, tc_message = Some m,
             tc_suffix = Some (TerminateReasonNames reason @ ''.err'')\<rparr>]"
  using assms
  by (auto simp: terminateStateOnError_def processTestCase_def Let_def
           dest!: terminateState_effect split: option.splits sum.splits if_splits)

lemma terminateStateOnError_diagnostic:
  assumes live: "heap ex sid = Some st"
      and loc: "getLastNonKleeInternalInstruction opts st = Inr (ii, lastInst)"
      and t: "terminateStateOnError env opts ex sid message reason suffix info = Inr ex'"
  shows "testCases ex' =
           (if EmitAllErrors opts \<or> (lastInst, message) \<notin> emittedErrors ex
            then testCases ex @
                   [\<lparr>tc_state = sid, tc_message = Some (errorMessage env st ii message info),
                     tc_suffix = Some (case suffix of
                                         None \<Rightarrow> TerminateReasonNames reason @ ''.err''
                                       | Some s \<Rightarrow> s)\<rparr>]
            else testCases ex)"
  using assms
  by (auto simp: terminateStateOnError_def terminateState_def processTestCase_def Let_def
           split: option.splits sum.splits if_splits)

section \<open>Memory operations\<close>

lemma errorMessage_unused:
  "errorMessage (env\<lparr>os_read := rd, os_write := wr\<rparr>) st ii message info
     = errorMessage env st ii message info"
  by (simp add: errorMessage_def)

lemma getAddressInfo_returns:
  assumes "isConstant address \<or>
           solver_getValue env (solverTimeout ex) (constraints st) address \<noteq> None"
  shows "\<exists>info. getAddressInfo env ex st address = Inr info"
  using assms by (cases address) (auto simp: getAddressInfo_def split: option.splits)

lemma getAddressInfo_symbolic:
  assumes "\<not> isConstant address"
      and "solver_getValue env (solverTimeout ex) (constraints st) address = Some val"
  shows "getAddressInfo env ex st address =
           Inr (tab @ ''address: '' @ printExpr env address @ newline @
                tab @ ''example: '' @ printNat env (getZExtValue val) @ newline @
                tab @ ''range: ['' @
                printExpr env (fst (solver_getRange env (solverTimeout ex) (constraints st) address)) @
                '', '' @
                printExpr env (snd (solver_getRange env (solverTimeout ex) (constraints st) address)) @
                '']'' @ newline @
                describeNeighbours env (addressSpace st) (getZExtValue val mod 2 ^ 32))"
  using assms by (cases address) (simp_all add: getAddressInfo_def)

lemma getAddressInfo_constant:
  "getAddressInfo env ex st (ConstantExpr w a) =
     Inr (tab @ ''address: '' @ printExpr env (ConstantExpr w a) @ newline @
          describeNeighbours env (addressSpace st) (a mod 2 ^ 32))"
  by (simp add: getAddressInfo_def)

text \<open>
  The check at the head of \<open>executeMemoryOperation\<close>: an address that is not a constant
  ends the state with the pointer error, whatever the access is. Nothing is forked, and
  the object-state read and write operations play no part in the result.
\<close>

lemma symbolic_address_guard:
  assumes nc: "\<not> isConstant address" and live: "heap ex state = Some st"
      and wf: "wellFormedStack st"
      and answers: "solver_getValue env (solverTimeout ex) (constraints st) address \<noteq> None"
  shows "\<exists>info ex'. getAddressInfo env ex st address = Inr info \<and>
           terminateStateOnError env opts ex state ptrMessage Ptr None info = Inr ex' \<and>
           executeMemoryOperation env opts ex state isWrite address v target = Inr ex' \<and>
           (\<forall>rd wr. executeMemoryOperation (env\<lparr>os_read := rd, os_write := wr\<rparr>) opts ex state
                       isWrite address v target = Inr ex')"
proof -
  obtain info where i: "getAddressInfo env ex st address = Inr info"
    using getAddressInfo_returns answers by blast
  obtain ex' where t: "terminateStateOnError env opts ex state ptrMessage Ptr None info = Inr ex'"
    using terminateStateOnError_returns [OF live wf] by blast
  have m: "executeMemoryOperation env opts ex state isWrite address v target = Inr ex'"
    using nc live i t by (simp add: executeMemoryOperation_def ptrMessage_def Let_def)
  have "\<And>rd wr. getAddressInfo (env\<lparr>os_read := rd, os_write := wr\<rparr>) ex st address
                   = getAddressInfo env ex st address"
    by (cases address) (simp_all add: getAddressInfo_def split: option.splits)
  moreover have "\<And>rd wr. terminateStateOnError (env\<lparr>os_read := rd, os_write := wr\<rparr>) opts ex
                   state ptrMessage Ptr None info
                   = terminateStateOnError env opts ex state ptrMessage Ptr None info"
    by (simp add: terminateStateOnError_def errorMessage_unused Let_def
          split: option.splits sum.splits prod.splits)
  ultimately have "\<And>rd wr. executeMemoryOperation (env\<lparr>os_read := rd, os_write := wr\<rparr>) opts ex
                     state isWrite address v target = Inr ex'"
    using nc live i t by (simp add: executeMemoryOperation_def ptrMessage_def Let_def)
  then show ?thesis using i t m by blast
qed

lemma symbolic_address_report:
  assumes nc: "\<not> isConstant address" and live: "heap ex state = Some st"
      and wf: "wellFormedStack st"
      and answers: "solver_getValue env (solverTimeout ex) (constraints st) address \<noteq> None"
  shows "\<exists>val ii lastInst info ex'.
           solver_getValue env (solverTimeout ex) (constraints st) address = Some val \<and>
           getLastNonKleeInternalInstruction opts st = Inr (ii, lastInst) \<and>
           info = tab @ ''address: '' @ printExpr env address @ newline @
                  tab @ ''example: '' @ printNat env (getZExtValue val) @ newline @
                  tab @ ''range: ['' @
                  printExpr env
                    (fst (solver_getRange env (solverTimeout ex) (constraints st) address)) @
                  '', '' @
                  printExpr env
                    (snd (solver_getRange env (solverTimeout ex) (constraints st) address)) @
                  '']'' @ newline @
                  describeNeighbours env (addressSpace st) (getZExtValue val mod 2 ^ 32) \<and>
           getAddressInfo env ex st address = Inr info \<and>
           executeMemoryOperation env opts ex state isWrite address v target = Inr ex' \<and>
           terminateStateOnError env opts ex state ptrMessage Ptr None info = Inr ex' \<and>
           testCases ex' =
             (if EmitAllErrors opts \<or> (lastInst, ptrMessage) \<notin> emittedErrors ex
              then testCases ex @
                     [\<lparr>tc_state = state,
                       tc_message = Some
                         (''Error: '' @ ''exploit succeed: memory operation with symbolic addr'' @
                          newline @
                          (if info_file ii \<noteq> []
                           then ''File: '' @ info_file ii @ newline @
                                ''Line: '' @ printNat env (info_line ii) @ newline @
                                ''assembly.ll line: '' @ printNat env (info_assemblyLine ii) @
                                newline
                           else []) @
                          ''Stack: '' @ newline @ dumpStack env st @
                          ''Info: '' @ newline @ info),
                       tc_suffix = Some ''ptr.err''\<rparr>]
              else testCases ex) \<and>
           (if state \<in> set (addedStates ex) then heap ex' state = None
            else state \<in> set (removedStates ex')) \<and>
           nextState ex' = nextState ex \<and>
           (\<forall>s st'. heap ex' s = Some st' \<longrightarrow>
              (\<exists>st0. heap ex s = Some st0 \<and> addressSpace st' = addressSpace st0 \<and>
                 stack st' = stack st0 \<and> constraints st' = constraints st0)) \<and>
           (\<forall>rd wr. executeMemoryOperation (env\<lparr>os_read := rd, os_write := wr\<rparr>) opts ex state
                       isWrite address v target = Inr ex')"
proof -
  from answers obtain val where
    val: "solver_getValue env (solverTimeout ex) (constraints st) address = Some val"
    by blast
  obtain ii lastInst where
    loc: "getLastNonKleeInternalInstruction opts st = Inr (ii, lastInst)"
    using getLastNonKleeInternalInstruction_returns [OF wf] by blast
  define info where "info =
      tab @ ''address: '' @ printExpr env address @ newline @
      tab @ ''example: '' @ printNat env (getZExtValue val) @ newline @
      tab @ ''range: ['' @
      printExpr env (fst (solver_getRange env (solverTimeout ex) (constraints st) address)) @
      '', '' @
      printExpr env (snd (solver_getRange env (solverTimeout ex) (constraints st) address)) @
      '']'' @ newline @
      describeNeighbours env (addressSpace st) (getZExtValue val mod 2 ^ 32)"
  have i: "getAddressInfo env ex st address = Inr info"
    unfolding info_def by (rule getAddressInfo_symbolic [OF nc val])
  have ne: "info \<noteq> []" by (simp add: info_def tab_def)
  from symbolic_address_guard [OF nc live wf answers, of opts isWrite v target] i
  obtain ex' where
    t: "terminateStateOnError env opts ex state ptrMessage Ptr None info = Inr ex'" and
    m: "executeMemoryOperation env opts ex state isWrite address v target = Inr ex'" and
    ind: "\<forall>rd wr. executeMemoryOperation (env\<lparr>os_read := rd, os_write := wr\<rparr>) opts ex state
                     isWrite address v target = Inr ex'"
    by auto
  note e = terminateStateOnError_effect [OF t]
  have gone: "if state \<in> set (addedStates ex) then heap ex' state = None
              else state \<in> set (removedStates ex')"
    using e by (auto split: if_splits)
  have same: "\<forall>s st'. heap ex' s = Some st' \<longrightarrow>
      (\<exists>st0. heap ex s = Some st0 \<and> addressSpace st' = addressSpace st0 \<and>
         stack st' = stack st0 \<and> constraints st' = constraints st0)"
    using e by (auto split: if_splits)
  have tc: "testCases ex' =
             (if EmitAllErrors opts \<or> (lastInst, ptrMessage) \<notin> emittedErrors ex
              then testCases ex @
                     [\<lparr>tc_state = state,
                       tc_message = Some
                         (''Error: '' @ ''exploit succeed: memory operation with symbolic addr'' @
                          newline @
                          (if info_file ii \<noteq> []
                           then ''File: '' @ info_file ii @ newline @
                                ''Line: '' @ printNat env (info_line ii) @ newline @
                                ''assembly.ll line: '' @ printNat env (info_assemblyLine ii) @
                                newline
                           else []) @
                          ''Stack: '' @ newline @ dumpStack env st @
                          ''Info: '' @ newline @ info),
                       tc_suffix = Some ''ptr.err''\<rparr>]
              else testCases ex)"
    using terminateStateOnError_diagnostic [OF live loc t] ne
    by (simp add: errorMessage_def ptrMessage_def)
  have n: "nextState ex' = nextState ex" using e by simp
  show ?thesis
    apply (rule exI [of _ val], rule exI [of _ ii], rule exI [of _ lastInst],
           rule exI [of _ info], rule exI [of _ ex'])
    using val loc i m t tc gone n same ind info_def by blast
qed

text \<open>
  C1. When the address is not a constant, \<open>executeMemoryOperation\<close> terminates the
  state through \<open>terminateStateOnError\<close> with reason \<open>Ptr\<close> and returns. The
  diagnostic is the test case of the state with the suffix \<open>ptr.err\<close> and the message
  "exploit succeed: memory operation with symbolic addr", followed by the location, the
  stack and the description of the address (the address, an example value from the
  solver, its range, the neighbouring objects); as for every error, it is written unless
  the same message was already emitted at the same instruction and not all errors are
  emitted. The state is deleted or queued for removal; no state is created; the address
  space and the registers of every state are as before, and the result is the same
  whatever the object-state read and write operations are, so none was performed. The
  solver is taken to answer the value query that the diagnostic text asks for (see C9 for
  the other case).
\<close>

theorem symbolic_address_terminates:
  assumes nc: "\<not> isConstant address" and live: "heap ex state = Some st"
      and wf: "wellFormedStack st"
      and answers: "solver_getValue env (solverTimeout ex) (constraints st) address \<noteq> None"
  shows "\<exists>val ii lastInst info ex'.
           solver_getValue env (solverTimeout ex) (constraints st) address = Some val \<and>
           getLastNonKleeInternalInstruction opts st = Inr (ii, lastInst) \<and>
           info = tab @ ''address: '' @ printExpr env address @ newline @
                  tab @ ''example: '' @ printNat env (getZExtValue val) @ newline @
                  tab @ ''range: ['' @
                  printExpr env
                    (fst (solver_getRange env (solverTimeout ex) (constraints st) address)) @
                  '', '' @
                  printExpr env
                    (snd (solver_getRange env (solverTimeout ex) (constraints st) address)) @
                  '']'' @ newline @
                  describeNeighbours env (addressSpace st) (getZExtValue val mod 2 ^ 32) \<and>
           getAddressInfo env ex st address = Inr info \<and>
           executeMemoryOperation env opts ex state isWrite address v target = Inr ex' \<and>
           terminateStateOnError env opts ex state ptrMessage Ptr None info = Inr ex' \<and>
           testCases ex' =
             (if EmitAllErrors opts \<or> (lastInst, ptrMessage) \<notin> emittedErrors ex
              then testCases ex @
                     [\<lparr>tc_state = state,
                       tc_message = Some
                         (''Error: '' @ ''exploit succeed: memory operation with symbolic addr'' @
                          newline @
                          (if info_file ii \<noteq> []
                           then ''File: '' @ info_file ii @ newline @
                                ''Line: '' @ printNat env (info_line ii) @ newline @
                                ''assembly.ll line: '' @ printNat env (info_assemblyLine ii) @
                                newline
                           else []) @
                          ''Stack: '' @ newline @ dumpStack env st @
                          ''Info: '' @ newline @ info),
                       tc_suffix = Some ''ptr.err''\<rparr>]
              else testCases ex) \<and>
           (if state \<in> set (addedStates ex) then heap ex' state = None
            else state \<in> set (removedStates ex')) \<and>
           nextState ex' = nextState ex \<and>
           (\<forall>s st'. heap ex' s = Some st' \<longrightarrow>
              (\<exists>st0. heap ex s = Some st0 \<and> addressSpace st' = addressSpace st0 \<and>
                 stack st' = stack st0 \<and> constraints st' = constraints st0)) \<and>
           (\<forall>rd wr. executeMemoryOperation (env\<lparr>os_read := rd, os_write := wr\<rparr>) opts ex state
                       isWrite address v target = Inr ex')"
  using symbolic_address_report [OF nc live wf answers] .

theorem symbolic_address_terminates_witness:
  "\<exists>ex'. executeMemoryOperation sampleEnv sampleOptions sampleExecutor 0 True symbolicAddress
            (ConstantExpr 8 1) sampleKInstruction = Inr ex' \<and>
          testCases ex' =
            [\<lparr>tc_state = 0,
              tc_message = Some
                (''Error: exploit succeed: memory operation with symbolic addr'' @ newline @
                 ''File: test.c'' @ newline @ ''Line: '' @ newline @
                 ''assembly.ll line: '' @ newline @ ''Stack: '' @ newline @
                 ''Info: '' @ newline @ tab @ ''address: '' @ newline @
                 tab @ ''example: '' @ newline @ tab @ ''range: [, ]'' @ newline),
              tc_suffix = Some ''ptr.err''\<rparr>] \<and>
          0 \<in> set (removedStates ex') \<and> nextState ex' = 1 \<and>
          (\<forall>s st'. heap ex' s = Some st' \<longrightarrow>
             (\<exists>st0. heap sampleExecutor s = Some st0 \<and> addressSpace st' = addressSpace st0 \<and>
                stack st' = stack st0 \<and> constraints st' = constraints st0))"
proof -
  have nc: "\<not> isConstant symbolicAddress" by (simp add: symbolicAddress_def)
  have live: "heap sampleExecutor 0 = Some sampleState" by (simp add: sampleExecutor_def)
  have wf: "wellFormedStack sampleState" by (simp add: wellFormedStack_def sampleState_def)
  have answers: "solver_getValue sampleEnv (solverTimeout sampleExecutor)
                   (constraints sampleState) symbolicAddress \<noteq> None"
    by (simp add: sampleEnv_def)
  have loc: "getLastNonKleeInternalInstruction sampleOptions sampleState = Inr (sampleInfo, 0)"
    by (simp add: getLastNonKleeInternalInstruction_def sampleState_def sampleOptions_def
          sampleKInstruction_def)
  have facts: "0 \<notin> set (addedStates sampleExecutor)" "nextState sampleExecutor = 1"
      "testCases sampleExecutor = []" "emittedErrors sampleExecutor = {}"
      "info_file sampleInfo = ''test.c''"
      "printNat sampleEnv = (\<lambda>n. [])" "printExpr sampleEnv = (\<lambda>e. [])"
      "dumpStack sampleEnv = (\<lambda>st. [])" "describeNeighbours sampleEnv = (\<lambda>s n. [])"
    by (simp_all add: sampleExecutor_def sampleInfo_def sampleEnv_def)
  from symbolic_address_terminates [OF nc live wf answers, of sampleOptions True
        "ConstantExpr 8 1" sampleKInstruction]
  obtain ex' where
    "executeMemoryOperation sampleEnv sampleOptions sampleExecutor 0 True symbolicAddress
            (ConstantExpr 8 1) sampleKInstruction = Inr ex'"
    "testCases ex' =
            [\<lparr>tc_state = 0,
              tc_message = Some
                (''Error: exploit succeed: memory operation with symbolic addr'' @ newline @
                 ''File: test.c'' @ newline @ ''Line: '' @ newline @
                 ''assembly.ll line: '' @ newline @ ''Stack: '' @ newline @
                 ''Info: '' @ newline @ tab @ ''address: '' @ newline @
                 tab @ ''example: '' @ newline @ tab @ ''range: [, ]'' @ newline),
              tc_suffix = Some ''ptr.err''\<rparr>]"
    "0 \<in> set (removedStates ex')" "nextState ex' = 1"
    "\<forall>s st'. heap ex' s = Some st' \<longrightarrow>
             (\<exists>st0. heap sampleExecutor s = Some st0 \<and> addressSpace st' = addressSpace st0 \<and>
                stack st' = stack st0 \<and> constraints st' = constraints st0)"
    unfolding loc by (auto simp: facts)
  then show ?thesis by blast
qed


section \<open>Accesses that no object bounds\<close>

lemma repeatedByte_less: "b < 256 \<Longrightarrow> repeatedByte b n < 256 ^ n"
proof (induction n)
  case 0
  then show ?case by simp
next
  case (Suc n)
  define m :: nat where "m = 256 ^ n"
  have "b \<le> 255" using Suc.prems by simp
  then have "b * m \<le> 255 * m" by (rule mult_right_mono) simp
  moreover have "repeatedByte b n < m" using Suc by (simp add: m_def)
  ultimately have "b * m + repeatedByte b n < 256 * m" by linarith
  then show ?case by (simp only: m_def power_Suc repeatedByte.simps)
qed

lemma byteOf_top:
  assumes "r < 256 ^ n" and "b < 256"
  shows "(b * 256 ^ n + r) div 256 ^ n mod 256 = (b::nat)"
proof -
  have "(b * 256 ^ n + r) div 256 ^ n = b" using assms(1) by simp
  then show ?thesis using assms(2) by simp
qed

lemma byteOf_below:
  assumes "i < n"
  shows "(b * 256 ^ n + r) div 256 ^ i mod 256 = r div 256 ^ i mod (256::nat)"
proof -
  from assms obtain k where "n = Suc (i + k)" by (auto dest: less_imp_Suc_add)
  then have k: "n = i + Suc k" by simp
  define m :: nat where "m = 256 ^ i"
  define c :: nat where "c = b * 256 ^ k"
  have m: "m \<noteq> 0" by (simp add: m_def)
  have e: "b * 256 ^ n = (c * 256) * m"
    unfolding k m_def c_def by (simp only: power_add power_Suc ac_simps)
  have "((c * 256) * m + r) div m = c * 256 + r div m"
    by (rule div_mult_self3) (rule m)
  then have "(b * 256 ^ n + r) div m mod 256 = (c * 256 + r div m) mod 256"
    by (simp only: e)
  also have "\<dots> = r div m mod 256" by (rule mod_mult_self3)
  finally show ?thesis by (simp only: m_def)
qed

lemma byteOf_repeatedByte:
  "b < 256 \<Longrightarrow> i < n \<Longrightarrow> byteOf (repeatedByte b n) i = b"
proof (induction n)
  case 0
  then show ?case by simp
next
  case (Suc n)
  show ?case
  proof (cases "i = n")
    case True
    then show ?thesis
      using byteOf_top [OF repeatedByte_less [OF Suc.prems(1)] Suc.prems(1), of n]
      by (simp only: byteOf_def repeatedByte.simps)
  next
    case False
    then have i: "i < n" using Suc.prems by simp
    show ?thesis
      using byteOf_below [OF i, of b "repeatedByte b n"] Suc.IH [OF Suc.prems(1) i]
      by (simp only: byteOf_def repeatedByte.simps)
  qed
qed

lemma createN_replicate:
  "ConcatExpr_createN (replicate (Suc n) (ConstantExpr 8 b))
     = ConstantExpr (8 * Suc n) (repeatedByte b (Suc n))"
proof (induction n)
  case 0
  then show ?case by simp
next
  case (Suc n)
  have "ConcatExpr_createN (replicate (Suc (Suc n)) (ConstantExpr 8 b))
          = ConcatExpr_create (ConstantExpr 8 b)
              (ConcatExpr_createN (replicate (Suc n) (ConstantExpr 8 b)))"
    by simp
  also have "\<dots> = ConstantExpr (8 + 8 * Suc n) (b * 2 ^ (8 * Suc n) + repeatedByte b (Suc n))"
    by (simp only: Suc.IH ConcatExpr_create.simps)
  also have "(2::nat) ^ (8 * Suc n) = 256 ^ Suc n"
    by (simp only: power_mult) simp
  finally show ?case by (simp only: repeatedByte.simps mult_Suc_right)
qed

lemma filler_value: "filler n = ConstantExpr (8 * n) (repeatedByte 136 n)"
  by (cases n) (simp_all only: filler_def createN_replicate, simp_all)

lemma unboundAccess_inside:
  assumes "\<not> OnlySeed ex" and "n_heap_l opts < a" and "a \<le> n_heap_h opts"
  shows "unboundAccess env opts ex state unbound isWrite (ConstantExpr w a) target bytes
           = (if isWrite then Inr ex else bindLocal ex target unbound (filler bytes))"
  using assms by (simp add: unboundAccess_def filler_def)

lemma unboundAccess_outside:
  assumes "\<not> OnlySeed ex" and "a \<le> n_heap_l opts \<or> n_heap_h opts < a"
      and "heap ex unbound = Some ust"
      and "getAddressInfo env ex ust (ConstantExpr w a) = Inr info"
      and "terminateStateOnError env opts ex unbound boundsMessage Ptr None info = Inr ex2"
  shows "unboundAccess env opts ex state unbound isWrite (ConstantExpr w a) target bytes
           = (if isWrite then Inr ex2 else bindLocal ex2 target unbound (filler bytes))"
  using assms by (auto simp: unboundAccess_def filler_def boundsMessage_def)

lemma errorPath_no_object:
  assumes "heap ex state = Some st"
      and "optimizeExpr env address True = ConstantExpr w a"
      and "resolve env (coreSolverTimeout opts) st (ConstantExpr w a) = ([], False)"
  shows "errorPath env opts ex state isWrite address v target type bytes
           = unboundAccess env opts (ex\<lparr>solverTimeout := 0\<rparr>) state state isWrite
               (ConstantExpr w a) target bytes"
  using assms by (simp add: errorPath_def)

lemma executeMemoryOperation_no_object:
  assumes "heap ex state = Some st"
      and "optimizeExpr env (ConstantExpr w a) True = ConstantExpr w a"
      and "resolveOne env (coreSolverTimeout opts) st (ConstantExpr w a) = Some None"
      and "resolve env (coreSolverTimeout opts) st (ConstantExpr w a) = ([], False)"
  shows "executeMemoryOperation env opts ex state isWrite (ConstantExpr w a) v target
           = unboundAccess env opts (ex\<lparr>solverTimeout := 0\<rparr>) state state isWrite
               (ConstantExpr w a) target
               (getMinBytesForWidth (if isWrite then getWidth v else ki_typeWidth target))"
  using assms
  by (simp add: executeMemoryOperation_def resolveFirst_def errorPath_def Let_def)


text \<open>
  C3, as amended. With only-seed mode off, when a constant address resolves to no object
  (\<open>resolveOne\<close> finds none and the resolution list is empty and complete) and the
  address lies in the native heap range, above \<open>n_heap_l\<close> and at most \<open>n_heap_h\<close>,
  the state is not terminated and no test case is written. A write returns with the
  engine as it was, but for the solver timeout being reset. A read binds to the
  destination register the constant of \<open>bytes\<close> bytes whose bytes are all \<open>0x88\<close>,
  where \<open>bytes\<close> is the least number of bytes that hold the width of the access, and
  changes nothing else.
\<close>

theorem native_heap_access:
  assumes live: "heap ex state = Some st"
      and frames: "stack st \<noteq> []"
      and opt: "optimizeExpr env (ConstantExpr w a) True = ConstantExpr w a"
      and none: "resolveOne env (coreSolverTimeout opts) st (ConstantExpr w a) = Some None"
      and norl: "resolve env (coreSolverTimeout opts) st (ConstantExpr w a) = ([], False)"
      and noSeed: "\<not> OnlySeed ex"
      and inHeap: "n_heap_l opts < a \<and> a \<le> n_heap_h opts"
  shows "\<exists>ex'. executeMemoryOperation env opts ex state isWrite (ConstantExpr w a) v target
                  = Inr ex' \<and>
           removedStates ex' = removedStates ex \<and> addedStates ex' = addedStates ex \<and>
           testCases ex' = testCases ex \<and> haltExecution ex' = haltExecution ex \<and>
           (\<forall>s. s \<noteq> state \<longrightarrow> heap ex' s = heap ex s) \<and>
           (if isWrite then ex' = ex\<lparr>solverTimeout := 0\<rparr>
            else heap ex' state = Some (st\<lparr>stack := butlast (stack st) @
                   [(last (stack st))\<lparr>sf_locals := (sf_locals (last (stack st)))
                      (ki_dest target \<mapsto>
                         ConstantExpr (8 * getMinBytesForWidth (ki_typeWidth target))
                           (repeatedByte 136 (getMinBytesForWidth (ki_typeWidth target))))\<rparr>]\<rparr>) \<and>
                 (\<forall>i < getMinBytesForWidth (ki_typeWidth target).
                    byteOf (repeatedByte 136 (getMinBytesForWidth (ki_typeWidth target))) i = 136))"
proof -
  let ?bytes = "getMinBytesForWidth (if isWrite then getWidth v else ki_typeWidth target)"
  let ?ex0 = "ex\<lparr>solverTimeout := 0\<rparr>"
  have ns: "\<not> OnlySeed ?ex0" using noSeed by simp
  have m: "executeMemoryOperation env opts ex state isWrite (ConstantExpr w a) v target
             = (if isWrite then Inr ?ex0 else bindLocal ?ex0 target state (filler ?bytes))"
    using executeMemoryOperation_no_object [OF live opt none norl, of isWrite v target]
      unboundAccess_inside [OF ns, of opts a env state state isWrite w target ?bytes] inHeap
    by simp
  show ?thesis
  proof (cases isWrite)
    case True
    then show ?thesis using m by simp
  next
    case False
    then show ?thesis
      using m live frames
      by (simp add: bindLocal_def filler_value byteOf_repeatedByte)
  qed
qed

theorem native_heap_access_witness:
  "(\<exists>ex'. executeMemoryOperation sampleEnv sampleOptions sampleExecutor 0 True heapAddress
             (ConstantExpr 8 1) sampleKInstruction = Inr ex' \<and>
           removedStates ex' = [] \<and> ex' = sampleExecutor\<lparr>solverTimeout := 0\<rparr>) \<and>
   (\<exists>ex' st'. executeMemoryOperation sampleEnv sampleOptions sampleExecutor 0 False heapAddress
             (ConstantExpr 8 1) sampleKInstruction = Inr ex' \<and>
           removedStates ex' = [] \<and> heap ex' 0 = Some st' \<and>
           sf_locals (last (stack st')) 3 = Some (ConstantExpr 32 (repeatedByte 136 4)))"
proof -
  have live: "heap sampleExecutor 0 = Some sampleState" by (simp add: sampleExecutor_def)
  have frames: "stack sampleState \<noteq> []" by (simp add: sampleState_def)
  have opt: "optimizeExpr sampleEnv (ConstantExpr 64 5000) True = ConstantExpr 64 5000"
    by (simp add: sampleEnv_def)
  have none: "resolveOne sampleEnv (coreSolverTimeout sampleOptions) sampleState
                (ConstantExpr 64 5000) = Some None"
    by (simp add: sampleEnv_def)
  have norl: "resolve sampleEnv (coreSolverTimeout sampleOptions) sampleState
                (ConstantExpr 64 5000) = ([], False)"
    by (simp add: sampleEnv_def)
  have noSeed: "\<not> OnlySeed sampleExecutor" by (simp add: sampleExecutor_def)
  have inHeap: "n_heap_l sampleOptions < 5000 \<and> 5000 \<le> n_heap_h sampleOptions"
    by (simp add: sampleOptions_def)
  have facts: "removedStates sampleExecutor = []" "ki_dest sampleKInstruction = 3"
      "getMinBytesForWidth (ki_typeWidth sampleKInstruction) = 4"
    by (simp_all add: sampleExecutor_def sampleKInstruction_def getMinBytesForWidth_def)
  show ?thesis
    using native_heap_access [OF live frames opt none norl noSeed inHeap, of True
            "ConstantExpr 8 1" sampleKInstruction]
          native_heap_access [OF live frames opt none norl noSeed inHeap, of False
            "ConstantExpr 8 1" sampleKInstruction]
    by (auto simp: facts heapAddress_def)
qed

text \<open>
  C3 as stated fails in only-seed mode: before it looks at the heap range, the code leaves
  seed mode by terminating every state of the engine that has no seeds, the state of the
  access among them.
\<close>

theorem native_heap_access_counterexample:
  "resolveOne sampleEnv (coreSolverTimeout sampleOptions) sampleState heapAddress = Some None \<and>
   resolve sampleEnv (coreSolverTimeout sampleOptions) sampleState heapAddress = ([], False) \<and>
   n_heap_l sampleOptions < 5000 \<and> 5000 \<le> n_heap_h sampleOptions \<and>
   map_sum id removedStates
     (executeMemoryOperation sampleEnv sampleOptions onlySeedExecutor 0 True heapAddress
        (ConstantExpr 8 1) sampleKInstruction) = Inr [0]"
  by (simp add: executeMemoryOperation_def resolveFirst_def errorPath_def unboundAccess_def
        terminateState_def onlySeedExecutor_def sampleEnv_def sampleOptions_def
        sampleExecutor_def sampleState_def heapAddress_def Let_def)


lemma terminateStateOnError_added:
  assumes "terminateStateOnError env opts ex sid message reason suffix info = Inr ex'"
  shows "addedStates ex' = remove1 sid (addedStates ex)"
  using assms
  by (auto simp: terminateStateOnError_def terminateState_def processTestCase_def Let_def
                 remove1_idem
           split: option.splits sum.splits if_splits)

section \<open>Out-of-bounds pointers\<close>

lemma executeStore_symbolic:
  assumes live: "heap ex state = Some st"
      and base: "eval opts ki 1 st = Inr (Some base)" and nc: "\<not> isConstant base"
      and val: "eval opts ki 0 st = Inr v"
      and globals: "filter trackedGlobal (globalAddresses opts) = []"
  shows "executeStore constantStore env opts ex state ki =
           Inr (ex\<lparr>heap := (heap ex)(state \<mapsto>
                  st\<lparr>addressSpace := (addressSpace st)
                    \<lparr>WriteExploitCapability :=
                       (if base \<in> fst ` set (WriteExploitCapability (addressSpace st))
                        then WriteExploitCapability (addressSpace st)
                        else WriteExploitCapability (addressSpace st) @ [(base, v)])\<rparr>\<rparr>)\<rparr>)"
  using assms by (simp add: executeStore_def recordWriteCapability_def)

text \<open>
  C2, as amended. On the slow path of a live state, with an address that the optimizer
  leaves a constant, a complete resolution and only-seed mode off, the state that remains
  unbound after the forks (live, with a well-formed stack) is terminated with reason
  \<open>Ptr\<close> when the address lies outside the native heap range (at most \<open>n_heap_l\<close>, or
  above \<open>n_heap_h\<close>): its test case has the suffix \<open>ptr.err\<close> and the message of the
  out-of-bounds pointer with the description of the address, and is written unless the
  same message was already emitted at the same instruction and not all errors are
  emitted; a write then returns, and a read goes on to bind the filler bytes to the
  register of the terminated state. Inside the range the state is not terminated (C3).
  A store whose address is not a constant, such as a one-byte store at a symbolic offset
  into an object of eight bytes, does not reach \<open>executeMemoryOperation\<close>: in a module
  without tracked global pointers the \<open>Store\<close> handler records the address and the
  value as a write capability of the state, unless the address is recorded already, and
  leaves. No state is forked, none is terminated, no test case is written and no object
  is written, whatever the handler does for a constant address.
\<close>

theorem out_of_bounds_pointer:
  assumes live: "heap ex state = Some st"
  shows "(optimizeExpr env address True = ConstantExpr w a \<and>
          resolveLoop env opts isWrite (ConstantExpr w a) v target type bytes
            (ex\<lparr>solverTimeout := 0\<rparr>) state
            (fst (resolve env (coreSolverTimeout opts) st (ConstantExpr w a)))
            = Inr (Some unbound, ex1) \<and>
          \<not> snd (resolve env (coreSolverTimeout opts) st (ConstantExpr w a)) \<and>
          \<not> OnlySeed ex1 \<and> heap ex1 unbound = Some ust \<and> wellFormedStack ust \<and>
          (a \<le> n_heap_l opts \<or> n_heap_h opts < a)
          \<longrightarrow> (\<exists>ii lastInst info ex2.
                 getLastNonKleeInternalInstruction opts ust = Inr (ii, lastInst) \<and>
                 info = tab @ ''address: '' @ printExpr env (ConstantExpr w a) @ newline @
                        describeNeighbours env (addressSpace ust) (a mod 2 ^ 32) \<and>
                 getAddressInfo env ex1 ust (ConstantExpr w a) = Inr info \<and>
                 terminateStateOnError env opts ex1 unbound boundsMessage Ptr None info = Inr ex2 \<and>
                 errorPath env opts ex state isWrite address v target type bytes
                   = (if isWrite then Inr ex2
                      else bindLocal ex2 target unbound (filler bytes)) \<and>
                 testCases ex2 =
                   (if EmitAllErrors opts \<or> (lastInst, boundsMessage) \<notin> emittedErrors ex1
                    then testCases ex1 @
                           [\<lparr>tc_state = unbound,
                             tc_message = Some
                               (''Error: '' @
                                ''++++++++++++++++++memory error: out of bound pointer'' @
                                newline @
                                (if info_file ii \<noteq> []
                                 then ''File: '' @ info_file ii @ newline @
                                      ''Line: '' @ printNat env (info_line ii) @ newline @
                                      ''assembly.ll line: '' @
                                      printNat env (info_assemblyLine ii) @ newline
                                 else []) @
                                ''Stack: '' @ newline @ dumpStack env ust @
                                ''Info: '' @ newline @ info),
                             tc_suffix = Some ''ptr.err''\<rparr>]
                    else testCases ex1) \<and>
                 (if unbound \<in> set (addedStates ex1) then heap ex2 unbound = None
                  else unbound \<in> set (removedStates ex2)))) \<and>
         (eval opts ki 1 st = Inr (Some base) \<and> \<not> isConstant base \<and>
          eval opts ki 0 st = Inr stored \<and>
          filter trackedGlobal (globalAddresses opts) = []
          \<longrightarrow> executeStore constantStore env opts ex state ki =
                 Inr (ex\<lparr>heap := (heap ex)(state \<mapsto>
                        st\<lparr>addressSpace := (addressSpace st)
                          \<lparr>WriteExploitCapability :=
                             (if base \<in> fst ` set (WriteExploitCapability (addressSpace st))
                              then WriteExploitCapability (addressSpace st)
                              else WriteExploitCapability (addressSpace st) @
                                     [(base, stored)])\<rparr>\<rparr>)\<rparr>))"
proof (intro conjI impI)
  assume h: "optimizeExpr env address True = ConstantExpr w a \<and>
          resolveLoop env opts isWrite (ConstantExpr w a) v target type bytes
            (ex\<lparr>solverTimeout := 0\<rparr>) state
            (fst (resolve env (coreSolverTimeout opts) st (ConstantExpr w a)))
            = Inr (Some unbound, ex1) \<and>
          \<not> snd (resolve env (coreSolverTimeout opts) st (ConstantExpr w a)) \<and>
          \<not> OnlySeed ex1 \<and> heap ex1 unbound = Some ust \<and> wellFormedStack ust \<and>
          (a \<le> n_heap_l opts \<or> n_heap_h opts < a)"
  then have ulive: "heap ex1 unbound = Some ust" and wf: "wellFormedStack ust"
    and noSeed: "\<not> OnlySeed ex1" and outside: "a \<le> n_heap_l opts \<or> n_heap_h opts < a"
    by simp_all
  define info where "info =
      tab @ ''address: '' @ printExpr env (ConstantExpr w a) @ newline @
      describeNeighbours env (addressSpace ust) (a mod 2 ^ 32)"
  have i: "getAddressInfo env ex1 ust (ConstantExpr w a) = Inr info"
    by (simp add: info_def getAddressInfo_constant)
  have ne: "info \<noteq> []" by (simp add: info_def tab_def)
  obtain ii lastInst where
    loc: "getLastNonKleeInternalInstruction opts ust = Inr (ii, lastInst)"
    using getLastNonKleeInternalInstruction_returns [OF wf] by blast
  obtain ex2 where
    t: "terminateStateOnError env opts ex1 unbound boundsMessage Ptr None info = Inr ex2"
    using terminateStateOnError_returns [OF ulive wf] by blast
  have "errorPath env opts ex state isWrite address v target type bytes
          = unboundAccess env opts ex1 state unbound isWrite (ConstantExpr w a) target bytes"
    using live h by (simp add: errorPath_def)
  then have e: "errorPath env opts ex state isWrite address v target type bytes
                  = (if isWrite then Inr ex2 else bindLocal ex2 target unbound (filler bytes))"
    using unboundAccess_outside [OF noSeed outside ulive i t] by simp
  have g: "if unbound \<in> set (addedStates ex1) then heap ex2 unbound = None
        else unbound \<in> set (removedStates ex2)"
    using terminateStateOnError_effect [OF t] by (auto split: if_splits)
  have tc: "testCases ex2 =
                   (if EmitAllErrors opts \<or> (lastInst, boundsMessage) \<notin> emittedErrors ex1
                    then testCases ex1 @
                           [\<lparr>tc_state = unbound,
                             tc_message = Some
                               (''Error: '' @
                                ''++++++++++++++++++memory error: out of bound pointer'' @
                                newline @
                                (if info_file ii \<noteq> []
                                 then ''File: '' @ info_file ii @ newline @
                                      ''Line: '' @ printNat env (info_line ii) @ newline @
                                      ''assembly.ll line: '' @
                                      printNat env (info_assemblyLine ii) @ newline
                                 else []) @
                                ''Stack: '' @ newline @ dumpStack env ust @
                                ''Info: '' @ newline @ info),
                             tc_suffix = Some ''ptr.err''\<rparr>]
                    else testCases ex1)"
    using terminateStateOnError_diagnostic [OF ulive loc t] ne
    by (simp add: errorMessage_def boundsMessage_def)
  show "\<exists>ii lastInst info ex2.
                 getLastNonKleeInternalInstruction opts ust = Inr (ii, lastInst) \<and>
                 info = tab @ ''address: '' @ printExpr env (ConstantExpr w a) @ newline @
                        describeNeighbours env (addressSpace ust) (a mod 2 ^ 32) \<and>
                 getAddressInfo env ex1 ust (ConstantExpr w a) = Inr info \<and>
                 terminateStateOnError env opts ex1 unbound boundsMessage Ptr None info = Inr ex2 \<and>
                 errorPath env opts ex state isWrite address v target type bytes
                   = (if isWrite then Inr ex2
                      else bindLocal ex2 target unbound (filler bytes)) \<and>
                 testCases ex2 =
                   (if EmitAllErrors opts \<or> (lastInst, boundsMessage) \<notin> emittedErrors ex1
                    then testCases ex1 @
                           [\<lparr>tc_state = unbound,
                             tc_message = Some
                               (''Error: '' @
                                ''++++++++++++++++++memory error: out of bound pointer'' @
                                newline @
                                (if info_file ii \<noteq> []
                                 then ''File: '' @ info_file ii @ newline @
                                      ''Line: '' @ printNat env (info_line ii) @ newline @
                                      ''assembly.ll line: '' @
                                      printNat env (info_assemblyLine ii) @ newline
                                 else []) @
                                ''Stack: '' @ newline @ dumpStack env ust @
                                ''Info: '' @ newline @ info),
                             tc_suffix = Some ''ptr.err''\<rparr>]
                    else testCases ex1) \<and>
                 (if unbound \<in> set (addedStates ex1) then heap ex2 unbound = None
                  else unbound \<in> set (removedStates ex2))"
    apply (rule exI [of _ ii], rule exI [of _ lastInst], rule exI [of _ info],
           rule exI [of _ ex2])
    using loc i t e tc g info_def by blast
next
  assume h: "eval opts ki 1 st = Inr (Some base) \<and> \<not> isConstant base \<and>
          eval opts ki 0 st = Inr stored \<and>
          filter trackedGlobal (globalAddresses opts) = []"
  then have b: "eval opts ki 1 st = Inr (Some base)" and nc: "\<not> isConstant base"
    and s: "eval opts ki 0 st = Inr stored"
    and g: "filter trackedGlobal (globalAddresses opts) = []"
    by simp_all
  show "executeStore constantStore env opts ex state ki =
                 Inr (ex\<lparr>heap := (heap ex)(state \<mapsto>
                        st\<lparr>addressSpace := (addressSpace st)
                          \<lparr>WriteExploitCapability :=
                             (if base \<in> fst ` set (WriteExploitCapability (addressSpace st))
                              then WriteExploitCapability (addressSpace st)
                              else WriteExploitCapability (addressSpace st) @
                                     [(base, stored)])\<rparr>\<rparr>)\<rparr>)"
    by (rule executeStore_symbolic [OF live b nc s g])
qed

theorem out_of_bounds_pointer_witness:
  "(\<exists>ex2. errorPath sampleEnv sampleOptions sampleExecutor 0 True farAddress
             (ConstantExpr 8 1) sampleKInstruction 8 1 = Inr ex2 \<and>
           testCases ex2 =
             [\<lparr>tc_state = 0,
               tc_message = Some
                 (''Error: ++++++++++++++++++memory error: out of bound pointer'' @ newline @
                  ''File: test.c'' @ newline @ ''Line: '' @ newline @
                  ''assembly.ll line: '' @ newline @ ''Stack: '' @ newline @
                  ''Info: '' @ newline @ tab @ ''address: '' @ newline),
               tc_suffix = Some ''ptr.err''\<rparr>] \<and>
           0 \<in> set (removedStates ex2)) \<and>
   executeStore failingStore sampleEnv storeOptions storeExecutor 0 storeInstruction =
     Inr (storeExecutor\<lparr>heap := [0 \<mapsto> storeState\<lparr>addressSpace :=
            \<lparr>objects = [sampleObject \<mapsto> sampleObjectState],
             WriteExploitCapability = [(symbolicAddress, Some (ConstantExpr 8 1))]\<rparr>\<rparr>]\<rparr>)"
proof
  have live: "heap sampleExecutor 0 = Some sampleState" by (simp add: sampleExecutor_def)
  have h1: "optimizeExpr sampleEnv farAddress True = ConstantExpr 64 10008 \<and>
      resolveLoop sampleEnv sampleOptions True (ConstantExpr 64 10008) (ConstantExpr 8 1)
        sampleKInstruction 8 1 (sampleExecutor\<lparr>solverTimeout := 0\<rparr>) 0
        (fst (resolve sampleEnv (coreSolverTimeout sampleOptions) sampleState
                (ConstantExpr 64 10008)))
        = Inr (Some 0, sampleExecutor) \<and>
      \<not> snd (resolve sampleEnv (coreSolverTimeout sampleOptions) sampleState
               (ConstantExpr 64 10008)) \<and>
      \<not> OnlySeed sampleExecutor \<and> heap sampleExecutor 0 = Some sampleState \<and>
      wellFormedStack sampleState \<and>
      (10008 \<le> n_heap_l sampleOptions \<or> n_heap_h sampleOptions < 10008)"
    by (simp add: sampleEnv_def sampleExecutor_def sampleOptions_def sampleState_def
          farAddress_def wellFormedStack_def)
  have loc: "getLastNonKleeInternalInstruction sampleOptions sampleState = Inr (sampleInfo, 0)"
    by (simp add: getLastNonKleeInternalInstruction_def sampleState_def sampleOptions_def
          sampleKInstruction_def)
  have facts: "0 \<notin> set (addedStates sampleExecutor)"
      "testCases sampleExecutor = []" "emittedErrors sampleExecutor = {}"
      "info_file sampleInfo = ''test.c''"
      "printNat sampleEnv = (\<lambda>n. [])" "printExpr sampleEnv = (\<lambda>e. [])"
      "dumpStack sampleEnv = (\<lambda>st. [])" "describeNeighbours sampleEnv = (\<lambda>s n. [])"
    by (simp_all add: sampleExecutor_def sampleInfo_def sampleEnv_def)
  from out_of_bounds_pointer [OF live, THEN conjunct1, THEN mp, OF h1]
  show "\<exists>ex2. errorPath sampleEnv sampleOptions sampleExecutor 0 True farAddress
             (ConstantExpr 8 1) sampleKInstruction 8 1 = Inr ex2 \<and>
           testCases ex2 =
             [\<lparr>tc_state = 0,
               tc_message = Some
                 (''Error: ++++++++++++++++++memory error: out of bound pointer'' @ newline @
                  ''File: test.c'' @ newline @ ''Line: '' @ newline @
                  ''assembly.ll line: '' @ newline @ ''Stack: '' @ newline @
                  ''Info: '' @ newline @ tab @ ''address: '' @ newline),
               tc_suffix = Some ''ptr.err''\<rparr>] \<and>
           0 \<in> set (removedStates ex2)"
    unfolding loc by (auto simp: facts)
next
  have live: "heap storeExecutor 0 = Some storeState"
    by (simp add: storeExecutor_def)
  have h2: "eval storeOptions storeInstruction 1 storeState = Inr (Some symbolicAddress) \<and>
      \<not> isConstant symbolicAddress \<and>
      eval storeOptions storeInstruction 0 storeState = Inr (Some (ConstantExpr 8 1)) \<and>
      filter trackedGlobal (globalAddresses storeOptions) = []"
    by (simp add: eval_def storeOptions_def storeInstruction_def storeState_def
          sampleOptions_def sampleKInstruction_def symbolicAddress_def)
  show "executeStore failingStore sampleEnv storeOptions storeExecutor 0 storeInstruction =
     Inr (storeExecutor\<lparr>heap := [0 \<mapsto> storeState\<lparr>addressSpace :=
            \<lparr>objects = [sampleObject \<mapsto> sampleObjectState],
             WriteExploitCapability = [(symbolicAddress, Some (ConstantExpr 8 1))]\<rparr>\<rparr>]\<rparr>)"
    unfolding out_of_bounds_pointer [OF live, THEN conjunct2, THEN mp, OF h2]
    by (simp add: storeExecutor_def storeState_def)
qed

text \<open>
  C2 as stated fails inside the native heap range: the address 5000 resolves to no object
  and the resolution is complete, so the state remains unbound, yet the store returns with
  the engine unchanged and the state is not terminated. The scenario fails as well: the
  store at 10000 plus a symbolic byte is recorded as a write capability and nothing else
  happens. No state is forked, none is terminated, and no test case is written.
\<close>

theorem out_of_bounds_pointer_counterexample:
  "resolveOne sampleEnv (coreSolverTimeout sampleOptions) sampleState heapAddress = Some None \<and>
   resolve sampleEnv (coreSolverTimeout sampleOptions) sampleState heapAddress = ([], False) \<and>
   executeMemoryOperation sampleEnv sampleOptions sampleExecutor 0 True heapAddress
     (ConstantExpr 8 1) sampleKInstruction = Inr sampleExecutor \<and>
   removedStates sampleExecutor = [] \<and> heap sampleExecutor 0 = Some sampleState \<and>
   executeStore failingStore sampleEnv storeOptions storeExecutor 0 storeInstruction =
     Inr (storeExecutor\<lparr>heap := [0 \<mapsto> storeState\<lparr>addressSpace :=
            \<lparr>objects = [sampleObject \<mapsto> sampleObjectState],
             WriteExploitCapability = [(symbolicAddress, Some (ConstantExpr 8 1))]\<rparr>\<rparr>]\<rparr>) \<and>
   removedStates storeExecutor = [] \<and> addedStates storeExecutor = [] \<and>
   nextState storeExecutor = 1 \<and> testCases storeExecutor = []"
  by (simp add: executeMemoryOperation_def resolveFirst_def errorPath_def unboundAccess_def
        executeStore_def eval_def recordWriteCapability_def
        storeOptions_def storeInstruction_def storeState_def storeExecutor_def
        sampleKInstruction_def sampleFrame_def
        sampleEnv_def sampleOptions_def sampleExecutor_def sampleState_def heapAddress_def
        symbolicAddress_def sampleByte_def Let_def)

section \<open>Concretization\<close>

lemma toConstant_constant:
  assumes "heap ex sid = Some st" and "simplifyExpr env (constraints st) e = ConstantExpr w v"
  shows "toConstant env ex sid e = Inr (CE w v, ex)"
  using assms by (simp add: toConstant_def)

lemma toConstant_nonconstant:
  assumes "heap ex sid = Some st" and "\<not> isConstant (simplifyExpr env (constraints st) e)"
  shows "toConstant env ex sid e =
           (case solver_getValue env (solverTimeout ex) (constraints st)
                   (simplifyExpr env (constraints st) e) of
              None \<Rightarrow> Inl unhandledSolverFailure
            | Some v \<Rightarrow>
                (case addConstraint env ex sid
                        (EqExpr (simplifyExpr env (constraints st) e) (toExpr v)) of
                   Inl err \<Rightarrow> Inl err
                 | Inr ex' \<Rightarrow> Inr (v, ex')))"
  using assms
  by (cases "simplifyExpr env (constraints st) e")
     (simp_all add: toConstant_def split: option.splits)

text \<open>
  C8. \<open>toConstant\<close> returns a constant \<open>v\<close>, and after the call the constraint store of
  the state entails that the expression has the value \<open>v\<close>. The constraint simplifier is
  a parameter, taken to be sound under the store; the solver is taken to answer the value
  query and the seed queries of \<open>addConstraint\<close> (what happens when it does not is the
  subject of C9). When the simplified expression is not a constant, the store has grown
  by exactly the equality of the simplified expression and \<open>v\<close>; otherwise it is
  unchanged.
\<close>

theorem toConstant_entails_value:
  assumes live: "heap ex sid = Some st"
      and sound: "\<forall>a. satisfies a (constraints st) \<longrightarrow>
                    evalE a (simplifyExpr env (constraints st) e) = evalE a e"
      and answers: "isConstant (simplifyExpr env (constraints st) e) \<or>
                    (solver_getValue env (solverTimeout ex) (constraints st)
                       (simplifyExpr env (constraints st) e) \<noteq> None \<and>
                     (\<forall>seeds v. seedMap ex sid = Some seeds \<longrightarrow>
                        (\<forall>s \<in> set seeds.
                           solver_mustBeFalse env (solverTimeout ex) (constraints st)
                             (seed_evaluate env s
                                (EqExpr (simplifyExpr env (constraints st) e) (toExpr v))) \<noteq> None)))"
  shows "\<exists>v ex' st'. toConstant env ex sid e = Inr (v, ex') \<and> heap ex' sid = Some st' \<and>
           entailsValue (constraints st') e v \<and>
           constraints st' =
             (if isConstant (simplifyExpr env (constraints st) e) then constraints st
              else constraints st @ [EqExpr (simplifyExpr env (constraints st) e) (toExpr v)])"
proof (cases "isConstant (simplifyExpr env (constraints st) e)")
  case True
  then obtain w v where c: "simplifyExpr env (constraints st) e = ConstantExpr w v"
    by (cases "simplifyExpr env (constraints st) e") simp_all
  have "toConstant env ex sid e = Inr (CE w v, ex)"
    using toConstant_constant [OF live c] .
  moreover have "entailsValue (constraints st) e (CE w v)"
    using sound c by (simp add: entailsValue_def)
  ultimately show ?thesis using live True by auto
next
  case False
  let ?e = "simplifyExpr env (constraints st) e"
  from answers False obtain v where
    v: "solver_getValue env (solverTimeout ex) (constraints st) ?e = Some v"
    and seeds: "\<forall>seeds. seedMap ex sid = Some seeds \<longrightarrow>
                  (\<forall>s \<in> set seeds.
                     solver_mustBeFalse env (solverTimeout ex) (constraints st)
                       (seed_evaluate env s (EqExpr ?e (toExpr v))) \<noteq> None)"
    by auto
  have nc: "\<not> isConstant (EqExpr ?e (toExpr v))" by simp
  obtain ex' where a: "addConstraint env ex sid (EqExpr ?e (toExpr v)) = Inr ex'"
    using addConstraint_returns [OF live nc seeds] by blast
  have r: "toConstant env ex sid e = Inr (v, ex')"
    using toConstant_nonconstant [OF live False] v a by simp
  from addConstraint_nonconstant [OF a nc] live
  have h: "heap ex' sid = Some (st\<lparr>constraints := constraints st @ [EqExpr ?e (toExpr v)]\<rparr>)"
    by auto
  have "entailsValue (constraints st @ [EqExpr ?e (toExpr v)]) e v"
    using sound by (auto simp: entailsValue_def satisfies_def split: if_splits)
  then show ?thesis using r h False by simp
qed

theorem toConstant_entails_value_witness:
  "\<exists>v ex' st'. toConstant sampleEnv sampleExecutor 0 sampleByte = Inr (v, ex') \<and>
     heap ex' 0 = Some st' \<and> entailsValue (constraints st') sampleByte v \<and>
     constraints st' = [EqExpr sampleByte (toExpr v)]"
proof -
  have live: "heap sampleExecutor 0 = Some sampleState"
    by (simp add: sampleExecutor_def)
  have sound: "\<forall>a. satisfies a (constraints sampleState) \<longrightarrow>
      evalE a (simplifyExpr sampleEnv (constraints sampleState) sampleByte) = evalE a sampleByte"
    by (simp add: sampleEnv_def)
  have answers: "isConstant (simplifyExpr sampleEnv (constraints sampleState) sampleByte) \<or>
      (solver_getValue sampleEnv (solverTimeout sampleExecutor) (constraints sampleState)
         (simplifyExpr sampleEnv (constraints sampleState) sampleByte) \<noteq> None \<and>
       (\<forall>seeds v. seedMap sampleExecutor 0 = Some seeds \<longrightarrow>
          (\<forall>s \<in> set seeds.
             solver_mustBeFalse sampleEnv (solverTimeout sampleExecutor) (constraints sampleState)
               (seed_evaluate sampleEnv s
                  (EqExpr (simplifyExpr sampleEnv (constraints sampleState) sampleByte)
                     (toExpr v))) \<noteq> None)))"
    by (simp add: sampleEnv_def sampleExecutor_def)
  show ?thesis
    using toConstant_entails_value [OF live sound answers]
    by (simp add: sampleEnv_def sampleState_def sampleByte_def)
qed

section \<open>Solver failures\<close>

text \<open>
  C9. A solver that fails on the value query of \<open>toConstant\<close> is not handled: the
  assertion marked "FIXME: Unhandled solver failure" stops the whole engine. The same
  failed query inside \<open>fork\<close> ends only the state that issued it, with an "early" test
  case. The input is the sample state and the symbolic byte, with a solver whose every
  query fails.
\<close>

theorem toConstant_solver_failure_aborts:
  "toConstant (sampleEnv\<lparr>solver_getValue := (\<lambda>t cs e. None)\<rparr>) sampleExecutor 0 sampleByte
     = Inl (AssertionFailure ''FIXME: Unhandled solver failure'')"
  by (simp add: toConstant_def sampleEnv_def sampleExecutor_def sampleState_def sampleByte_def
        unhandledSolverFailure_def)

lemma fork_solver_failure_handled:
  "\<exists>ex'. fork (sampleEnv\<lparr>solver_evaluate := (\<lambda>t cs e. None)\<rparr>) sampleOptions sampleExecutor 0
            sampleCondition False = Inr ((None, None), ex') \<and>
          removedStates ex' = [0] \<and> heap ex' 0 \<noteq> None \<and>
          map tc_suffix (testCases ex') = [Some ''early'']"
  by (simp add: fork_def fork_static_def terminateStateEarly_def terminateState_def
        outputsTestCase_def processTestCase_def sampleEnv_def sampleExecutor_def
        sampleOptions_def sampleState_def sampleCondition_def sampleByte_def Let_def)

section \<open>Return\<close>

lemma stack_popFrame [simp]: "stack (popFrame st) = butlast (stack st)"
  by (simp add: popFrame_def)

lemma stack_transferToBasicBlock [simp]: "stack (transferToBasicBlock opts dst src st) = stack st"
  by (simp add: transferToBasicBlock_def Let_def)

lemma terminateStateOnExit_result:
  assumes "heap ex state = Some st"
  shows "\<exists>ex'. terminateStateOnExit opts ex state = Inr ex' \<and>
           testCases ex' =
             (if \<not> OnlyOutputStatesCoveringNew opts \<or> coveredNew st \<or>
                 (AlwaysOutputSeeds opts \<and> seedMap ex state \<noteq> None)
              then testCases ex @ [\<lparr>tc_state = state, tc_message = None, tc_suffix = None\<rparr>]
              else testCases ex) \<and>
           pathsExplored ex' = Suc (pathsExplored ex) \<and>
           (if state \<in> set (addedStates ex)
            then heap ex' state = None \<and> addedStates ex' = remove1 state (addedStates ex) \<and>
                 removedStates ex' = removedStates ex
            else heap ex' state = Some (st\<lparr>pc := prevPC st\<rparr>) \<and>
                 removedStates ex' = removedStates ex @ [state] \<and>
                 addedStates ex' = addedStates ex)"
  using assms
  by (cases "state \<in> set (addedStates ex)")
     (auto simp: terminateStateOnExit_def terminateState_def processTestCase_def
        outputsTestCase_def Let_def)

lemma wellFormedStack_butlast:
  assumes "wellFormedStack st" and "1 < length (stack st)" and "stack st' = butlast (stack st)"
  shows "wellFormedStack st'"
proof -
  from assms(2) obtain f g fs where s: "stack st = f # g # fs"
    by (cases "stack st"; cases "tl (stack st)") auto
  have "set (butlast (g # fs)) \<subseteq> set (g # fs)"
    by (rule subsetI) (rule in_set_butlastD)
  then show ?thesis
    using assms(1,3) s by (auto simp: wellFormedStack_def)
qed

text \<open>
  C7, as amended. A return instruction of a live state with a frame, whose operand, when
  it has one, evaluates to a value. When the returning frame is the only one and records
  no call site, the frame is not popped: the state is ended as a normal exit, and its
  test case, without a message or a suffix, is written only if the output is not
  restricted to states that covered new code, or the state covered new code, or seeds
  are always output and the state has one. When there are frames below, on a well-formed
  stack whose top frame records the call site, the top frame is popped and its allocas
  are unbound, and control moves to the instruction after the call, or for an invoke to
  the entry of its normal destination. Then: a return with a value into a call whose
  type is not void binds the value to the destination register of the call in the frame
  of the caller, unchanged when its width is the width of the type of the call,
  sign-extended to that width when the call site has the sign-extension return
  attribute, zero-extended otherwise; a return with a value into a call of type void,
  and a return without a value into a call whose result has no user, bind nothing; a
  return without a value into a call whose result has a user ends the state with the
  execution error "return void when caller expected a result" (suffix \<open>exec.err\<close>,
  written unless the same error was already emitted at that instruction and not all
  errors are emitted).
\<close>

theorem return_instruction:
  assumes live: "heap ex state = Some st" and frames: "stack st \<noteq> []"
      and operand: "ki_operands ki = [] \<or> eval opts ki 0 st = Inr (Some r)"
  shows "(length (stack st) = 1 \<and> sf_caller (last (stack st)) = None
          \<longrightarrow> (\<exists>ex'. executeRet env opts ex state ki = Inr ex' \<and>
                 testCases ex' =
                   (if \<not> OnlyOutputStatesCoveringNew opts \<or> coveredNew st \<or>
                       (AlwaysOutputSeeds opts \<and> seedMap ex state \<noteq> None)
                    then testCases ex @
                           [\<lparr>tc_state = state, tc_message = None, tc_suffix = None\<rparr>]
                    else testCases ex) \<and>
                 pathsExplored ex' = Suc (pathsExplored ex) \<and>
                 (if state \<in> set (addedStates ex)
                  then heap ex' state = None \<and>
                       addedStates ex' = remove1 state (addedStates ex) \<and>
                       removedStates ex' = removedStates ex
                  else heap ex' state = Some (st\<lparr>pc := prevPC st\<rparr>) \<and>
                       removedStates ex' = removedStates ex @ [state] \<and>
                       addedStates ex' = addedStates ex))) \<and>
         (1 < length (stack st) \<and> sf_caller (last (stack st)) = Some kcaller \<and>
          wellFormedStack st
          \<longrightarrow> (\<exists>st1.
                 stack st1 = butlast (butlast (stack st)) @
                   [if ki_operands ki \<noteq> [] \<and> \<not> ki_typeIsVoid (kinstAt opts kcaller)
                    then (last (butlast (stack st)))\<lparr>sf_locals :=
                           (sf_locals (last (butlast (stack st))))
                             (ki_dest (kinstAt opts kcaller) \<mapsto>
                                (if getWidth r = ki_typeWidth (kinstAt opts kcaller) then r
                                 else if ki_retAttrSExt (kinstAt opts kcaller)
                                 then SExtExpr_create r (ki_typeWidth (kinstAt opts kcaller))
                                 else ZExtExpr_create r (ki_typeWidth (kinstAt opts kcaller))))\<rparr>
                    else last (butlast (stack st))] \<and>
                 pc st1 =
                   (if ki_isInvoke (kinstAt opts kcaller)
                    then basicBlockEntry opts (sf_kf (last (butlast (stack st))))
                           (ki_normalDest (kinstAt opts kcaller))
                    else Suc kcaller) \<and>
                 objects (addressSpace st1) =
                   (\<lambda>mo. if mo \<in> set (sf_allocas (last (stack st))) then None
                         else objects (addressSpace st) mo) \<and>
                 constraints st1 = constraints st \<and> prevPC st1 = prevPC st \<and>
                 (if ki_operands ki = [] \<and> \<not> ki_use_empty (kinstAt opts kcaller)
                  then (\<exists>ii lastInst ex'.
                          executeRet env opts ex state ki = Inr ex' \<and>
                          getLastNonKleeInternalInstruction opts st1 = Inr (ii, lastInst) \<and>
                          testCases ex' =
                            (if EmitAllErrors opts \<or>
                                (lastInst, ''return void when caller expected a result'')
                                  \<notin> emittedErrors ex
                             then testCases ex @
                                    [\<lparr>tc_state = state,
                                      tc_message = Some
                                        (''Error: '' @
                                         ''return void when caller expected a result'' @ newline @
                                         (if info_file ii \<noteq> []
                                          then ''File: '' @ info_file ii @ newline @
                                               ''Line: '' @ printNat env (info_line ii) @
                                               newline @
                                               ''assembly.ll line: '' @
                                               printNat env (info_assemblyLine ii) @ newline
                                          else []) @
                                         ''Stack: '' @ newline @ dumpStack env st1),
                                      tc_suffix = Some ''exec.err''\<rparr>]
                             else testCases ex) \<and>
                          (if state \<in> set (addedStates ex)
                           then heap ex' state = None \<and> removedStates ex' = removedStates ex
                           else heap ex' state = Some (st1\<lparr>pc := prevPC st\<rparr>) \<and>
                                removedStates ex' = removedStates ex @ [state]))
                  else executeRet env opts ex state ki =
                         Inr (ex\<lparr>heap := (heap ex)(state \<mapsto> st1)\<rparr>))))"
proof (intro conjI impI)
  assume h: "length (stack st) = 1 \<and> sf_caller (last (stack st)) = None"
  have ev: "ki_operands ki \<noteq> [] \<Longrightarrow> eval opts ki 0 st = Inr (Some r)"
    using operand by blast
  have "executeRet env opts ex state ki = terminateStateOnExit opts ex state"
    using live frames h ev by (cases "ki_operands ki = []") (simp_all add: executeRet_def)
  then show "\<exists>ex'. executeRet env opts ex state ki = Inr ex' \<and>
                 testCases ex' =
                   (if \<not> OnlyOutputStatesCoveringNew opts \<or> coveredNew st \<or>
                       (AlwaysOutputSeeds opts \<and> seedMap ex state \<noteq> None)
                    then testCases ex @
                           [\<lparr>tc_state = state, tc_message = None, tc_suffix = None\<rparr>]
                    else testCases ex) \<and>
                 pathsExplored ex' = Suc (pathsExplored ex) \<and>
                 (if state \<in> set (addedStates ex)
                  then heap ex' state = None \<and>
                       addedStates ex' = remove1 state (addedStates ex) \<and>
                       removedStates ex' = removedStates ex
                  else heap ex' state = Some (st\<lparr>pc := prevPC st\<rparr>) \<and>
                       removedStates ex' = removedStates ex @ [state] \<and>
                       addedStates ex' = addedStates ex)"
    using terminateStateOnExit_result [OF live, of opts] by simp
next
  let ?caller = "kinstAt opts kcaller"
  let ?below = "last (butlast (stack st))"
  let ?message = "''return void when caller expected a result''"
  assume h: "1 < length (stack st) \<and> sf_caller (last (stack st)) = Some kcaller \<and>
             wellFormedStack st"
  then have deep: "1 < length (stack st)" and wf: "wellFormedStack st" by simp_all
  define st0 where "st0 = (if ki_isInvoke ?caller
              then transferToBasicBlock opts (ki_normalDest ?caller) (ki_block ?caller) (popFrame st)
              else (popFrame st)\<lparr>pc := Suc kcaller\<rparr>)"
  define v where "v = coerceResult ?caller r"
  define bind where "bind \<longleftrightarrow> ki_operands ki \<noteq> [] \<and> \<not> ki_typeIsVoid ?caller"
  define st1 where "st1 = (if bind
      then st0\<lparr>stack := butlast (butlast (stack st)) @
                 [?below\<lparr>sf_locals := (sf_locals ?below)(ki_dest ?caller \<mapsto> v)\<rparr>]\<rparr>
      else st0)"
  have ne: "butlast (stack st) \<noteq> []"
    using deep by (cases "stack st" rule: rev_cases) auto
  have bl: "butlast (butlast (stack st)) @ [?below] = butlast (stack st)"
    using ne by simp
  have s0: "stack st0 = butlast (stack st)" by (simp add: st0_def)
  have p0: "pc st0 = (if ki_isInvoke ?caller
                      then basicBlockEntry opts (sf_kf ?below) (ki_normalDest ?caller)
                      else Suc kcaller)"
    by (simp add: st0_def transferToBasicBlock_def Let_def)
  have o0: "objects (addressSpace st0) =
              (\<lambda>mo. if mo \<in> set (sf_allocas (last (stack st))) then None
                    else objects (addressSpace st) mo)"
    by (simp add: st0_def transferToBasicBlock_def popFrame_def Let_def)
  have c0: "constraints st0 = constraints st" "prevPC st0 = prevPC st"
    by (simp_all add: st0_def transferToBasicBlock_def popFrame_def Let_def)
  have c: "v = (if getWidth r = ki_typeWidth ?caller then r
                else if ki_retAttrSExt ?caller
                then SExtExpr_create r (ki_typeWidth ?caller)
                else ZExtExpr_create r (ki_typeWidth ?caller))"
    by (simp add: v_def coerceResult_def)
  have stack1: "stack st1 = butlast (butlast (stack st)) @
                  [if bind then ?below\<lparr>sf_locals := (sf_locals ?below)(ki_dest ?caller \<mapsto> v)\<rparr>
                   else ?below]"
    using s0 bl by (simp add: st1_def)
  have rest1: "pc st1 = pc st0" "objects (addressSpace st1) = objects (addressSpace st0)"
      "constraints st1 = constraints st0" "prevPC st1 = prevPC st0"
    by (simp_all add: st1_def)
  have ev: "ki_operands ki \<noteq> [] \<Longrightarrow> eval opts ki 0 st = Inr (Some r)"
    using operand by blast
  let ?ex0 = "ex\<lparr>heap := (heap ex)(state \<mapsto> st0)\<rparr>"
  have m: "executeRet env opts ex state ki =
             (if ki_operands ki \<noteq> [] then
                (if \<not> ki_typeIsVoid ?caller then bindLocal ?ex0 ?caller state v else Inr ?ex0)
              else (if \<not> ki_use_empty ?caller
                    then terminateStateOnExecError env opts ?ex0 state ?message
                    else Inr ?ex0))"
    using live frames h ev
    by (cases "ki_operands ki = []") (simp_all add: executeRet_def Let_def st0_def v_def)
  have b: "bindLocal ?ex0 ?caller state v =
             Inr (ex\<lparr>heap := (heap ex)(state \<mapsto>
                    st0\<lparr>stack := butlast (butlast (stack st)) @
                      [?below\<lparr>sf_locals := (sf_locals ?below)(ki_dest ?caller \<mapsto> v)\<rparr>]\<rparr>)\<rparr>)"
    using ne s0 by (simp add: bindLocal_def)
  have final: "if ki_operands ki = [] \<and> \<not> ki_use_empty ?caller
        then (\<exists>ii lastInst ex'.
                executeRet env opts ex state ki = Inr ex' \<and>
                getLastNonKleeInternalInstruction opts st1 = Inr (ii, lastInst) \<and>
                testCases ex' =
                  (if EmitAllErrors opts \<or> (lastInst, ?message) \<notin> emittedErrors ex
                   then testCases ex @
                          [\<lparr>tc_state = state,
                            tc_message = Some
                              (''Error: '' @ ?message @ newline @
                               (if info_file ii \<noteq> []
                                then ''File: '' @ info_file ii @ newline @
                                     ''Line: '' @ printNat env (info_line ii) @ newline @
                                     ''assembly.ll line: '' @
                                     printNat env (info_assemblyLine ii) @ newline
                                else []) @
                               ''Stack: '' @ newline @ dumpStack env st1),
                            tc_suffix = Some ''exec.err''\<rparr>]
                   else testCases ex) \<and>
                (if state \<in> set (addedStates ex)
                 then heap ex' state = None \<and> removedStates ex' = removedStates ex
                 else heap ex' state = Some (st1\<lparr>pc := prevPC st\<rparr>) \<and>
                      removedStates ex' = removedStates ex @ [state]))
        else executeRet env opts ex state ki = Inr (ex\<lparr>heap := (heap ex)(state \<mapsto> st1)\<rparr>)"
  proof (cases "ki_operands ki = [] \<and> \<not> ki_use_empty ?caller")
    case True
    then have nb: "\<not> bind" by (simp add: bind_def)
    then have e1: "st1 = st0" by (simp add: st1_def)
    have live0: "heap ?ex0 state = Some st0" by simp
    have wf0: "wellFormedStack st0"
      using wellFormedStack_butlast [OF wf deep s0] .
    obtain ii lastInst where
      loc: "getLastNonKleeInternalInstruction opts st0 = Inr (ii, lastInst)"
      using getLastNonKleeInternalInstruction_returns [OF wf0] by blast
    obtain ex' where
      t: "terminateStateOnError env opts ?ex0 state ?message Exec None [] = Inr ex'"
      using terminateStateOnError_returns [OF live0 wf0] by blast
    have r: "executeRet env opts ex state ki = Inr ex'"
      using m True t by (simp add: terminateStateOnExecError_def)
    have tc: "testCases ex' =
                  (if EmitAllErrors opts \<or> (lastInst, ?message) \<notin> emittedErrors ex
                   then testCases ex @
                          [\<lparr>tc_state = state,
                            tc_message = Some
                              (''Error: '' @ ?message @ newline @
                               (if info_file ii \<noteq> []
                                then ''File: '' @ info_file ii @ newline @
                                     ''Line: '' @ printNat env (info_line ii) @ newline @
                                     ''assembly.ll line: '' @
                                     printNat env (info_assemblyLine ii) @ newline
                                else []) @
                               ''Stack: '' @ newline @ dumpStack env st0),
                            tc_suffix = Some ''exec.err''\<rparr>]
                   else testCases ex)"
      using terminateStateOnError_diagnostic [OF live0 loc t]
      by (simp add: errorMessage_def)
    have g: "if state \<in> set (addedStates ex)
             then heap ex' state = None \<and> removedStates ex' = removedStates ex
             else heap ex' state = Some (st0\<lparr>pc := prevPC st\<rparr>) \<and>
                  removedStates ex' = removedStates ex @ [state]"
      using terminateStateOnError_effect [OF t] c0 by (auto split: if_splits)
    show ?thesis using True r loc tc g unfolding e1 by auto
  next
    case False
    have "executeRet env opts ex state ki = Inr (ex\<lparr>heap := (heap ex)(state \<mapsto> st1)\<rparr>)"
      using m b False by (auto simp: st1_def bind_def)
    then show ?thesis using False by simp
  qed
  show "\<exists>st1.
                 stack st1 = butlast (butlast (stack st)) @
                   [if ki_operands ki \<noteq> [] \<and> \<not> ki_typeIsVoid ?caller
                    then ?below\<lparr>sf_locals :=
                           (sf_locals ?below)
                             (ki_dest ?caller \<mapsto>
                                (if getWidth r = ki_typeWidth ?caller then r
                                 else if ki_retAttrSExt ?caller
                                 then SExtExpr_create r (ki_typeWidth ?caller)
                                 else ZExtExpr_create r (ki_typeWidth ?caller)))\<rparr>
                    else ?below] \<and>
                 pc st1 =
                   (if ki_isInvoke ?caller
                    then basicBlockEntry opts (sf_kf ?below) (ki_normalDest ?caller)
                    else Suc kcaller) \<and>
                 objects (addressSpace st1) =
                   (\<lambda>mo. if mo \<in> set (sf_allocas (last (stack st))) then None
                         else objects (addressSpace st) mo) \<and>
                 constraints st1 = constraints st \<and> prevPC st1 = prevPC st \<and>
                 (if ki_operands ki = [] \<and> \<not> ki_use_empty ?caller
                  then (\<exists>ii lastInst ex'.
                          executeRet env opts ex state ki = Inr ex' \<and>
                          getLastNonKleeInternalInstruction opts st1 = Inr (ii, lastInst) \<and>
                          testCases ex' =
                            (if EmitAllErrors opts \<or> (lastInst, ?message) \<notin> emittedErrors ex
                             then testCases ex @
                                    [\<lparr>tc_state = state,
                                      tc_message = Some
                                        (''Error: '' @ ?message @ newline @
                                         (if info_file ii \<noteq> []
                                          then ''File: '' @ info_file ii @ newline @
                                               ''Line: '' @ printNat env (info_line ii) @
                                               newline @
                                               ''assembly.ll line: '' @
                                               printNat env (info_assemblyLine ii) @ newline
                                          else []) @
                                         ''Stack: '' @ newline @ dumpStack env st1),
                                      tc_suffix = Some ''exec.err''\<rparr>]
                             else testCases ex) \<and>
                          (if state \<in> set (addedStates ex)
                           then heap ex' state = None \<and> removedStates ex' = removedStates ex
                           else heap ex' state = Some (st1\<lparr>pc := prevPC st\<rparr>) \<and>
                                removedStates ex' = removedStates ex @ [state]))
                  else executeRet env opts ex state ki =
                         Inr (ex\<lparr>heap := (heap ex)(state \<mapsto> st1)\<rparr>))"
    apply (rule exI [of _ st1])
    using stack1 rest1 p0 o0 c0 final unfolding bind_def c by simp
qed

theorem return_instruction_witness:
  "(\<exists>ex'. executeRet sampleEnv sampleOptions sampleExecutor 0 voidReturn = Inr ex' \<and>
          testCases ex' = [\<lparr>tc_state = 0, tc_message = None, tc_suffix = None\<rparr>] \<and>
          heap ex' 0 = Some (sampleState\<lparr>pc := 0\<rparr>) \<and> removedStates ex' = [0]) \<and>
   (\<exists>st1. executeRet sampleEnv sampleOptions callExecutor 0 sampleKInstruction =
            Inr (callExecutor\<lparr>heap := (heap callExecutor)(0 \<mapsto> st1)\<rparr>) \<and>
          stack st1 = [sampleFrame\<lparr>sf_locals := [3 \<mapsto> ConstantExpr 32 200]\<rparr>] \<and>
          pc st1 = 6) \<and>
   (\<exists>ex'. executeRet sampleEnv sampleOptions callExecutor 0 voidReturn = Inr ex' \<and>
          map tc_suffix (testCases ex') = [Some ''exec.err''] \<and> removedStates ex' = [0])"
proof (intro conjI)
  have live: "heap sampleExecutor 0 = Some sampleState"
    by (simp add: sampleExecutor_def)
  have frames: "stack sampleState \<noteq> []"
    by (simp add: sampleState_def)
  have operand: "ki_operands voidReturn = [] \<or>
                 eval sampleOptions voidReturn 0 sampleState = Inr (Some (ConstantExpr 1 0))"
    by (simp add: voidReturn_def)
  have h: "length (stack sampleState) = 1 \<and> sf_caller (last (stack sampleState)) = None"
    by (simp add: sampleState_def sampleFrame_def)
  show "\<exists>ex'. executeRet sampleEnv sampleOptions sampleExecutor 0 voidReturn = Inr ex' \<and>
          testCases ex' = [\<lparr>tc_state = 0, tc_message = None, tc_suffix = None\<rparr>] \<and>
          heap ex' 0 = Some (sampleState\<lparr>pc := 0\<rparr>) \<and> removedStates ex' = [0]"
    using return_instruction [OF live frames operand, THEN conjunct1, THEN mp, OF h,
            of sampleEnv]
    by (auto simp: sampleOptions_def sampleExecutor_def sampleState_def)
next
  have live: "heap callExecutor 0 = Some callState"
    by (simp add: callExecutor_def)
  have frames: "stack callState \<noteq> []"
    by (simp add: callState_def)
  have operand: "ki_operands sampleKInstruction = [] \<or>
                 eval sampleOptions sampleKInstruction 0 callState
                   = Inr (Some (ConstantExpr 8 200))"
    by (simp add: callState_def calleeFrame_def sampleKInstruction_def eval_def)
  have h: "1 < length (stack callState) \<and> sf_caller (last (stack callState)) = Some 5 \<and>
           wellFormedStack callState"
    by (simp add: callState_def calleeFrame_def wellFormedStack_def)
  show "\<exists>st1. executeRet sampleEnv sampleOptions callExecutor 0 sampleKInstruction =
            Inr (callExecutor\<lparr>heap := (heap callExecutor)(0 \<mapsto> st1)\<rparr>) \<and>
          stack st1 = [sampleFrame\<lparr>sf_locals := [3 \<mapsto> ConstantExpr 32 200]\<rparr>] \<and>
          pc st1 = 6"
    using return_instruction [OF live frames operand, THEN conjunct2, THEN mp, OF h,
            of sampleEnv]
    by (auto simp: callState_def sampleKInstruction_def sampleOptions_def sampleFrame_def)
next
  have live: "heap callExecutor 0 = Some callState"
    by (simp add: callExecutor_def)
  have frames: "stack callState \<noteq> []"
    by (simp add: callState_def)
  have operand: "ki_operands voidReturn = [] \<or>
                 eval sampleOptions voidReturn 0 callState = Inr (Some (ConstantExpr 1 0))"
    by (simp add: voidReturn_def)
  have h: "1 < length (stack callState) \<and> sf_caller (last (stack callState)) = Some 5 \<and>
           wellFormedStack callState"
    by (simp add: callState_def calleeFrame_def wellFormedStack_def)
  have facts: "0 \<notin> set (addedStates callExecutor)" "removedStates callExecutor = []"
      "testCases callExecutor = []" "emittedErrors callExecutor = {}"
      "\<not> ki_use_empty (kinstAt sampleOptions 5)" "ki_operands voidReturn = []"
    by (simp_all add: callExecutor_def sampleExecutor_def sampleOptions_def
          sampleKInstruction_def voidReturn_def)
  show "\<exists>ex'. executeRet sampleEnv sampleOptions callExecutor 0 voidReturn = Inr ex' \<and>
          map tc_suffix (testCases ex') = [Some ''exec.err''] \<and> removedStates ex' = [0]"
    using return_instruction [OF live frames operand, THEN conjunct2, THEN mp, OF h,
            of sampleEnv]
    by (auto simp: facts)
qed

text \<open>
  C7 as stated fails for the return from the only frame when the output is restricted
  to states that covered new code: the state, which covered none, is ended and queued for
  removal, no exit test case is written, and its frame is still on its stack.
\<close>

theorem return_instruction_counterexample:
  "executeRet sampleEnv coveringOptions sampleExecutor 0 voidReturn =
     Inr (sampleExecutor\<lparr>heap := [0 \<mapsto> sampleState\<lparr>pc := 0\<rparr>], removedStates := [0],
            pathsExplored := 1\<rparr>) \<and>
   testCases (sampleExecutor\<lparr>heap := [0 \<mapsto> sampleState\<lparr>pc := 0\<rparr>], removedStates := [0],
                pathsExplored := 1\<rparr>) = [] \<and>
   stack (sampleState\<lparr>pc := 0\<rparr>) = [sampleFrame] \<and> stack sampleState = [sampleFrame] \<and>
   \<not> coveredNew sampleState"
  by (simp add: executeRet_def voidReturn_def terminateStateOnExit_def terminateState_def
        outputsTestCase_def processTestCase_def sampleExecutor_def sampleState_def
        sampleFrame_def sampleOptions_def coveringOptions_def sampleKInstruction_def Let_def)

section \<open>Indirect calls\<close>

lemma indirectCallBody_symbolic:
  assumes "\<not> isConstant v"
  shows "indirectCallBody call env opts ex state ki name v val arguments t hasInvalid =
           (case heap ex state of
              None \<Rightarrow> Inl UseAfterFree
            | Some st \<Rightarrow>
                (case (if WriteExploitCapability (addressSpace st) = [] then Inr ex
                       else exploitConstraints env ex state name v) of
                   Inl e \<Rightarrow> Inl e
                 | Inr ex1 \<Rightarrow>
                     (case terminateStateOnExecError env opts ex1 state
                             ''AEG: Find a possible exploit'' of
                        Inl e \<Rightarrow> Inl e
                      | Inr ex2 \<Rightarrow> Inr (ex2, hasInvalid, True))))"
  using assms by (simp add: indirectCallBody_def split: option.splits sum.splits)

lemma indirectCallLoop_independent:
  assumes stable: "\<forall>e. \<not> isConstant e \<longrightarrow> \<not> isConstant (optimizeExpr env e True)"
  shows "\<not> isConstant v \<Longrightarrow>
         indirectCallLoop call n env opts ex state ki name v arguments free hasInvalid =
         indirectCallLoop call' n env opts ex state ki name v arguments free hasInvalid'"
proof (induction n arbitrary: ex v free hasInvalid hasInvalid')
  case 0
  show ?case by simp
next
  case (Suc n)
  have o: "\<not> isConstant (optimizeExpr env v True)"
    using stable Suc.prems by blast
  show ?case
    by (auto simp: indirectCallBody_symbolic [OF o] intro: Suc.IH [OF o]
             split: option.splits sum.splits prod.splits)
qed

lemma pointer_fork:
  "\<exists>ex1 st1. fork pointerEnv tableOptions pointerLoaded 0
             (EqExpr_create (optimizeExpr pointerEnv pointerValue True) (toExpr (CE 64 100))) True
             = Inr ((Some 0, Some 1), ex1) \<and>
           heap ex1 0 = Some st1 \<and> WriteExploitCapability (addressSpace st1) = [] \<and>
           wellFormedStack st1 \<and> addedStates ex1 = [1] \<and> removedStates ex1 = [] \<and>
           testCases ex1 = [] \<and> emittedErrors ex1 = {}"
  by (simp add: fork_def fork_static_def fork_decide_def fork_seedFix_def fork_split_def
        fork_both_def fork_paths_def fork_seeds_def forkInhibited_def maxForksReached_def
        addConstraint_def ExecutionState_branch_def ExecutionState_addConstraint_def
        createIsZero_def wellFormedStack_def
        pointerEnv_def tableOptions_def pointerLoaded_def pointerExecutor_def pointerState_def
        pointerValue_def pointerBytes_def
        sampleEnv_def sampleExecutor_def sampleOptions_def sampleState_def sampleFrame_def
        Let_def)

lemma pointer_load:
  "executeLoad pointerEnv tableOptions pointerExecutor 0 loadInstruction = Inr pointerLoaded"
  by (simp add: executeLoad_def eval_def executeMemoryOperation_def resolveFirst_def
        resolvedAccess_def bindLocal_def getBoundsCheckOffset_def getOffsetExpr_def
        getBaseExpr_def getMinBytesForWidth_def
        loadInstruction_def pointerEnv_def tableOptions_def pointerLoaded_def
        pointerExecutor_def pointerState_def pointerValue_def pointerBytes_def
        pointerObjectState_def sampleObject_def
        sampleEnv_def sampleExecutor_def sampleOptions_def sampleState_def sampleFrame_def
        sampleKInstruction_def Let_def)

lemma pointer_call:
  "\<exists>ex'. executeCallInstruction failingCall 1 pointerEnv tableOptions pointerLoaded 0
            callInstruction = Some (Inr ex') \<and>
         removedStates ex' = [0] \<and> addedStates ex' = [1] \<and>
         map tc_suffix (testCases ex') = [Some ''exec.err'']"
  by (simp add: executeCallInstruction_def definingInstructions_def eval_def indirectCallBody_def
        terminateStateOnExecError_def terminateStateOnError_def terminateState_def
        getLastNonKleeInternalInstruction_def processTestCase_def shouldExitOn_def
        fork_def fork_static_def fork_decide_def fork_seedFix_def fork_split_def fork_both_def
        fork_paths_def fork_seeds_def forkInhibited_def maxForksReached_def addConstraint_def
        ExecutionState_branch_def ExecutionState_addConstraint_def createIsZero_def
        callInstruction_def pointerEnv_def tableOptions_def pointerLoaded_def
        pointerExecutor_def pointerState_def pointerValue_def pointerBytes_def
        sampleEnv_def sampleExecutor_def sampleOptions_def sampleState_def sampleFrame_def
        sampleKInstruction_def sampleInfo_def Let_def)

lemma table_load:
  "\<exists>ex'. executeLoad tableEnv tableOptions tableExecutor 0 loadInstruction = Inr ex' \<and>
         removedStates ex' = [0] \<and> addedStates ex' = [] \<and> nextState ex' = 1 \<and>
         map tc_suffix (testCases ex') = [Some ''ptr.err''] \<and>
         map_option stack (heap ex' 0) = Some [sampleFrame\<lparr>sf_locals := [2 \<mapsto> tableAddress]\<rparr>]"
  by (simp add: executeLoad_def eval_def executeMemoryOperation_def getAddressInfo_def
        terminateStateOnError_def terminateState_def
        getLastNonKleeInternalInstruction_def processTestCase_def shouldExitOn_def
        loadInstruction_def tableEnv_def tableOptions_def tableExecutor_def tableState_def
        tableAddress_def sampleByte_def
        sampleEnv_def sampleExecutor_def sampleOptions_def sampleState_def sampleFrame_def
        sampleKInstruction_def sampleInfo_def Let_def)

text \<open>
  C6, as amended. A call whose callee expression is not a constant, and stays so under
  the optimizer, executes no callee: for every number of iterations, the loop returns the
  same result whatever the call handler is and whether or not an invalid function pointer
  was already reported, and the handler of the call instruction returns the same result
  whatever the call handler is, for a call whose target LLVM does not know. In an
  iteration that starts at a live state, in which the solver answers the value query, the
  fork on the equality of the callee expression with that value returns a true branch,
  and the constraints for the recorded write capabilities of the calling state, if it has
  any, have been added by the exploit step, leaving the calling state live with a
  well-formed stack, the loop ends: the calling state is ended by the execution error
  "AEG: Find a possible exploit", with a test case of suffix \<open>exec.err\<close> (written
  unless the same error was already emitted at that instruction and not all errors are
  emitted), and it leaves the added states or joins the removed ones; the membership of
  the value in the set of legal functions is not looked at. A callee that is read from a
  table at a symbolic index does not get that far: the address operand of the load of the
  entry evaluates to an expression that is not a constant, and (in a live state with a
  well-formed stack, when the solver answers the value query of the diagnostic) the load
  ends the state with the pointer error, suffix \<open>ptr.err\<close> (written unless the same
  error was already emitted at that instruction and not all errors are emitted), binding
  no register and creating no state.
\<close>

theorem indirect_call_symbolic_callee:
  assumes stable: "\<forall>e. \<not> isConstant e \<longrightarrow> \<not> isConstant (optimizeExpr env e True)"
      and symbolic: "\<not> isConstant v"
  shows "indirectCallLoop call n env opts ex state ki name v arguments free hasInvalid =
           indirectCallLoop call' n env opts ex state ki name v arguments free hasInvalid' \<and>
         (getTargetFunction opts (ki_inst ki) = None \<and> heap ex state = Some cst \<and>
          eval opts ki 0 cst = Inr (Some v)
          \<longrightarrow> executeCallInstruction call n env opts ex state ki =
                executeCallInstruction call' n env opts ex state ki) \<and>
         (\<forall>fs val t second ex1 st1 ex2 st2.
            heap ex free = Some fs \<and>
            solver_getValue env (solverTimeout ex) (constraints fs) (optimizeExpr env v True)
              = Some val \<and>
            fork env opts ex free (EqExpr_create (optimizeExpr env v True) (toExpr val)) True
              = Inr ((Some t, second), ex1) \<and>
            heap ex1 state = Some st1 \<and>
            (if WriteExploitCapability (addressSpace st1) = [] then Inr ex1
             else exploitConstraints env ex1 state name (optimizeExpr env v True)) = Inr ex2 \<and>
            heap ex2 state = Some st2 \<and> wellFormedStack st2
            \<longrightarrow> (\<exists>ii lastInst ex'.
                   indirectCallLoop call (Suc n) env opts ex state ki name v arguments free
                     hasInvalid = Some (Inr ex') \<and>
                   getLastNonKleeInternalInstruction opts st2 = Inr (ii, lastInst) \<and>
                   testCases ex' =
                     (if EmitAllErrors opts \<or>
                         (lastInst, ''AEG: Find a possible exploit'') \<notin> emittedErrors ex2
                      then testCases ex2 @
                             [\<lparr>tc_state = state,
                               tc_message = Some
                             (''Error: '' @ ''AEG: Find a possible exploit'' @ newline @
                              (if info_file ii \<noteq> []
                               then ''File: '' @ info_file ii @ newline @
                                    ''Line: '' @ printNat env (info_line ii) @ newline @
                                    ''assembly.ll line: '' @
                                    printNat env (info_assemblyLine ii) @ newline
                               else []) @
                              ''Stack: '' @ newline @ dumpStack env st2),
                               tc_suffix = Some ''exec.err''\<rparr>]
                      else testCases ex2) \<and>
                   addedStates ex' = remove1 state (addedStates ex2) \<and>
                   (if state \<in> set (addedStates ex2)
                    then heap ex' state = None \<and> removedStates ex' = removedStates ex2
                    else heap ex' state = Some (st2\<lparr>pc := prevPC st2\<rparr>) \<and>
                         removedStates ex' = removedStates ex2 @ [state]))) \<and>
         (heap ex0 reader = Some rst \<and> wellFormedStack rst \<and>
          eval opts load 0 rst = Inr (Some base) \<and> \<not> isConstant base \<and>
          solver_getValue env (solverTimeout ex0) (constraints rst) base \<noteq> None
          \<longrightarrow> (\<exists>lastInst ex'.
                 executeLoad env opts ex0 reader load = Inr ex' \<and>
                 (\<exists>ii. getLastNonKleeInternalInstruction opts rst = Inr (ii, lastInst)) \<and>
                 (\<exists>m. testCases ex' =
                   (if EmitAllErrors opts \<or>
                       (lastInst, ''exploit succeed: memory operation with symbolic addr'')
                         \<notin> emittedErrors ex0
                    then testCases ex0 @
                           [\<lparr>tc_state = reader,
                             tc_message = Some
                               (''Error: '' @
                                ''exploit succeed: memory operation with symbolic addr'' @
                                newline @ m),
                             tc_suffix = Some ''ptr.err''\<rparr>]
                    else testCases ex0)) \<and>
                 (if reader \<in> set (addedStates ex0) then heap ex' reader = None
                  else reader \<in> set (removedStates ex')) \<and>
                 nextState ex' = nextState ex0 \<and>
                 (\<forall>s st'. heap ex' s = Some st' \<longrightarrow>
                    (\<exists>st0. heap ex0 s = Some st0 \<and> stack st' = stack st0))))"
proof (intro conjI allI impI)
  show "indirectCallLoop call n env opts ex state ki name v arguments free hasInvalid =
        indirectCallLoop call' n env opts ex state ki name v arguments free hasInvalid'"
    using indirectCallLoop_independent [OF stable symbolic] .
next
  assume h: "getTargetFunction opts (ki_inst ki) = None \<and> heap ex state = Some cst \<and>
             eval opts ki 0 cst = Inr (Some v)"
  have "\<And>e0 nm as. indirectCallLoop call n env opts e0 state ki nm v as state False =
                       indirectCallLoop call' n env opts e0 state ki nm v as state False"
    by (rule indirectCallLoop_independent [OF stable symbolic])
  then show "executeCallInstruction call n env opts ex state ki =
             executeCallInstruction call' n env opts ex state ki"
    using h by (simp add: executeCallInstruction_def split: sum.splits option.splits prod.splits)
next
  fix fs val t second ex1 st1 ex2 st2
  assume h: "heap ex free = Some fs \<and>
            solver_getValue env (solverTimeout ex) (constraints fs) (optimizeExpr env v True)
              = Some val \<and>
            fork env opts ex free (EqExpr_create (optimizeExpr env v True) (toExpr val)) True
              = Inr ((Some t, second), ex1) \<and>
            heap ex1 state = Some st1 \<and>
            (if WriteExploitCapability (addressSpace st1) = [] then Inr ex1
             else exploitConstraints env ex1 state name (optimizeExpr env v True)) = Inr ex2 \<and>
            heap ex2 state = Some st2 \<and> wellFormedStack st2"
  let ?message = "''AEG: Find a possible exploit''"
  have o: "\<not> isConstant (optimizeExpr env v True)"
    using stable symbolic by blast
  from h have live: "heap ex2 state = Some st2" and wf: "wellFormedStack st2" by simp_all
  obtain ii lastInst where
    loc: "getLastNonKleeInternalInstruction opts st2 = Inr (ii, lastInst)"
    using getLastNonKleeInternalInstruction_returns [OF wf] by blast
  obtain ex' where
    t: "terminateStateOnError env opts ex2 state ?message Exec None [] = Inr ex'"
    using terminateStateOnError_returns [OF live wf] by blast
  have r: "indirectCallLoop call (Suc n) env opts ex state ki name v arguments free hasInvalid
             = Some (Inr ex')"
    using h t by (simp add: indirectCallBody_symbolic [OF o] terminateStateOnExecError_def)
  have a: "addedStates ex' = remove1 state (addedStates ex2)"
    using terminateStateOnError_added [OF t] .
  have e: "if state \<in> set (addedStates ex2)
           then heap ex' state = None \<and> removedStates ex' = removedStates ex2
           else heap ex' state = Some (st2\<lparr>pc := prevPC st2\<rparr>) \<and>
                removedStates ex' = removedStates ex2 @ [state]"
    using terminateStateOnError_effect [OF t] live by (auto split: if_splits)
  have c: "testCases ex' =
             (if EmitAllErrors opts \<or> (lastInst, ?message) \<notin> emittedErrors ex2
              then testCases ex2 @
                     [\<lparr>tc_state = state,
                       tc_message = Some
                             (''Error: '' @ ''AEG: Find a possible exploit'' @ newline @
                              (if info_file ii \<noteq> []
                               then ''File: '' @ info_file ii @ newline @
                                    ''Line: '' @ printNat env (info_line ii) @ newline @
                                    ''assembly.ll line: '' @
                                    printNat env (info_assemblyLine ii) @ newline
                               else []) @
                              ''Stack: '' @ newline @ dumpStack env st2),
                       tc_suffix = Some ''exec.err''\<rparr>]
              else testCases ex2)"
    using terminateStateOnError_diagnostic [OF live loc t]
    by (simp add: errorMessage_def)
  show "(\<exists>ii lastInst ex'.
                   indirectCallLoop call (Suc n) env opts ex state ki name v arguments free
                     hasInvalid = Some (Inr ex') \<and>
                   getLastNonKleeInternalInstruction opts st2 = Inr (ii, lastInst) \<and>
                   testCases ex' =
                     (if EmitAllErrors opts \<or>
                         (lastInst, ''AEG: Find a possible exploit'') \<notin> emittedErrors ex2
                      then testCases ex2 @
                             [\<lparr>tc_state = state,
                               tc_message = Some
                             (''Error: '' @ ''AEG: Find a possible exploit'' @ newline @
                              (if info_file ii \<noteq> []
                               then ''File: '' @ info_file ii @ newline @
                                    ''Line: '' @ printNat env (info_line ii) @ newline @
                                    ''assembly.ll line: '' @
                                    printNat env (info_assemblyLine ii) @ newline
                               else []) @
                              ''Stack: '' @ newline @ dumpStack env st2),
                               tc_suffix = Some ''exec.err''\<rparr>]
                      else testCases ex2) \<and>
                   addedStates ex' = remove1 state (addedStates ex2) \<and>
                   (if state \<in> set (addedStates ex2)
                    then heap ex' state = None \<and> removedStates ex' = removedStates ex2
                    else heap ex' state = Some (st2\<lparr>pc := prevPC st2\<rparr>) \<and>
                         removedStates ex' = removedStates ex2 @ [state]))"
    by (intro exI conjI) (rule r loc c a e)+
next
  assume h: "heap ex0 reader = Some rst \<and> wellFormedStack rst \<and>
          eval opts load 0 rst = Inr (Some base) \<and> \<not> isConstant base \<and>
          solver_getValue env (solverTimeout ex0) (constraints rst) base \<noteq> None"
  then have live: "heap ex0 reader = Some rst" and wf: "wellFormedStack rst"
    and b: "eval opts load 0 rst = Inr (Some base)" and nc: "\<not> isConstant base"
    and answers: "solver_getValue env (solverTimeout ex0) (constraints rst) base \<noteq> None"
    by simp_all
  have l: "executeLoad env opts ex0 reader load =
             executeMemoryOperation env opts ex0 reader False base (ConstantExpr 0 0) load"
    using live b by (simp add: executeLoad_def)
  from symbolic_address_report [OF nc live wf answers, of opts False "ConstantExpr 0 0" load]
  obtain val ii lastInst info ex' where
    m: "executeMemoryOperation env opts ex0 reader False base (ConstantExpr 0 0) load = Inr ex'" and
    loc: "getLastNonKleeInternalInstruction opts rst = Inr (ii, lastInst)" and
    t: "terminateStateOnError env opts ex0 reader ptrMessage Ptr None info = Inr ex'" and
    g: "if reader \<in> set (addedStates ex0) then heap ex' reader = None
        else reader \<in> set (removedStates ex')" and
    n: "nextState ex' = nextState ex0" and
    f: "\<forall>s st'. heap ex' s = Some st' \<longrightarrow>
           (\<exists>st0. heap ex0 s = Some st0 \<and> addressSpace st' = addressSpace st0 \<and>
              stack st' = stack st0 \<and> constraints st' = constraints st0)"
    by (elim exE conjE) (rule that, assumption+)
  have tc: "\<exists>m. testCases ex' =
           (if EmitAllErrors opts \<or>
               (lastInst, ''exploit succeed: memory operation with symbolic addr'')
                 \<notin> emittedErrors ex0
            then testCases ex0 @
                   [\<lparr>tc_state = reader,
                     tc_message = Some
                       (''Error: '' @
                        ''exploit succeed: memory operation with symbolic addr'' @
                        newline @ m),
                     tc_suffix = Some ''ptr.err''\<rparr>]
            else testCases ex0)"
    using terminateStateOnError_diagnostic [OF live loc t]
    by (simp add: errorMessage_def ptrMessage_def)
  have f': "\<forall>s st'. heap ex' s = Some st' \<longrightarrow> (\<exists>st0. heap ex0 s = Some st0 \<and> stack st' = stack st0)"
  proof (intro allI impI)
    fix s st' assume "heap ex' s = Some st'"
    with f obtain st0 where "heap ex0 s = Some st0" "stack st' = stack st0" by blast
    then show "\<exists>st0. heap ex0 s = Some st0 \<and> stack st' = stack st0" by blast
  qed
  have r: "executeLoad env opts ex0 reader load = Inr ex'" using l m by simp
  have lo: "\<exists>ii. getLastNonKleeInternalInstruction opts rst = Inr (ii, lastInst)"
    using loc by blast
  show "(\<exists>lastInst ex'.
                 executeLoad env opts ex0 reader load = Inr ex' \<and>
                 (\<exists>ii. getLastNonKleeInternalInstruction opts rst = Inr (ii, lastInst)) \<and>
                 (\<exists>m. testCases ex' =
                   (if EmitAllErrors opts \<or>
                       (lastInst, ''exploit succeed: memory operation with symbolic addr'')
                         \<notin> emittedErrors ex0
                    then testCases ex0 @
                           [\<lparr>tc_state = reader,
                             tc_message = Some
                               (''Error: '' @
                                ''exploit succeed: memory operation with symbolic addr'' @
                                newline @ m),
                             tc_suffix = Some ''ptr.err''\<rparr>]
                    else testCases ex0)) \<and>
                 (if reader \<in> set (addedStates ex0) then heap ex' reader = None
                  else reader \<in> set (removedStates ex')) \<and>
                 nextState ex' = nextState ex0 \<and>
                 (\<forall>s st'. heap ex' s = Some st' \<longrightarrow>
                    (\<exists>st0. heap ex0 s = Some st0 \<and> stack st' = stack st0)))"
    apply (rule exI [of _ lastInst], rule exI [of _ ex'])
    apply (intro conjI)
         apply (rule r)
        apply (rule lo)
       apply (rule tc)
      apply (rule g)
     apply (rule n)
    apply (rule f')
    done
qed

theorem indirect_call_symbolic_callee_witness:
  "indirectCallLoop failingCall 3 pointerEnv tableOptions pointerLoaded 0 callInstruction []
     pointerValue [] 0 False =
   indirectCallLoop returningCall 3 pointerEnv tableOptions pointerLoaded 0 callInstruction []
     pointerValue [] 0 True \<and>
   executeCallInstruction failingCall 3 pointerEnv tableOptions pointerLoaded 0 callInstruction =
     executeCallInstruction returningCall 3 pointerEnv tableOptions pointerLoaded 0
       callInstruction \<and>
   (\<exists>ex'. indirectCallLoop failingCall (Suc 0) pointerEnv tableOptions pointerLoaded 0
            callInstruction [] pointerValue [] 0 False = Some (Inr ex') \<and>
          addedStates ex' = [1] \<and> removedStates ex' = [0] \<and>
          map tc_suffix (testCases ex') = [Some ''exec.err'']) \<and>
   (\<exists>ex'. executeLoad tableEnv tableOptions tableExecutor 0 loadInstruction = Inr ex' \<and>
          map tc_suffix (testCases ex') = [Some ''ptr.err''] \<and> 0 \<in> set (removedStates ex'))"
proof (intro conjI)
  have stable: "\<forall>e. \<not> isConstant e \<longrightarrow> \<not> isConstant (optimizeExpr pointerEnv e True)"
    by (simp add: pointerEnv_def sampleEnv_def)
  have symbolic: "\<not> isConstant pointerValue"
    by (simp add: pointerValue_def pointerBytes_def)
  show "indirectCallLoop failingCall 3 pointerEnv tableOptions pointerLoaded 0 callInstruction []
          pointerValue [] 0 False =
        indirectCallLoop returningCall 3 pointerEnv tableOptions pointerLoaded 0 callInstruction []
          pointerValue [] 0 True"
    by (rule indirect_call_symbolic_callee [OF stable symbolic, THEN conjunct1])
next
  have stable: "\<forall>e. \<not> isConstant e \<longrightarrow> \<not> isConstant (optimizeExpr pointerEnv e True)"
    by (simp add: pointerEnv_def sampleEnv_def)
  have symbolic: "\<not> isConstant pointerValue"
    by (simp add: pointerValue_def pointerBytes_def)
  have h: "getTargetFunction tableOptions (ki_inst callInstruction) = None \<and>
           heap pointerLoaded 0 = Some (pointerState\<lparr>stack :=
             [sampleFrame\<lparr>sf_locals := [2 \<mapsto> ConstantExpr 64 10000, 3 \<mapsto> pointerValue]\<rparr>]\<rparr>) \<and>
           eval tableOptions callInstruction 0 (pointerState\<lparr>stack :=
             [sampleFrame\<lparr>sf_locals := [2 \<mapsto> ConstantExpr 64 10000, 3 \<mapsto> pointerValue]\<rparr>]\<rparr>)
             = Inr (Some pointerValue)"
    by (simp add: tableOptions_def sampleOptions_def pointerLoaded_def eval_def
          callInstruction_def sampleKInstruction_def)
  show "executeCallInstruction failingCall 3 pointerEnv tableOptions pointerLoaded 0
          callInstruction =
        executeCallInstruction returningCall 3 pointerEnv tableOptions pointerLoaded 0
          callInstruction"
    by (rule indirect_call_symbolic_callee [OF stable symbolic, THEN conjunct2, THEN conjunct1,
              THEN mp, OF h])
next
  have stable: "\<forall>e. \<not> isConstant e \<longrightarrow> \<not> isConstant (optimizeExpr pointerEnv e True)"
    by (simp add: pointerEnv_def sampleEnv_def)
  have symbolic: "\<not> isConstant pointerValue"
    by (simp add: pointerValue_def pointerBytes_def)
  obtain ex1 st1 where
    f: "fork pointerEnv tableOptions pointerLoaded 0
          (EqExpr_create (optimizeExpr pointerEnv pointerValue True) (toExpr (CE 64 100))) True
          = Inr ((Some 0, Some 1), ex1)" and
    s: "heap ex1 0 = Some st1" "WriteExploitCapability (addressSpace st1) = []"
       "wellFormedStack st1" and
    l: "addedStates ex1 = [1]" "removedStates ex1 = []" "testCases ex1 = []"
       "emittedErrors ex1 = {}"
    using pointer_fork by blast
  have h: "heap pointerLoaded 0 = Some (pointerState\<lparr>stack :=
             [sampleFrame\<lparr>sf_locals := [2 \<mapsto> ConstantExpr 64 10000, 3 \<mapsto> pointerValue]\<rparr>]\<rparr>) \<and>
           solver_getValue pointerEnv (solverTimeout pointerLoaded)
             (constraints (pointerState\<lparr>stack :=
                [sampleFrame\<lparr>sf_locals := [2 \<mapsto> ConstantExpr 64 10000, 3 \<mapsto> pointerValue]\<rparr>]\<rparr>))
             (optimizeExpr pointerEnv pointerValue True) = Some (CE 64 100) \<and>
           fork pointerEnv tableOptions pointerLoaded 0
             (EqExpr_create (optimizeExpr pointerEnv pointerValue True) (toExpr (CE 64 100))) True
             = Inr ((Some 0, Some 1), ex1) \<and>
           heap ex1 0 = Some st1 \<and>
           (if WriteExploitCapability (addressSpace st1) = [] then Inr ex1
            else exploitConstraints pointerEnv ex1 0 [] (optimizeExpr pointerEnv pointerValue True))
             = Inr ex1 \<and>
           heap ex1 0 = Some st1 \<and> wellFormedStack st1"
    using f s by (simp add: pointerLoaded_def pointerEnv_def)
  have "\<exists>ii lastInst ex'.
          indirectCallLoop failingCall (Suc 0) pointerEnv tableOptions pointerLoaded 0
            callInstruction [] pointerValue [] 0 False = Some (Inr ex') \<and>
          getLastNonKleeInternalInstruction tableOptions st1 = Inr (ii, lastInst) \<and>
          testCases ex' =
            (if EmitAllErrors tableOptions \<or>
                (lastInst, ''AEG: Find a possible exploit'') \<notin> emittedErrors ex1
             then testCases ex1 @
                    [\<lparr>tc_state = 0,
                      tc_message = Some
                             (''Error: '' @ ''AEG: Find a possible exploit'' @ newline @
                              (if info_file ii \<noteq> []
                               then ''File: '' @ info_file ii @ newline @
                                    ''Line: '' @ printNat pointerEnv (info_line ii) @ newline @
                                    ''assembly.ll line: '' @
                                    printNat pointerEnv (info_assemblyLine ii) @ newline
                               else []) @
                              ''Stack: '' @ newline @ dumpStack pointerEnv st1),
                      tc_suffix = Some ''exec.err''\<rparr>]
             else testCases ex1) \<and>
          addedStates ex' = remove1 0 (addedStates ex1) \<and>
          (if 0 \<in> set (addedStates ex1)
           then heap ex' 0 = None \<and> removedStates ex' = removedStates ex1
           else heap ex' 0 = Some (st1\<lparr>pc := prevPC st1\<rparr>) \<and>
                removedStates ex' = removedStates ex1 @ [0])"
    by (rule indirect_call_symbolic_callee [OF stable symbolic, THEN conjunct2, THEN conjunct2,
              THEN conjunct1, rule_format, OF h])
  then show "\<exists>ex'. indirectCallLoop failingCall (Suc 0) pointerEnv tableOptions pointerLoaded 0
            callInstruction [] pointerValue [] 0 False = Some (Inr ex') \<and>
          addedStates ex' = [1] \<and> removedStates ex' = [0] \<and>
          map tc_suffix (testCases ex') = [Some ''exec.err'']"
    by (auto simp: l)
next
  have stable: "\<forall>e. \<not> isConstant e \<longrightarrow> \<not> isConstant (optimizeExpr tableEnv e True)"
    by (simp add: tableEnv_def sampleEnv_def)
  have symbolic: "\<not> isConstant tableAddress"
    by (simp add: tableAddress_def)
  have h: "heap tableExecutor 0 = Some tableState \<and> wellFormedStack tableState \<and>
           eval tableOptions loadInstruction 0 tableState = Inr (Some tableAddress) \<and>
           \<not> isConstant tableAddress \<and>
           solver_getValue tableEnv (solverTimeout tableExecutor) (constraints tableState)
             tableAddress \<noteq> None"
    by (simp add: tableExecutor_def tableState_def wellFormedStack_def eval_def
          loadInstruction_def sampleKInstruction_def sampleState_def tableAddress_def
          tableEnv_def)
  have facts: "0 \<notin> set (addedStates tableExecutor)" "testCases tableExecutor = []"
      "emittedErrors tableExecutor = {}"
    by (simp_all add: tableExecutor_def sampleExecutor_def)
  from indirect_call_symbolic_callee [OF stable symbolic, THEN conjunct2, THEN conjunct2,
          THEN conjunct2, THEN mp, OF h]
  show "\<exists>ex'. executeLoad tableEnv tableOptions tableExecutor 0 loadInstruction = Inr ex' \<and>
          map tc_suffix (testCases ex') = [Some ''ptr.err''] \<and> 0 \<in> set (removedStates ex')"
    by (auto simp: facts)
qed

text \<open>
  C6 as stated fails on its own scenario and on every symbolic callee. The load of the
  table entry at \<open>10000 + 8 * index\<close> ends the only state with the pointer error: no
  state is created, register 3 is not bound, and the call is not reached. When the
  pointer itself is symbolic, the load binds it to register 3, and the call through
  register 3, run with a call handler that fails when it is called, returns after one
  iteration: the calling state is removed with an \<open>exec.err\<close> test case, the state
  that the fork created is left at the instruction after the call, and no callee was
  executed.
\<close>

theorem indirect_call_counterexample:
  "map_sum id removedStates
     (executeLoad tableEnv tableOptions tableExecutor 0 loadInstruction) = Inr [0] \<and>
   map_sum id addedStates
     (executeLoad tableEnv tableOptions tableExecutor 0 loadInstruction) = Inr [] \<and>
   map_sum id (map tc_suffix \<circ> testCases)
     (executeLoad tableEnv tableOptions tableExecutor 0 loadInstruction)
     = Inr [Some ''ptr.err''] \<and>
   executeLoad pointerEnv tableOptions pointerExecutor 0 loadInstruction = Inr pointerLoaded \<and>
   map_option (map_sum id removedStates)
     (executeCallInstruction failingCall 1 pointerEnv tableOptions pointerLoaded 0
        callInstruction) = Some (Inr [0]) \<and>
   map_option (map_sum id addedStates)
     (executeCallInstruction failingCall 1 pointerEnv tableOptions pointerLoaded 0
        callInstruction) = Some (Inr [1]) \<and>
   map_option (map_sum id (map tc_suffix \<circ> testCases))
     (executeCallInstruction failingCall 1 pointerEnv tableOptions pointerLoaded 0
        callInstruction) = Some (Inr [Some ''exec.err''])"
  using table_load pointer_load pointer_call by auto

section \<open>Allocation failure\<close>

lemma executeAlloc_constant:
  assumes "heap ex state = Some st"
  shows "executeAlloc env opts ex state (ConstantExpr w n) isLocal target zeroMemory reallocFrom
           allocationAlignment isheap =
         executeAllocConcrete env opts ex state n isLocal target zeroMemory reallocFrom
           allocationAlignment isheap"
  using assms by (simp add: executeAlloc_def toUnique_def)

text \<open>
  C10. \<open>executeAlloc\<close> with a size that is a constant, in a live state with a frame,
  when the alignment is determined and the memory manager returns no object: the
  destination register of the target instruction is bound to the constant 0 of the width
  of a pointer, and nothing else changes. The state is not ended: it stays in the engine
  with its program counter, no test case is written and no object is bound.
\<close>

theorem alloc_failure_binds_null:
  assumes live: "heap ex state = Some st"
      and frames: "stack st \<noteq> []"
      and alignment: "(if allocationAlignment = 0
                       then getAllocationAlignment env (ki_inst (kinstAt opts (prevPC st)))
                       else Inr allocationAlignment) = Inr a"
      and fails: "allocate env n isLocal False (ki_inst (kinstAt opts (prevPC st))) a = None"
  shows "executeAlloc env opts ex state (ConstantExpr w n) isLocal target zeroMemory reallocFrom
           allocationAlignment isheap =
         Inr (ex\<lparr>heap := (heap ex)(state \<mapsto>
                st\<lparr>stack := butlast (stack st) @
                  [(last (stack st))\<lparr>sf_locals := (sf_locals (last (stack st)))
                     (ki_dest target \<mapsto> ConstantExpr (pointerWidth opts) 0)\<rparr>]\<rparr>)\<rparr>)"
proof -
  have "executeAllocConcrete env opts ex state n isLocal target zeroMemory reallocFrom
          allocationAlignment isheap
        = bindLocal ex target state (ConstantExpr (pointerWidth opts) 0)"
    using live alignment fails by (simp add: executeAllocConcrete_def)
  then show ?thesis
    using live frames by (simp add: executeAlloc_constant [OF live] bindLocal_def)
qed

theorem alloc_failure_binds_null_witness:
  "executeAlloc sampleEnv sampleOptions sampleExecutor 0 (ConstantExpr 64 16) True
     sampleKInstruction False None 0 False =
   Inr (sampleExecutor\<lparr>heap := [0 \<mapsto>
          sampleState\<lparr>stack := [sampleFrame\<lparr>sf_locals := [3 \<mapsto> ConstantExpr 64 0]\<rparr>]\<rparr>]\<rparr>)"
proof -
  have live: "heap sampleExecutor 0 = Some sampleState"
    by (simp add: sampleExecutor_def)
  have frames: "stack sampleState \<noteq> []"
    by (simp add: sampleState_def)
  have alignment: "(if (0::nat) = 0
       then getAllocationAlignment sampleEnv (ki_inst (kinstAt sampleOptions (prevPC sampleState)))
       else Inr 0) = Inr 8"
    by (simp add: sampleEnv_def)
  have fails: "allocate sampleEnv 16 True False
                 (ki_inst (kinstAt sampleOptions (prevPC sampleState))) 8 = None"
    by (simp add: sampleEnv_def)
  show ?thesis
    unfolding alloc_failure_binds_null [OF live frames alignment fails]
    by (simp add: sampleExecutor_def sampleState_def sampleOptions_def sampleKInstruction_def
          sampleFrame_def)
qed

end
